theory Spec2Isabelle
  imports Complex_Main
begin

section \<open>JSON values and the JavaScript operations the source applies to them\<close>

text \<open>
  An event is whatever \<^verbatim>\<open>JSON.parse\<close> returns for one line of \<^verbatim>\<open>events.jsonl\<close>; the source
  types it \<^verbatim>\<open>unknown\<close> and inspects it with type guards. A JavaScript string is a
  \<^typ>\<open>string\<close>, one \<^typ>\<open>char\<close> for each code unit (code units above 255 are outside the
  model). A number is the real value its JSON literal denotes; \<^verbatim>\<open>JSON.parse\<close> never yields
  \<^verbatim>\<open>NaN\<close>, and rounding to a double is not modelled. \<^verbatim>\<open>undefined\<close> is \<open>None\<close>.
\<close>

datatype json =
    JNull
  | JBool bool
  | JNum real
  | JStr string
  | JArr "json list"
  | JObj "(string \<times> json) list"

type_synonym jsval = "json option"

text \<open>\<^verbatim>\<open>!v\<close> is \<open>\<not> truthy v\<close>.\<close>

fun truthy :: "jsval \<Rightarrow> bool" where
  "truthy None = False"
| "truthy (Some JNull) = False"
| "truthy (Some (JBool b)) = b"
| "truthy (Some (JNum n)) = (n \<noteq> 0)"
| "truthy (Some (JStr s)) = (s \<noteq> [])"
| "truthy (Some (JArr xs)) = True"
| "truthy (Some (JObj kvs)) = True"

text \<open>\<^verbatim>\<open>typeof v === 'object'\<close>: true of \<^verbatim>\<open>null\<close>, arrays and objects.\<close>

fun typeofObject :: "jsval \<Rightarrow> bool" where
  "typeofObject (Some JNull) = True"
| "typeofObject (Some (JArr xs)) = True"
| "typeofObject (Some (JObj kvs)) = True"
| "typeofObject v = False"

text \<open>
  \<^verbatim>\<open>v.k\<close> for the property names the source reads (\<^verbatim>\<open>type\<close>, \<^verbatim>\<open>data\<close>, \<^verbatim>\<open>timestamp\<close>,
  \<^verbatim>\<open>messageId\<close>, \<^verbatim>\<open>content\<close>, \<^verbatim>\<open>usage\<close>, \<^verbatim>\<open>model\<close>, \<^verbatim>\<open>newModel\<close> and the token counts): none
  of them is a built-in property of a string, number, boolean or array, so only an object
  can have one. The first binding of a key in the list is the object's value for it.
  Every read in the source is behind a guard that excludes \<^verbatim>\<open>null\<close> and \<^verbatim>\<open>undefined\<close>.
\<close>

fun getProp :: "jsval \<Rightarrow> string \<Rightarrow> jsval" where
  "getProp (Some (JObj kvs)) k = map_of kvs k"
| "getProp v k = None"

text \<open>\<^verbatim>\<open>a ?? b\<close>: \<open>b\<close> when \<open>a\<close> is \<^verbatim>\<open>undefined\<close> or \<^verbatim>\<open>null\<close>.\<close>

fun nullish :: "jsval \<Rightarrow> json \<Rightarrow> json" where
  "nullish None d = d"
| "nullish (Some JNull) d = d"
| "nullish (Some v) d = v"

text \<open>
  What the source uses of the JavaScript runtime and cannot be read off the repository:
  \<^item> \<open>jsonParse\<close>: \<^verbatim>\<open>JSON.parse\<close>, \<open>None\<close> where it throws;
  \<^item> \<open>dateParse\<close>: \<^verbatim>\<open>Date.parse\<close> of a truthy value that the runtime can turn into a string,
    \<open>None\<close> where the result is not finite;
  \<^item> \<open>coercedGtZero\<close>: \<^verbatim>\<open>v > 0\<close> for a \<open>v\<close> that is not a number and that the runtime can
    convert to a primitive;
  \<^item> \<open>utf8Decode\<close>: the decoding of file bytes into a string;
  \<^item> \<open>homedir\<close>: \<^verbatim>\<open>os.homedir()\<close>, as the list of its segments.
\<close>

record runtime =
  jsonParse :: "string \<Rightarrow> json option"
  dateParse :: "json \<Rightarrow> real option"
  coercedGtZero :: "json \<Rightarrow> bool"
  utf8Decode :: "string \<Rightarrow> string"
  homedir :: "string list"

text \<open>
  The one exception the code under study can raise: the \<^verbatim>\<open>TypeError\<close> of a conversion to a
  primitive. A function that can raise returns \<open>Inl TypeError\<close> or \<open>Inr\<close> of its value.

  \<^verbatim>\<open>Date.parse(v)\<close> converts \<open>v\<close> to a string and \<^verbatim>\<open>v > 0\<close> converts \<open>v\<close> to a number; for an
  object both try its \<^verbatim>\<open>toString\<close> and \<^verbatim>\<open>valueOf\<close> (in either order) and raise when neither is
  callable with a primitive result. An object that \<^verbatim>\<open>JSON.parse\<close> returned inherits
  \<^verbatim>\<open>Object.prototype.toString\<close>, which returns a string, and \<^verbatim>\<open>Object.prototype.valueOf\<close>, which
  returns the object; a key of its own hides the inherited method with a value that is never
  callable. So its conversion raises exactly when it has a key \<^verbatim>\<open>toString\<close>. An array is
  converted by \<^verbatim>\<open>join\<close>, which converts each element other than \<^verbatim>\<open>null\<close> to a string.
\<close>

datatype error = TypeError

fun unconvertible :: "json \<Rightarrow> bool" where
  "unconvertible (JObj kvs) = (''toString'' \<in> set (map fst kvs))"
| "unconvertible (JArr xs) = list_ex unconvertible xs"
| "unconvertible v = False"

text \<open>\<^verbatim>\<open>v > 0\<close>\<close>

fun gtZero :: "runtime \<Rightarrow> jsval \<Rightarrow> error + bool" where
  "gtZero rt (Some (JNum n)) = Inr (0 < n)"
| "gtZero rt (Some v) = (if unconvertible v then Inl TypeError else Inr (coercedGtZero rt v))"
| "gtZero rt None = Inr False"

subsection \<open>Strings: \<^verbatim>\<open>trim\<close> and \<^verbatim>\<open>split(/\r?\n/)\<close>\<close>

definition isWhiteSpace :: "char \<Rightarrow> bool" where
  "isWhiteSpace c = (c \<in> set [CHR 0x09, CHR 0x0A, CHR 0x0B, CHR 0x0C, CHR 0x0D, CHR 0x20, CHR 0xA0])"

definition trim :: "string \<Rightarrow> string" where
  "trim s = rev (dropWhile isWhiteSpace (rev (dropWhile isWhiteSpace s)))"

text \<open>
  The separator \<^verbatim>\<open>/\r?\n/\<close> is a line feed together with one carriage return right before it,
  if there is one. \<open>cur\<close> holds the current piece, reversed.
\<close>

fun dropCR :: "string \<Rightarrow> string" where
  "dropCR (c # cs) = (if c = CHR 0x0D then cs else c # cs)"
| "dropCR [] = []"

fun splitLinesFrom :: "string \<Rightarrow> string \<Rightarrow> string list" where
  "splitLinesFrom cur [] = [rev cur]"
| "splitLinesFrom cur (c # cs) =
     (if c = CHR 0x0A then rev (dropCR cur) # splitLinesFrom [] cs
      else splitLinesFrom (c # cur) cs)"

definition splitLines :: "string \<Rightarrow> string list" where
  "splitLines s = splitLinesFrom [] s"

section \<open>The file system and the module state\<close>

text \<open>
  A path is the list of its segments, so \<^verbatim>\<open>path.join(p, name)\<close> is \<open>p @ [name]\<close> and
  \<^verbatim>\<open>path.basename\<close> is the last segment.
\<close>

type_synonym path = "string list"

definition basename :: "path \<Rightarrow> string" where
  "basename p = (case rev p of [] \<Rightarrow> [] | n # _ \<Rightarrow> n)"

datatype dirent_kind = IsFile | IsDirectory | IsOther

record dirent =
  d_name :: string
  d_kind :: dirent_kind

record fstat =
  st_mtimeMs :: real
  st_size :: nat

text \<open>
  The file system as one call sees it: the outcome of each operation on each path, \<open>None\<close>
  (or \<open>False\<close>) where the operation throws. \<open>fs_content\<close> is the bytes of a file that
  can be opened and read.
\<close>

record filesys =
  fs_access :: "path \<Rightarrow> bool"
  fs_readdir :: "path \<Rightarrow> dirent list option"
  fs_stat :: "path \<Rightarrow> fstat option"
  fs_content :: "path \<Rightarrow> string option"
  fs_watch :: "path \<Rightarrow> bool"

datatype fs_op =
    Access path
  | Readdir path
  | Stat path
  | ReadFile path
  | ReadAt path nat nat
  | Watch path
  | Exists path

subsection \<open>Usage rows and cache entries\<close>

record tokens =
  t_input :: json
  t_output :: json
  t_cacheRead :: "json option"
  t_cacheWrite :: "json option"

record usage_row =
  sessionId :: string
  providerId :: string
  modelId :: json
  row_tokens :: tokens
  timestamp :: real
  sessionUpdatedAt :: real
  isEstimated :: bool
  sessionName :: "string option"
  projectPath :: "string option"

record activity_update =
  au_sessionId :: string
  au_messageId :: string
  au_tokens :: tokens
  au_timestamp :: real

record agg_entry =
  updatedAt :: real
  usageRows :: "usage_row list"
  lastAccessed :: real

record metadata =
  md_mtimeMs :: real
  md_sessionId :: string

record session_cache =
  lastCheck :: real
  lastResult :: "usage_row list"
  lastLimit :: real
  lastSince :: "real option"

text \<open>
  A watcher handle (\<^verbatim>\<open>fsSync.FSWatcher\<close>) is a number; the handles that have been opened
  and not closed are in \<open>openWatchers\<close> of the world below.
\<close>

record session_watcher =
  sw_sessionDirWatchers :: "path \<rightharpoonup> nat"
  sw_rootWatcher :: "nat option"
  sw_dirtyPaths :: "path set"
  sw_reconciliationTimer :: bool
  sw_started :: bool

record activity_watcher =
  aw_sessionDirWatchers :: "path \<rightharpoonup> nat"
  aw_rootWatcher :: "nat option"
  aw_callback :: "nat option"
  aw_fileOffsets :: "path \<rightharpoonup> nat"
  aw_started :: bool

text \<open>
  A discovery of session directories that a watcher has launched without awaiting it
  (\<^verbatim>\<open>void getSessionDirs().then(...)\<close>): its \<^verbatim>\<open>readdir\<close> has been issued, with the outcome
  recorded here, and the rest of it runs in a later turn of the event loop.
\<close>

datatype task =
    SessionDiscovery "dirent list option"
  | ActivityDiscovery "dirent list option"

text \<open>
  The module-level variables of \<^verbatim>\<open>cache.ts\<close>, \<^verbatim>\<open>parser.ts\<close> and \<^verbatim>\<open>watcher.ts\<close>, with what the
  code does to the outside: \<open>fsLog\<close> lists the file-system operations issued, in order;
  \<open>delivered\<close> lists the calls of the registered activity callback (which callback, with
  what update); \<open>pending\<close> lists the launched tasks that have not run to their end, oldest
  first.
\<close>

record world =
  sessionCache :: session_cache
  sessionMetadataIndex :: "path \<rightharpoonup> metadata"
  sessionAggregateCache :: "string \<rightharpoonup> agg_entry"
  sessionWatcher :: session_watcher
  activityWatcher :: activity_watcher
  forceFullReconciliation :: bool
  cachedModel :: "string option"
  modelCacheTime :: real
  openWatchers :: "nat set"
  nextWatcher :: nat
  fsLog :: "fs_op list"
  delivered :: "(nat \<times> activity_update) list"
  pending :: "task list"

definition logOp :: "fs_op \<Rightarrow> world \<Rightarrow> world" where
  "logOp op w = w\<lparr>fsLog := fsLog w @ [op]\<rparr>"

section \<open>\<^verbatim>\<open>utils.ts\<close>\<close>

text \<open>The body of the loop of \<^verbatim>\<open>readJsonlFile\<close>: blank lines and lines that do not parse are skipped.\<close>

fun parseLines :: "runtime \<Rightarrow> string list \<Rightarrow> json list" where
  "parseLines rt [] = []"
| "parseLines rt (line # ls) =
     (let trimmed = trim line in
      if trimmed = [] then parseLines rt ls
      else (case jsonParse rt trimmed of
              Some v \<Rightarrow> v # parseLines rt ls
            | None \<Rightarrow> parseLines rt ls))"

definition readJsonlFile :: "runtime \<Rightarrow> filesys \<Rightarrow> path \<Rightarrow> world \<Rightarrow> json list \<times> world" where
  "readJsonlFile rt fs filePath w =
     (case fs_content fs filePath of
        None \<Rightarrow> ([], logOp (ReadFile filePath) w)
      | Some bytes \<Rightarrow> (parseLines rt (splitLines (utf8Decode rt bytes)), logOp (ReadFile filePath) w))"

text \<open>
  \<^verbatim>\<open>readWorkspaceYaml\<close>: the loop fills the \<^verbatim>\<open>result\<close> object, modelled as a map; of the
  returned record the callers read \<^verbatim>\<open>id\<close>, \<^verbatim>\<open>cwd\<close> and \<^verbatim>\<open>summary\<close>.
\<close>

record workspace =
  ws_id :: string
  ws_cwd :: string
  ws_summary :: "string option"

fun indexOfColon :: "string \<Rightarrow> nat option" where
  "indexOfColon [] = None"
| "indexOfColon (c # cs) =
     (if c = CHR '':'' then Some 0 else map_option Suc (indexOfColon cs))"

fun yamlLines :: "string list \<Rightarrow> (string \<rightharpoonup> string) \<Rightarrow> (string \<rightharpoonup> string)" where
  "yamlLines [] result = result"
| "yamlLines (line # ls) result =
     (let trimmed = trim line in
      if trimmed = [] \<or> take 1 trimmed = ''#'' then yamlLines ls result
      else (case indexOfColon trimmed of
              None \<Rightarrow> yamlLines ls result
            | Some colonIndex \<Rightarrow>
                (let key = trim (take colonIndex trimmed);
                     val = trim (drop (colonIndex + 1) trimmed)
                 in if key \<noteq> [] then yamlLines ls (result(key \<mapsto> val))
                    else yamlLines ls result)))"

text \<open>The body of \<^verbatim>\<open>readWorkspaceYaml\<close> once the file has been read.\<close>

definition workspaceFromYaml :: "string \<Rightarrow> workspace option" where
  "workspaceFromYaml content =
     (let result = yamlLines (splitLines content) Map.empty in
      case result ''id'' of
        None \<Rightarrow> None
      | Some i \<Rightarrow>
          if i = [] then None
          else Some \<lparr>ws_id = i,
                     ws_cwd = (case result ''cwd'' of None \<Rightarrow> [] | Some c \<Rightarrow> c),
                     ws_summary = result ''summary''\<rparr>)"

definition readWorkspaceYaml :: "runtime \<Rightarrow> filesys \<Rightarrow> path \<Rightarrow> world \<Rightarrow> workspace option \<times> world" where
  "readWorkspaceYaml rt fs filePath w =
     (case fs_content fs filePath of
        None \<Rightarrow> (None, logOp (ReadFile filePath) w)
      | Some bytes \<Rightarrow> (workspaceFromYaml (utf8Decode rt bytes), logOp (ReadFile filePath) w))"

definition estimateTokens :: "string \<Rightarrow> real" where
  "estimateTokens text = (if text = [] then 0 else of_int \<lceil>real (length text) / 4\<rceil>)"

text \<open>
  \<^verbatim>\<open>toTimestamp\<close> is declared for a string or \<^verbatim>\<open>undefined\<close> and is called with whatever the
  event has under \<^verbatim>\<open>timestamp\<close>; \<^verbatim>\<open>Date.parse\<close> is outside every \<^verbatim>\<open>try\<close>.
\<close>

definition toTimestamp :: "runtime \<Rightarrow> jsval \<Rightarrow> real \<Rightarrow> error + real" where
  "toTimestamp rt v fallback =
     (case v of
        None \<Rightarrow> Inr fallback
      | Some j \<Rightarrow>
          if \<not> truthy (Some j) then Inr fallback
          else if unconvertible j then Inl TypeError
          else (case dateParse rt j of None \<Rightarrow> Inr fallback | Some parsed \<Rightarrow> Inr parsed))"

section \<open>\<^verbatim>\<open>parser.ts\<close>: the per-session parser\<close>

record model_change =
  mc_timestamp :: real
  mc_model :: string

text \<open>
  The loop of \<^verbatim>\<open>resolveModelAtTime\<close> runs \<open>i\<close> from \<open>length - 1\<close> down to \<open>0\<close>;
  \<open>walkBack \<dots> n\<close> is the loop with \<open>n = i + 1\<close> indices still to visit.
\<close>

fun walkBack :: "real \<Rightarrow> string \<Rightarrow> model_change list \<Rightarrow> nat \<Rightarrow> string" where
  "walkBack ts defaultModel modelChanges 0 = defaultModel"
| "walkBack ts defaultModel modelChanges (Suc i) =
     (if mc_timestamp (modelChanges ! i) \<le> ts then mc_model (modelChanges ! i)
      else walkBack ts defaultModel modelChanges i)"

definition resolveModelAtTime :: "real \<Rightarrow> string \<Rightarrow> model_change list \<Rightarrow> string" where
  "resolveModelAtTime ts defaultModel modelChanges =
     (if length modelChanges = 0 then defaultModel
      else walkBack ts defaultModel modelChanges (length modelChanges))"

definition isAssistantMessage :: "jsval \<Rightarrow> bool" where
  "isAssistantMessage event =
     (if \<not> truthy event \<or> \<not> typeofObject event then False
      else if getProp event ''type'' \<noteq> Some (JStr ''assistant.message'') then False
      else (let data = getProp event ''data'' in
            if \<not> truthy data \<or> \<not> typeofObject data then False
            else if (case getProp data ''messageId'' of Some (JStr m) \<Rightarrow> m = [] | _ \<Rightarrow> True) then False
            else if (case getProp data ''content'' of Some (JStr c) \<Rightarrow> False | _ \<Rightarrow> True) then False
            else True))"

definition isSessionStart :: "jsval \<Rightarrow> bool" where
  "isSessionStart event =
     (if \<not> truthy event \<or> \<not> typeofObject event then False
      else if getProp event ''type'' \<noteq> Some (JStr ''session.start'') then False
      else (let data = getProp event ''data'' in
            if \<not> truthy data \<or> \<not> typeofObject data then False
            else if (case getProp data ''sessionId'' of Some (JStr m) \<Rightarrow> False | _ \<Rightarrow> True) then False
            else True))"

definition isModelChange :: "jsval \<Rightarrow> bool" where
  "isModelChange event =
     (if \<not> truthy event \<or> \<not> typeofObject event then False
      else if getProp event ''type'' \<noteq> Some (JStr ''session.model_change'') then False
      else (let data = getProp event ''data'' in
            if \<not> truthy data \<or> \<not> typeofObject data then False
            else if (case getProp data ''newModel'' of Some (JStr m) \<Rightarrow> m = [] | _ \<Rightarrow> True) then False
            else True))"

text \<open>Reading a field that a guard has shown to be a string, or to be defined.\<close>

fun strOf :: "jsval \<Rightarrow> string" where
  "strOf (Some (JStr s)) = s"
| "strOf v = []"

fun definedVal :: "jsval \<Rightarrow> json" where
  "definedVal (Some v) = v"
| "definedVal None = JNull"

definition messageIdOf :: "json \<Rightarrow> string" where
  "messageIdOf event = strOf (getProp (getProp (Some event) ''data'') ''messageId'')"

definition contentOf :: "json \<Rightarrow> string" where
  "contentOf event = strOf (getProp (getProp (Some event) ''data'') ''content'')"

text \<open>The first loop of \<^verbatim>\<open>parseSessionDirRows\<close>, then the sort (which is stable).\<close>

fun collectModelChanges :: "runtime \<Rightarrow> json list \<Rightarrow> error + model_change list" where
  "collectModelChanges rt [] = Inr []"
| "collectModelChanges rt (event # es) =
     (if isModelChange (Some event)
      then (case toTimestamp rt (getProp (Some event) ''timestamp'') 0 of
              Inl e \<Rightarrow> Inl e
            | Inr ts \<Rightarrow>
                (case collectModelChanges rt es of
                   Inl e \<Rightarrow> Inl e
                 | Inr changes \<Rightarrow>
                     Inr (\<lparr>mc_timestamp = ts,
                           mc_model = strOf (getProp (getProp (Some event) ''data'') ''newModel'')\<rparr>
                          # changes)))
      else collectModelChanges rt es)"

definition modelTimeline :: "runtime \<Rightarrow> json list \<Rightarrow> error + model_change list" where
  "modelTimeline rt events =
     (case collectModelChanges rt events of
        Inl e \<Rightarrow> Inl e
      | Inr changes \<Rightarrow> Inr (sort_key mc_timestamp changes))"

text \<open>
  The branch on \<^verbatim>\<open>data.usage\<close> of \<^verbatim>\<open>parseSessionDirRows\<close> (lines 180 to 202) and the
  attaching of the cache counts (lines 222 to 227), for one assistant message.
\<close>

definition hasVendorUsage :: "jsval \<Rightarrow> bool" where
  "hasVendorUsage usage =
     (truthy usage \<and> (case getProp usage ''prompt_tokens'' of Some (JNum n) \<Rightarrow> 0 < n | _ \<Rightarrow> False))"

text \<open>\<^verbatim>\<open>v && v > 0\<close> guarding the assignment of \<open>v\<close>: the comparison is made for a truthy \<open>v\<close> only.\<close>

definition whenPositive :: "runtime \<Rightarrow> jsval \<Rightarrow> error + jsval" where
  "whenPositive rt v =
     (if \<not> truthy v then Inr None
      else (case gtZero rt v of
              Inl e \<Rightarrow> Inl e
            | Inr positive \<Rightarrow> Inr (if positive then v else None)))"

definition estimatedInput :: "real \<Rightarrow> real" where
  "estimatedInput outputTokens = of_int \<lceil>outputTokens * (1 / 2)\<rceil>"

definition rowTokens :: "runtime \<Rightarrow> jsval \<Rightarrow> error + tokens \<times> bool" where
  "rowTokens rt data =
     (let usage = getProp data ''usage'' in
      if hasVendorUsage usage
      then (case whenPositive rt (getProp usage ''cache_read_input_tokens'') of
              Inl e \<Rightarrow> Inl e
            | Inr cacheRead \<Rightarrow>
                (case whenPositive rt (getProp usage ''cache_creation_input_tokens'') of
                   Inl e \<Rightarrow> Inl e
                 | Inr cacheWrite \<Rightarrow>
                     Inr (\<lparr>t_input = definedVal (getProp usage ''prompt_tokens''),
                           t_output = nullish (getProp usage ''completion_tokens'') (JNum 0),
                           t_cacheRead = (if truthy cacheRead then cacheRead else None),
                           t_cacheWrite = (if truthy cacheWrite then cacheWrite else None)\<rparr>, False)))
      else (let outputTokens = estimateTokens (strOf (getProp data ''content'')) in
            Inr (\<lparr>t_input = JNum (estimatedInput outputTokens),
                  t_output = JNum outputTokens,
                  t_cacheRead = None,
                  t_cacheWrite = None\<rparr>, True)))"

text \<open>What the parser has read of the session before it builds rows.\<close>

record session_info =
  si_sessionId :: string
  si_sessionName :: "string option"
  si_projectPath :: "string option"
  si_mtimeMs :: real
  si_defaultModel :: string
  si_modelChanges :: "model_change list"

text \<open>The body of the second loop of \<^verbatim>\<open>parseSessionDirRows\<close>: the row of one assistant message.\<close>

definition messageRow :: "runtime \<Rightarrow> session_info \<Rightarrow> json \<Rightarrow> error + usage_row" where
  "messageRow rt si event =
     (let data = getProp (Some event) ''data'' in
      case rowTokens rt data of
        Inl e \<Rightarrow> Inl e
      | Inr (toks, estimated) \<Rightarrow>
          (case toTimestamp rt (getProp (Some event) ''timestamp'') (si_mtimeMs si) of
             Inl e \<Rightarrow> Inl e
           | Inr ts \<Rightarrow>
               Inr \<lparr>sessionId = si_sessionId si,
                    providerId = ''github-copilot'',
                    modelId = nullish (getProp data ''model'')
                                (JStr (resolveModelAtTime ts (si_defaultModel si) (si_modelChanges si))),
                    row_tokens = toks,
                    timestamp = ts,
                    sessionUpdatedAt = si_mtimeMs si,
                    isEstimated = estimated,
                    sessionName = si_sessionName si,
                    projectPath = si_projectPath si\<rparr>))"

text \<open>
  \<^verbatim>\<open>Map.prototype.set\<close>: a key that is in the map keeps its place and takes the new value, a
  new key goes to the end. \<^verbatim>\<open>Array.from(map.values())\<close> is \<open>map snd\<close>.
\<close>

fun mapSet :: "'k \<Rightarrow> 'v \<Rightarrow> ('k \<times> 'v) list \<Rightarrow> ('k \<times> 'v) list" where
  "mapSet k v [] = [(k, v)]"
| "mapSet k v ((k', v') # m) = (if k' = k then (k, v) # m else (k', v') # mapSet k v m)"

fun dedupLoop ::
  "runtime \<Rightarrow> session_info \<Rightarrow> json list \<Rightarrow> (string \<times> usage_row) list
     \<Rightarrow> error + (string \<times> usage_row) list" where
  "dedupLoop rt si [] deduped = Inr deduped"
| "dedupLoop rt si (event # es) deduped =
     (if \<not> isAssistantMessage (Some event) then dedupLoop rt si es deduped
      else (case messageRow rt si event of
              Inl e \<Rightarrow> Inl e
            | Inr row \<Rightarrow> dedupLoop rt si es (mapSet (messageIdOf event) row deduped)))"

definition nonEmpty :: "string \<Rightarrow> string option" where
  "nonEmpty s = (if s = [] then None else Some s)"

definition sessionInfo ::
  "workspace option \<Rightarrow> path \<Rightarrow> real \<Rightarrow> string \<Rightarrow> model_change list \<Rightarrow> session_info" where
  "sessionInfo workspace dirPath mtimeMs defaultModel modelChanges =
     \<lparr>si_sessionId = (case workspace of Some ws \<Rightarrow> ws_id ws | None \<Rightarrow> basename dirPath),
      si_sessionName = (case workspace of
                          Some ws \<Rightarrow> (case ws_summary ws of Some s \<Rightarrow> nonEmpty (trim s) | None \<Rightarrow> None)
                        | None \<Rightarrow> None),
      si_projectPath = (case workspace of Some ws \<Rightarrow> nonEmpty (ws_cwd ws) | None \<Rightarrow> None),
      si_mtimeMs = mtimeMs,
      si_defaultModel = defaultModel,
      si_modelChanges = modelChanges\<rparr>"

text \<open>
  \<^verbatim>\<open>parseSessionDirRows\<close> has no \<^verbatim>\<open>try\<close> of its own: what its two loops raise rejects its
  promise, after both files have been read.
\<close>

definition parseSessionDirRows ::
  "runtime \<Rightarrow> filesys \<Rightarrow> path \<Rightarrow> real \<Rightarrow> string \<Rightarrow> world
     \<Rightarrow> (error + usage_row list) \<times> world" where
  "parseSessionDirRows rt fs dirPath mtimeMs defaultModel w =
     (let eventsPath = dirPath @ [''events.jsonl''];
          workspacePath = dirPath @ [''workspace.yaml''];
          (events, w1) = readJsonlFile rt fs eventsPath w
      in if length events = 0 then (Inr [], w1)
         else (let (workspace, w2) = readWorkspaceYaml rt fs workspacePath w1 in
               case modelTimeline rt events of
                 Inl e \<Rightarrow> (Inl e, w2)
               | Inr modelChanges \<Rightarrow>
                   (case dedupLoop rt (sessionInfo workspace dirPath mtimeMs defaultModel modelChanges)
                           events [] of
                      Inl e \<Rightarrow> (Inl e, w2)
                    | Inr deduped \<Rightarrow> (Inr (map snd deduped), w2))))"

section \<open>\<^verbatim>\<open>paths.ts\<close>\<close>

definition COPILOT_CLI_HOME :: "runtime \<Rightarrow> path" where
  "COPILOT_CLI_HOME rt = homedir rt @ [''.copilot'']"

definition COPILOT_CLI_SESSION_STATE_PATH :: "runtime \<Rightarrow> path" where
  "COPILOT_CLI_SESSION_STATE_PATH rt = COPILOT_CLI_HOME rt @ [''session-state'']"

definition COPILOT_CLI_LOGS_PATH :: "runtime \<Rightarrow> path" where
  "COPILOT_CLI_LOGS_PATH rt = COPILOT_CLI_HOME rt @ [''logs'']"

fun sessionDirEntries :: "runtime \<Rightarrow> filesys \<Rightarrow> dirent list \<Rightarrow> world \<Rightarrow> path list \<times> world" where
  "sessionDirEntries rt fs [] w = ([], w)"
| "sessionDirEntries rt fs (entry # es) w =
     (if d_kind entry \<noteq> IsDirectory then sessionDirEntries rt fs es w
      else (let dir = COPILOT_CLI_SESSION_STATE_PATH rt @ [d_name entry];
                eventsPath = dir @ [''events.jsonl''];
                w1 = logOp (Access eventsPath) w
            in if fs_access fs eventsPath
               then (let (dirs, w2) = sessionDirEntries rt fs es w1 in (dir # dirs, w2))
               else sessionDirEntries rt fs es w1))"

text \<open>
  \<^verbatim>\<open>getSessionDirs\<close>: the call issues \<^verbatim>\<open>readdir\<close> on the session-state directory before it
  gives up control; \<open>sessionDirsOf\<close> is the rest of it, run with the outcome of that
  \<^verbatim>\<open>readdir\<close>. A caller that awaits the call runs both in turn.
\<close>

definition sessionDirsOf ::
  "runtime \<Rightarrow> filesys \<Rightarrow> dirent list option \<Rightarrow> world \<Rightarrow> path list \<times> world" where
  "sessionDirsOf rt fs listing w =
     (case listing of
        None \<Rightarrow> ([], w)
      | Some entries \<Rightarrow> sessionDirEntries rt fs entries w)"

definition getSessionDirs :: "runtime \<Rightarrow> filesys \<Rightarrow> world \<Rightarrow> path list \<times> world" where
  "getSessionDirs rt fs w =
     sessionDirsOf rt fs (fs_readdir fs (COPILOT_CLI_SESSION_STATE_PATH rt))
       (logOp (Readdir (COPILOT_CLI_SESSION_STATE_PATH rt)) w)"

section \<open>\<^verbatim>\<open>watcher.ts\<close>\<close>

text \<open>
  \<^verbatim>\<open>fsSync.watch\<close>: a new handle, open from now on, or \<open>None\<close> where it throws.
\<close>

definition openWatch :: "filesys \<Rightarrow> path \<Rightarrow> world \<Rightarrow> nat option \<times> world" where
  "openWatch fs p w =
     (let w1 = logOp (Watch p) w in
      if fs_watch fs p
      then (Some (nextWatcher w1),
            w1\<lparr>openWatchers := insert (nextWatcher w1) (openWatchers w1),
               nextWatcher := Suc (nextWatcher w1)\<rparr>)
      else (None, w1))"

text \<open>\<^verbatim>\<open>watcher.close()\<close> for every handle of a set.\<close>

definition closeWatchers :: "nat set \<Rightarrow> world \<Rightarrow> world" where
  "closeWatchers hs w = w\<lparr>openWatchers := openWatchers w - hs\<rparr>"

definition watchSessionDir :: "filesys \<Rightarrow> path \<Rightarrow> world \<Rightarrow> world" where
  "watchSessionDir fs sessionDirPath w =
     (if sw_sessionDirWatchers (sessionWatcher w) sessionDirPath \<noteq> None then w
      else (case openWatch fs sessionDirPath w of
              (None, w1) \<Rightarrow> w1
            | (Some h, w1) \<Rightarrow>
                w1\<lparr>sessionWatcher := (sessionWatcher w1)
                     \<lparr>sw_sessionDirWatchers :=
                        (sw_sessionDirWatchers (sessionWatcher w1))(sessionDirPath \<mapsto> h)\<rparr>\<rparr>))"

text \<open>The callback that \<^verbatim>\<open>watchSessionDir\<close> registers, run on one notification.\<close>

definition sessionDirNotified :: "path \<Rightarrow> string \<Rightarrow> world \<Rightarrow> world" where
  "sessionDirNotified sessionDirPath filename w =
     (if filename = ''events.jsonl''
      then w\<lparr>sessionWatcher := (sessionWatcher w)
               \<lparr>sw_dirtyPaths := insert (sessionDirPath @ [''events.jsonl''])
                                    (sw_dirtyPaths (sessionWatcher w))\<rparr>\<rparr>
      else w)"

text \<open>
  Launching \<^verbatim>\<open>getSessionDirs()\<close> without awaiting it: the \<^verbatim>\<open>readdir\<close> is issued at once, and the
  task is pending.
\<close>

definition launchDiscovery :: "runtime \<Rightarrow> filesys \<Rightarrow> (dirent list option \<Rightarrow> task) \<Rightarrow> world \<Rightarrow> world" where
  "launchDiscovery rt fs kind w =
     (let w1 = logOp (Readdir (COPILOT_CLI_SESSION_STATE_PATH rt)) w in
      w1\<lparr>pending := pending w1 @ [kind (fs_readdir fs (COPILOT_CLI_SESSION_STATE_PATH rt))]\<rparr>)"

text \<open>
  \<^verbatim>\<open>startSessionWatcher\<close>. The discovery it launches
  (\<^verbatim>\<open>void getSessionDirs().then(...)\<close>) has issued its \<^verbatim>\<open>readdir\<close> when the function returns;
  the rest of it is \<open>sessionDiscoverySettled\<close> below. The timer's callback is
  \<open>reconciliationTimerFired\<close>.
\<close>

definition startSessionWatcher :: "runtime \<Rightarrow> filesys \<Rightarrow> world \<Rightarrow> world" where
  "startSessionWatcher rt fs w =
     (if sw_started (sessionWatcher w) then w
      else (let w1 = w\<lparr>sessionWatcher := (sessionWatcher w)\<lparr>sw_started := True\<rparr>\<rparr>;
                (h, w2) = openWatch fs (COPILOT_CLI_SESSION_STATE_PATH rt) w1;
                w3 = (case h of
                        None \<Rightarrow> w2
                      | Some r \<Rightarrow> w2\<lparr>sessionWatcher := (sessionWatcher w2)\<lparr>sw_rootWatcher := Some r\<rparr>\<rparr>);
                w4 = launchDiscovery rt fs SessionDiscovery w3
            in w4\<lparr>sessionWatcher := (sessionWatcher w4)\<lparr>sw_reconciliationTimer := True\<rparr>\<rparr>))"

definition sessionDiscoverySettled :: "runtime \<Rightarrow> filesys \<Rightarrow> dirent list option \<Rightarrow> world \<Rightarrow> world" where
  "sessionDiscoverySettled rt fs listing w =
     (let (dirs, w1) = sessionDirsOf rt fs listing w in fold (watchSessionDir fs) dirs w1)"

definition reconciliationTimerFired :: "world \<Rightarrow> world" where
  "reconciliationTimerFired w = w\<lparr>forceFullReconciliation := True\<rparr>"

definition stopSessionWatcher :: "world \<Rightarrow> world" where
  "stopSessionWatcher w =
     (let w1 = (if sw_reconciliationTimer (sessionWatcher w)
                then w\<lparr>sessionWatcher := (sessionWatcher w)\<lparr>sw_reconciliationTimer := False\<rparr>\<rparr>
                else w);
          w2 = closeWatchers (ran (sw_sessionDirWatchers (sessionWatcher w1))) w1;
          w3 = w2\<lparr>sessionWatcher := (sessionWatcher w2)\<lparr>sw_sessionDirWatchers := Map.empty\<rparr>\<rparr>;
          w4 = (case sw_rootWatcher (sessionWatcher w3) of
                  None \<Rightarrow> w3
                | Some r \<Rightarrow> (closeWatchers {r} w3)
                             \<lparr>sessionWatcher := (sessionWatcher w3)\<lparr>sw_rootWatcher := None\<rparr>\<rparr>)
      in w4\<lparr>sessionWatcher := (sessionWatcher w4)\<lparr>sw_dirtyPaths := {}, sw_started := False\<rparr>\<rparr>)"

definition consumeForceFullReconciliation :: "world \<Rightarrow> bool \<times> world" where
  "consumeForceFullReconciliation w =
     (let v = forceFullReconciliation w in
      (v, if forceFullReconciliation w then w\<lparr>forceFullReconciliation := False\<rparr> else w))"

subsection \<open>The live-activity watcher\<close>

definition primeSessionOffset :: "filesys \<Rightarrow> path \<Rightarrow> world \<Rightarrow> world" where
  "primeSessionOffset fs sessionDirPath w =
     (let eventsPath = sessionDirPath @ [''events.jsonl''];
          w1 = logOp (Stat eventsPath) w
      in case fs_stat fs eventsPath of
           None \<Rightarrow> w1
         | Some stat \<Rightarrow>
             w1\<lparr>activityWatcher := (activityWatcher w1)
                  \<lparr>aw_fileOffsets := (aw_fileOffsets (activityWatcher w1))(eventsPath \<mapsto> st_size stat)\<rparr>\<rparr>)"

text \<open>
  The token figures of one assistant message in \<^verbatim>\<open>processEventsDelta\<close> (lines 145 to 166).
\<close>

definition deltaTokens :: "runtime \<Rightarrow> jsval \<Rightarrow> error + tokens" where
  "deltaTokens rt data =
     (let usage = getProp data ''usage'';
          (inputTokens, outputTokens) =
             (if hasVendorUsage usage
              then (definedVal (getProp usage ''prompt_tokens''),
                    nullish (getProp usage ''completion_tokens'') (JNum 0))
              else (let out = estimateTokens (strOf (getProp data ''content'')) in
                    (JNum (estimatedInput out), JNum out)))
      in case whenPositive rt (getProp usage ''cache_read_input_tokens'') of
           Inl e \<Rightarrow> Inl e
         | Inr cacheRead \<Rightarrow>
             (case whenPositive rt (getProp usage ''cache_creation_input_tokens'') of
                Inl e \<Rightarrow> Inl e
              | Inr cacheWrite \<Rightarrow>
                  Inr \<lparr>t_input = inputTokens,
                       t_output = outputTokens,
                       t_cacheRead = cacheRead,
                       t_cacheWrite = cacheWrite\<rparr>))"

text \<open>
  The loop over the lines of the chunk; the result lists the updates handed to the
  callback, in order, and tells what ended the loop early, if anything did: a message whose
  figures or time stamp raise ends it, after the updates of the lines before have been
  handed over. \<open>now\<close> is the reading of the clock (\<^verbatim>\<open>Date.now()\<close>), taken as one value for
  the whole call.
\<close>

fun deltaLines ::
  "runtime \<Rightarrow> real \<Rightarrow> string \<Rightarrow> string list \<Rightarrow> activity_update list \<times> error option" where
  "deltaLines rt now sid [] = ([], None)"
| "deltaLines rt now sid (line # ls) =
     (let trimmed = trim line in
      if trimmed = [] then deltaLines rt now sid ls
      else (case jsonParse rt trimmed of
              None \<Rightarrow> deltaLines rt now sid ls
            | Some event \<Rightarrow>
                if \<not> isAssistantMessage (Some event) then deltaLines rt now sid ls
                else (case deltaTokens rt (getProp (Some event) ''data'') of
                        Inl e \<Rightarrow> ([], Some e)
                      | Inr toks \<Rightarrow>
                          (case toTimestamp rt (getProp (Some event) ''timestamp'') now of
                             Inl e \<Rightarrow> ([], Some e)
                           | Inr ts \<Rightarrow>
                               (let (updates, raised) = deltaLines rt now sid ls in
                                (\<lparr>au_sessionId = sid,
                                   au_messageId = messageIdOf event,
                                   au_tokens = toks,
                                   au_timestamp = ts\<rparr> # updates, raised))))))"

text \<open>
  \<^verbatim>\<open>Buffer.alloc(length)\<close> is zero-filled and \<^verbatim>\<open>handle.read\<close> fills it with the bytes the
  file has from \<open>position\<close> on, at most \<open>length\<close> of them.
\<close>

definition readAt :: "nat \<Rightarrow> nat \<Rightarrow> string \<Rightarrow> string" where
  "readAt len position bytes =
     (let got = take len (drop position bytes) in got @ replicate (len - length got) (CHR 0x00))"

definition setFileOffset :: "path \<Rightarrow> nat option \<Rightarrow> world \<Rightarrow> world" where
  "setFileOffset p v w =
     w\<lparr>activityWatcher := (activityWatcher w)
         \<lparr>aw_fileOffsets := (aw_fileOffsets (activityWatcher w))(p := v)\<rparr>\<rparr>"

text \<open>
  \<^verbatim>\<open>processEventsDelta\<close>: the state it leaves, and what its promise is rejected with, if it
  is. The registered callback is taken not to raise.
\<close>

definition processEventsDelta ::
  "runtime \<Rightarrow> filesys \<Rightarrow> real \<Rightarrow> path \<Rightarrow> path \<Rightarrow> world \<Rightarrow> error option \<times> world" where
  "processEventsDelta rt fs now filePath sessionDirPath w =
     (case aw_callback (activityWatcher w) of
        None \<Rightarrow> (None, w)
      | Some callback \<Rightarrow>
          (let w1 = logOp (Stat filePath) w in
           case fs_stat fs filePath of
             None \<Rightarrow> (None, setFileOffset filePath None w1)
           | Some stat \<Rightarrow>
               (let knownOffset = (case aw_fileOffsets (activityWatcher w1) filePath of
                                     None \<Rightarrow> 0 | Some k \<Rightarrow> k);
                    startOffset = (if st_size stat < knownOffset then 0 else knownOffset)
                in if st_size stat = startOffset then (None, w1)
                   else (let len = st_size stat - startOffset;
                             w2 = logOp (ReadAt filePath startOffset len) w1
                         in case fs_content fs filePath of
                              None \<Rightarrow> (None, w2)
                            | Some bytes \<Rightarrow>
                                (let chunk = utf8Decode rt (readAt len startOffset bytes);
                                     w3 = setFileOffset filePath (Some (st_size stat)) w2;
                                     (workspace, w4) =
                                        readWorkspaceYaml rt fs (sessionDirPath @ [''workspace.yaml'']) w3;
                                     sid = (case workspace of
                                              Some ws \<Rightarrow> ws_id ws
                                            | None \<Rightarrow> basename sessionDirPath);
                                     (updates, raised) = deltaLines rt now sid (splitLines chunk)
                                 in (raised,
                                     w4\<lparr>delivered := delivered w4 @ map (Pair callback) updates\<rparr>))))))"

definition watchSessionDirForActivity :: "filesys \<Rightarrow> path \<Rightarrow> world \<Rightarrow> world" where
  "watchSessionDirForActivity fs sessionDirPath w =
     (if aw_sessionDirWatchers (activityWatcher w) sessionDirPath \<noteq> None then w
      else (case openWatch fs sessionDirPath w of
              (None, w1) \<Rightarrow> w1
            | (Some h, w1) \<Rightarrow>
                w1\<lparr>activityWatcher := (activityWatcher w1)
                     \<lparr>aw_sessionDirWatchers :=
                        (aw_sessionDirWatchers (activityWatcher w1))(sessionDirPath \<mapsto> h)\<rparr>\<rparr>))"

text \<open>
  The callback that \<^verbatim>\<open>watchSessionDirForActivity\<close> registers, run on one notification; it
  drops the promise of \<^verbatim>\<open>processEventsDelta\<close>, rejected or not.
\<close>

definition activityDirNotified ::
  "runtime \<Rightarrow> filesys \<Rightarrow> real \<Rightarrow> path \<Rightarrow> string \<Rightarrow> world \<Rightarrow> world" where
  "activityDirNotified rt fs now sessionDirPath filename w =
     (if filename \<noteq> ''events.jsonl'' then w
      else snd (processEventsDelta rt fs now (sessionDirPath @ [''events.jsonl'']) sessionDirPath w))"

text \<open>
  \<^verbatim>\<open>startActivityWatch\<close>; as in \<^verbatim>\<open>startSessionWatcher\<close>, the discovery it launches has issued
  its \<^verbatim>\<open>readdir\<close> when it returns, and the rest of it is \<open>activityDiscoverySettled\<close>.
\<close>

definition startActivityWatch :: "runtime \<Rightarrow> filesys \<Rightarrow> nat \<Rightarrow> world \<Rightarrow> world" where
  "startActivityWatch rt fs callback w =
     (let w0 = w\<lparr>activityWatcher := (activityWatcher w)\<lparr>aw_callback := Some callback\<rparr>\<rparr> in
      if aw_started (activityWatcher w0) then w0
      else (let w1 = w0\<lparr>activityWatcher := (activityWatcher w0)\<lparr>aw_started := True\<rparr>\<rparr>;
                (h, w2) = openWatch fs (COPILOT_CLI_SESSION_STATE_PATH rt) w1;
                w3 = (case h of
                        None \<Rightarrow> w2
                      | Some r \<Rightarrow> w2\<lparr>activityWatcher := (activityWatcher w2)\<lparr>aw_rootWatcher := Some r\<rparr>\<rparr>)
            in launchDiscovery rt fs ActivityDiscovery w3))"

definition activityDiscoverySettled :: "runtime \<Rightarrow> filesys \<Rightarrow> dirent list option \<Rightarrow> world \<Rightarrow> world" where
  "activityDiscoverySettled rt fs listing w =
     (let (dirs, w1) = sessionDirsOf rt fs listing w in
      fold (\<lambda>dirPath v. primeSessionOffset fs dirPath (watchSessionDirForActivity fs dirPath v)) dirs w1)"

text \<open>
  A later turn of the event loop: the oldest pending task runs to its end. (The steps of a
  task are taken in one piece, as are those of every awaiting function of this model.)
\<close>

definition runTask :: "runtime \<Rightarrow> filesys \<Rightarrow> task \<Rightarrow> world \<Rightarrow> world" where
  "runTask rt fs t w =
     (case t of
        SessionDiscovery listing \<Rightarrow> sessionDiscoverySettled rt fs listing w
      | ActivityDiscovery listing \<Rightarrow> activityDiscoverySettled rt fs listing w)"

definition runPending :: "runtime \<Rightarrow> filesys \<Rightarrow> world \<Rightarrow> world" where
  "runPending rt fs w =
     (case pending w of
        [] \<Rightarrow> w
      | t # rest \<Rightarrow> runTask rt fs t (w\<lparr>pending := rest\<rparr>))"

definition stopActivityWatch :: "world \<Rightarrow> world" where
  "stopActivityWatch w =
     (let w1 = closeWatchers (ran (aw_sessionDirWatchers (activityWatcher w))) w;
          w2 = w1\<lparr>activityWatcher := (activityWatcher w1)\<lparr>aw_sessionDirWatchers := Map.empty\<rparr>\<rparr>;
          w3 = (case aw_rootWatcher (activityWatcher w2) of
                  None \<Rightarrow> w2
                | Some r \<Rightarrow> (closeWatchers {r} w2)
                             \<lparr>activityWatcher := (activityWatcher w2)\<lparr>aw_rootWatcher := None\<rparr>\<rparr>);
          w4 = w3\<lparr>activityWatcher := (activityWatcher w3)
                    \<lparr>aw_fileOffsets := Map.empty, aw_callback := None, aw_started := False\<rparr>\<rparr>
      in stopSessionWatcher w4)"

section \<open>The default model: \<^verbatim>\<open>extractModelFromProcessLog\<close> and \<^verbatim>\<open>getDefaultModel\<close>\<close>

definition modelMarker :: string where
  "modelMarker = ''[INFO] Using default model: ''"

text \<open>In a regular expression \<^verbatim>\<open>.\<close> matches any character but a line terminator.\<close>

definition isLineTerminator :: "char \<Rightarrow> bool" where
  "isLineTerminator c = (c = CHR 0x0A \<or> c = CHR 0x0D)"

text \<open>
  \<^verbatim>\<open>content.matchAll(/\[INFO\] Using default model: (.+)/g)\<close>, as the list of the captured
  groups: a match starts at the first position where the marker stands with at least one
  character of the line after it, the group runs to the end of that line, and the search
  goes on after the match.
\<close>

function matchAllModels :: "string \<Rightarrow> string list" where
  "matchAllModels [] = []"
| "matchAllModels (c # cs) =
     (if take (length modelMarker) (c # cs) = modelMarker
         \<and> takeWhile (\<lambda>x. \<not> isLineTerminator x) (drop (length modelMarker) (c # cs)) \<noteq> []
      then takeWhile (\<lambda>x. \<not> isLineTerminator x) (drop (length modelMarker) (c # cs))
           # matchAllModels (dropWhile (\<lambda>x. \<not> isLineTerminator x) (drop (length modelMarker) (c # cs)))
      else matchAllModels cs)"
  by pat_completeness auto
termination
proof (relation "measure length")
  show "wf (measure length)" by simp
next
  fix c :: char and cs :: string
  assume "take (length modelMarker) (c # cs) = modelMarker
            \<and> takeWhile (\<lambda>x. \<not> isLineTerminator x) (drop (length modelMarker) (c # cs)) \<noteq> []"
  have "length (dropWhile (\<lambda>x. \<not> isLineTerminator x) (drop (length modelMarker) (c # cs)))
          \<le> length (drop (length modelMarker) (c # cs))"
    by (rule length_dropWhile_le)
  also have "\<dots> < length (c # cs)"
    by (simp add: modelMarker_def)
  finally show "(dropWhile (\<lambda>x. \<not> isLineTerminator x) (drop (length modelMarker) (c # cs)), c # cs)
                  \<in> measure length"
    by simp
next
  fix c :: char and cs :: string
  show "(cs, c # cs) \<in> measure length" by simp
qed

text \<open>The loop over the matches: the last group that is not empty once trimmed.\<close>

fun lastModel :: "string list \<Rightarrow> string option \<Rightarrow> string option" where
  "lastModel [] acc = acc"
| "lastModel (g # gs) acc =
     (let model = trim g in if model \<noteq> [] then lastModel gs (Some model) else lastModel gs acc)"

definition extractModelFromProcessLog ::
  "runtime \<Rightarrow> filesys \<Rightarrow> path \<Rightarrow> world \<Rightarrow> string option \<times> world" where
  "extractModelFromProcessLog rt fs logPath w =
     (case fs_content fs logPath of
        None \<Rightarrow> (None, logOp (ReadFile logPath) w)
      | Some bytes \<Rightarrow> (lastModel (matchAllModels (utf8Decode rt bytes)) None, logOp (ReadFile logPath) w))"

definition startsWith :: "string \<Rightarrow> string \<Rightarrow> bool" where
  "startsWith s p = (take (length p) s = p)"

definition endsWith :: "string \<Rightarrow> string \<Rightarrow> bool" where
  "endsWith s p = (length p \<le> length s \<and> drop (length s - length p) s = p)"

record log_file =
  lf_name :: string
  lf_mtimeMs :: real

fun statLogFiles :: "runtime \<Rightarrow> filesys \<Rightarrow> dirent list \<Rightarrow> world \<Rightarrow> log_file list \<times> world" where
  "statLogFiles rt fs [] w = ([], w)"
| "statLogFiles rt fs (entry # es) w =
     (if d_kind entry \<noteq> IsFile \<or> \<not> startsWith (d_name entry) ''process-''
         \<or> \<not> endsWith (d_name entry) ''.log''
      then statLogFiles rt fs es w
      else (let p = COPILOT_CLI_LOGS_PATH rt @ [d_name entry];
                w1 = logOp (Stat p) w
            in case fs_stat fs p of
                 None \<Rightarrow> statLogFiles rt fs es w1
               | Some stat \<Rightarrow>
                   (let (files, w2) = statLogFiles rt fs es w1 in
                    (\<lparr>lf_name = d_name entry, lf_mtimeMs = st_mtimeMs stat\<rparr> # files, w2))))"

definition MODEL_CACHE_TTL_MS :: real where
  "MODEL_CACHE_TTL_MS = 60000"

text \<open>\<^verbatim>\<open>return cachedModel ?? 'unknown'\<close>, the last line of \<^verbatim>\<open>getDefaultModel\<close>.\<close>

definition modelFallback :: "world \<Rightarrow> string \<times> world" where
  "modelFallback w = (case cachedModel w of Some m \<Rightarrow> (m, w) | None \<Rightarrow> (''unknown'', w))"

text \<open>The cached model, where the first test of \<^verbatim>\<open>getDefaultModel\<close> lets it stand.\<close>

definition freshCachedModel :: "real \<Rightarrow> world \<Rightarrow> string option" where
  "freshCachedModel now w =
     (case cachedModel w of
        Some m \<Rightarrow> if m \<noteq> [] \<and> now - modelCacheTime w < MODEL_CACHE_TTL_MS then Some m else None
      | None \<Rightarrow> None)"

definition getDefaultModel :: "runtime \<Rightarrow> filesys \<Rightarrow> real \<Rightarrow> world \<Rightarrow> string \<times> world" where
  "getDefaultModel rt fs now w =
     (case freshCachedModel now w of
        Some m \<Rightarrow> (m, w)
      | None \<Rightarrow>
          (let w1 = logOp (Readdir (COPILOT_CLI_LOGS_PATH rt)) w in
           case fs_readdir fs (COPILOT_CLI_LOGS_PATH rt) of
             None \<Rightarrow> modelFallback w1
           | Some entries \<Rightarrow>
               (let (logFiles, w2) = statLogFiles rt fs entries w1 in
                case sort_key (\<lambda>f. - lf_mtimeMs f) logFiles of
                  [] \<Rightarrow> modelFallback w2
                | latest # _ \<Rightarrow>
                    (let (model, w3) =
                           extractModelFromProcessLog rt fs (COPILOT_CLI_LOGS_PATH rt @ [lf_name latest]) w2
                     in case model of
                          None \<Rightarrow> modelFallback w3
                        | Some m \<Rightarrow>
                            if m \<noteq> [] then (m, w3\<lparr>cachedModel := Some m, modelCacheTime := now\<rparr>)
                            else modelFallback w3))))"

section \<open>\<^verbatim>\<open>parser.ts\<close>: the reconciliation, \<^verbatim>\<open>parseSessionsFromDirs\<close>\<close>

text \<open>
  \<^verbatim>\<open>cache.ts\<close> is not among the sources at hand. Its maps and the result cache are fields of
  the world; its constant and its eviction are parameters: \<open>CACHE_TTL_MS\<close>, and
  \<open>evictSessionAggregateCache\<close> as a function on the aggregate cache, the one variable the
  eviction is about.
\<close>

record cache_module =
  CACHE_TTL_MS :: real
  evictSessionAggregateCache :: "(string \<rightharpoonup> agg_entry) \<Rightarrow> (string \<rightharpoonup> agg_entry)"

record options =
  opt_limit :: "real option"
  opt_since :: "real option"
  opt_sessionId :: "string option"

text \<open>The three readings of \<^verbatim>\<open>Date.now()\<close> of one call, in the order they are taken.\<close>

record clock =
  c_now :: real
  c_modelNow :: real
  c_endNow :: real

record parsed_session_dir =
  psd_sessionId :: string
  psd_dirPath :: path
  psd_mtimeMs :: real

text \<open>\<^verbatim>\<open>options.sessionId\<close> where it is truthy.\<close>

definition sessionFilter :: "options \<Rightarrow> string option" where
  "sessionFilter options =
     (case opt_sessionId options of None \<Rightarrow> None | Some s \<Rightarrow> if s = [] then None else Some s)"

text \<open>\<^verbatim>\<open>options.sessionId && sid !== options.sessionId\<close>\<close>

definition otherSession :: "options \<Rightarrow> string \<Rightarrow> bool" where
  "otherSession options sid = (case sessionFilter options of None \<Rightarrow> False | Some want \<Rightarrow> sid \<noteq> want)"

text \<open>\<^verbatim>\<open>!since || mtimeMs >= since\<close>\<close>

definition sinceAdmits :: "real option \<Rightarrow> real \<Rightarrow> bool" where
  "sinceAdmits since mtimeMs = (case since of None \<Rightarrow> True | Some s \<Rightarrow> s = 0 \<or> s \<le> mtimeMs)"

definition pushSession :: "options \<Rightarrow> string \<Rightarrow> path \<Rightarrow> real \<Rightarrow> parsed_session_dir list \<Rightarrow> parsed_session_dir list" where
  "pushSession options sid dirPath mtimeMs sessionDirs =
     (if sinceAdmits (opt_since options) mtimeMs
      then sessionDirs @ [\<lparr>psd_sessionId = sid, psd_dirPath = dirPath, psd_mtimeMs = mtimeMs\<rparr>]
      else sessionDirs)"

text \<open>Lines 313 to 344: the directory has to be looked at.\<close>

definition statSessionDir ::
  "filesys \<Rightarrow> options \<Rightarrow> path \<Rightarrow> path \<Rightarrow> metadata option \<Rightarrow> world \<Rightarrow> parsed_session_dir list
     \<Rightarrow> world \<times> parsed_session_dir list" where
  "statSessionDir fs options sessionDirPath eventsPath md w sessionDirs =
     (let w1 = logOp (Stat eventsPath) w in
      case fs_stat fs eventsPath of
        None \<Rightarrow> (w1\<lparr>sessionMetadataIndex := (sessionMetadataIndex w1)(eventsPath := None)\<rparr>, sessionDirs)
      | Some stat \<Rightarrow>
          (let mtimeMs = st_mtimeMs stat in
           case (case md of
                   Some m \<Rightarrow> if md_mtimeMs m = mtimeMs then Some m else None
                 | None \<Rightarrow> None) of
             Some m \<Rightarrow>
               if otherSession options (md_sessionId m) then (w1, sessionDirs)
               else (w1, pushSession options (md_sessionId m) sessionDirPath (md_mtimeMs m) sessionDirs)
           | None \<Rightarrow>
               (let sid = basename sessionDirPath;
                    w2 = w1\<lparr>sessionMetadataIndex :=
                              (sessionMetadataIndex w1)(eventsPath \<mapsto> \<lparr>md_mtimeMs = mtimeMs, md_sessionId = sid\<rparr>)\<rparr>
                in if otherSession options sid then (w2, sessionDirs)
                   else (w2, pushSession options sid sessionDirPath mtimeMs sessionDirs))))"

text \<open>The body of the loop over the discovered directories (lines 287 to 345).\<close>

definition reconcileDir ::
  "filesys \<Rightarrow> options \<Rightarrow> bool \<Rightarrow> path set \<Rightarrow> path
     \<Rightarrow> world \<times> parsed_session_dir list \<times> path set \<Rightarrow> world \<times> parsed_session_dir list \<times> path set" where
  "reconcileDir fs options needsFullStat dirtyPaths sessionDirPath acc =
     (case acc of (w, sessionDirs, seenDirPaths) \<Rightarrow>
        (let w1 = watchSessionDir fs sessionDirPath w;
             eventsPath = sessionDirPath @ [''events.jsonl''];
             seen = insert eventsPath seenDirPaths;
             isDirty = (eventsPath \<in> dirtyPaths);
             md = sessionMetadataIndex w1 eventsPath
         in if (case md of Some m \<Rightarrow> otherSession options (md_sessionId m) | None \<Rightarrow> False)
            then (w1, sessionDirs, seen)
            else (case (if \<not> isDirty \<and> \<not> needsFullStat then md else None) of
                    Some m \<Rightarrow>
                      (w1, pushSession options (md_sessionId m) sessionDirPath (md_mtimeMs m) sessionDirs, seen)
                  | None \<Rightarrow>
                      (case statSessionDir fs options sessionDirPath eventsPath md w1 sessionDirs of
                         (w2, sessionDirs2) \<Rightarrow> (w2, sessionDirs2, seen)))))"

text \<open>
  The body of the loop over the selected sessions (lines 360 to 380): the state and the
  rows so far, or what \<^verbatim>\<open>parseSessionDirRows\<close> raised, which nothing catches.
\<close>

definition aggregateStep ::
  "runtime \<Rightarrow> filesys \<Rightarrow> real \<Rightarrow> string \<Rightarrow> parsed_session_dir
     \<Rightarrow> world \<times> usage_row list \<Rightarrow> world \<times> (error + usage_row list)" where
  "aggregateStep rt fs now defaultModel dir acc =
     (case acc of (w, sessions) \<Rightarrow>
        (case (case sessionAggregateCache w (psd_sessionId dir) of
                 Some cached \<Rightarrow> if updatedAt cached = psd_mtimeMs dir then Some cached else None
               | None \<Rightarrow> None) of
           Some cached \<Rightarrow>
             (w\<lparr>sessionAggregateCache :=
                  (sessionAggregateCache w)(psd_sessionId dir \<mapsto> cached\<lparr>lastAccessed := now\<rparr>)\<rparr>,
              Inr (sessions @ usageRows cached))
         | None \<Rightarrow>
             (case parseSessionDirRows rt fs (psd_dirPath dir) (psd_mtimeMs dir) defaultModel w of
                (Inl e, w1) \<Rightarrow> (w1, Inl e)
              | (Inr rows, w1) \<Rightarrow>
                  (w1\<lparr>sessionAggregateCache :=
                        (sessionAggregateCache w1)
                          (psd_sessionId dir \<mapsto>
                             \<lparr>updatedAt = psd_mtimeMs dir, usageRows = rows, lastAccessed = now\<rparr>)\<rparr>,
                   Inr (sessions @ rows)))))"

text \<open>The loop itself, which ends where a session raises.\<close>

fun aggregateLoop ::
  "runtime \<Rightarrow> filesys \<Rightarrow> real \<Rightarrow> string \<Rightarrow> parsed_session_dir list
     \<Rightarrow> world \<times> usage_row list \<Rightarrow> world \<times> (error + usage_row list)" where
  "aggregateLoop rt fs now defaultModel [] acc = (fst acc, Inr (snd acc))"
| "aggregateLoop rt fs now defaultModel (dir # dirs) acc =
     (case aggregateStep rt fs now defaultModel dir acc of
        (w1, Inl e) \<Rightarrow> (w1, Inl e)
      | (w1, Inr sessions) \<Rightarrow> aggregateLoop rt fs now defaultModel dirs (w1, sessions))"

text \<open>
  Lines 269 to 404: the incremental reconciliation. Where a session raises, the promise is
  rejected then and there: nothing is evicted and the result cache is not written.
\<close>

definition reconcile ::
  "runtime \<Rightarrow> cache_module \<Rightarrow> filesys \<Rightarrow> clock \<Rightarrow> options \<Rightarrow> real \<Rightarrow> world
     \<Rightarrow> (error + usage_row list) \<times> world" where
  "reconcile rt cm fs clk options limit w =
     (let dirtyPaths = sw_dirtyPaths (sessionWatcher w);
          w1 = w\<lparr>sessionWatcher := (sessionWatcher w)\<lparr>sw_dirtyPaths := {}\<rparr>\<rparr>;
          (needsFullStat, w2) = consumeForceFullReconciliation w1;
          (discoveredDirs, w3) = getSessionDirs rt fs w2;
          (defaultModel, w4) = getDefaultModel rt fs (c_modelNow clk) w3;
          (w5, sessionDirs, seenDirPaths) =
             fold (reconcileDir fs options needsFullStat dirtyPaths) discoveredDirs (w4, [], {});
          w6 = w5\<lparr>sessionMetadataIndex := sessionMetadataIndex w5 |` seenDirPaths\<rparr>;
          sorted = sort_key (\<lambda>d. - psd_mtimeMs d) sessionDirs;
          (w7, outcome) = aggregateLoop rt fs (c_now clk) defaultModel sorted (w6, [])
      in case outcome of
           Inl e \<Rightarrow> (Inl e, w7)
         | Inr sessions \<Rightarrow>
             (let w8 = w7\<lparr>sessionAggregateCache :=
                            evictSessionAggregateCache cm (sessionAggregateCache w7)\<rparr>;
                  w9 = (if sessionFilter options = None
                        then w8\<lparr>sessionCache := (sessionCache w8)
                                  \<lparr>lastCheck := c_endNow clk, lastResult := sessions,
                                   lastLimit := limit, lastSince := opt_since options\<rparr>\<rparr>
                        else w8)
              in (Inr sessions, w9)))"

text \<open>The condition of the fast path (lines 258 to 264).\<close>

definition resultCacheValid :: "cache_module \<Rightarrow> real \<Rightarrow> options \<Rightarrow> real \<Rightarrow> world \<Rightarrow> bool" where
  "resultCacheValid cm now options limit w =
     (sessionFilter options = None
      \<and> limit = lastLimit (sessionCache w)
      \<and> now - lastCheck (sessionCache w) < CACHE_TTL_MS cm
      \<and> 0 < length (lastResult (sessionCache w))
      \<and> lastSince (sessionCache w) = opt_since options)"

text \<open>
  \<^verbatim>\<open>parseSessionsFromDirs\<close>. Its steps are taken in one piece: a discovery that
  \<^verbatim>\<open>startSessionWatcher\<close> has launched is still pending when it returns.
\<close>

definition parseSessionsFromDirs ::
  "runtime \<Rightarrow> cache_module \<Rightarrow> filesys \<Rightarrow> clock \<Rightarrow> options \<Rightarrow> world
     \<Rightarrow> (error + usage_row list) \<times> world" where
  "parseSessionsFromDirs rt cm fs clk options w =
     (let limit = (case opt_limit options of None \<Rightarrow> 100 | Some l \<Rightarrow> l);
          w0 = logOp (Access (COPILOT_CLI_SESSION_STATE_PATH rt)) w
      in if \<not> fs_access fs (COPILOT_CLI_SESSION_STATE_PATH rt) then (Inr [], w0)
         else (let w1 = startSessionWatcher rt fs w0 in
               if resultCacheValid cm (c_now clk) options limit w1
               then (Inr (lastResult (sessionCache w1)), w1)
               else reconcile rt cm fs clk options limit w1))"

section \<open>When the parser raises, and what it computes when it does not\<close>

text \<open>
  The conversions that can raise are those of a time stamp (\<^verbatim>\<open>toTimestamp\<close>) and of a cache
  count (\<^verbatim>\<open>v && v > 0\<close>); a value that cannot be converted is an object or an array, so it is
  truthy and the conversion is reached.
\<close>

definition countRaises :: "jsval \<Rightarrow> bool" where
  "countRaises v = (case v of Some j \<Rightarrow> unconvertible j | None \<Rightarrow> False)"

definition timestampRaises :: "json \<Rightarrow> bool" where
  "timestampRaises event = countRaises (getProp (Some event) ''timestamp'')"

text \<open>The parser looks at the cache counts of a message only under the vendor's usage.\<close>

definition rowRaises :: "json \<Rightarrow> bool" where
  "rowRaises event =
     (let usage = getProp (getProp (Some event) ''data'') ''usage'' in
      (hasVendorUsage usage
       \<and> (countRaises (getProp usage ''cache_read_input_tokens'')
            \<or> countRaises (getProp usage ''cache_creation_input_tokens'')))
      \<or> timestampRaises event)"


definition logRaises :: "json list \<Rightarrow> bool" where
  "logRaises events =
     (list_ex (\<lambda>e. isModelChange (Some e) \<and> timestampRaises e) events
      \<or> list_ex (\<lambda>e. isAssistantMessage (Some e) \<and> rowRaises e) events)"

text \<open>
  The values of the functions above for arguments on which nothing raises; the proofs
  below show that each function of the source either raises or returns this value.
\<close>

fun gtZeroValue :: "runtime \<Rightarrow> jsval \<Rightarrow> bool" where
  "gtZeroValue rt (Some (JNum n)) = (0 < n)"
| "gtZeroValue rt (Some v) = coercedGtZero rt v"
| "gtZeroValue rt None = False"

definition toTimestampValue :: "runtime \<Rightarrow> jsval \<Rightarrow> real \<Rightarrow> real" where
  "toTimestampValue rt v fallback =
     (case v of
        None \<Rightarrow> fallback
      | Some j \<Rightarrow>
          if \<not> truthy (Some j) then fallback
          else (case dateParse rt j of None \<Rightarrow> fallback | Some parsed \<Rightarrow> parsed))"

fun collectModelChangesValue :: "runtime \<Rightarrow> json list \<Rightarrow> model_change list" where
  "collectModelChangesValue rt [] = []"
| "collectModelChangesValue rt (event # es) =
     (if isModelChange (Some event)
      then \<lparr>mc_timestamp = toTimestampValue rt (getProp (Some event) ''timestamp'') 0,
            mc_model = strOf (getProp (getProp (Some event) ''data'') ''newModel'')\<rparr>
           # collectModelChangesValue rt es
      else collectModelChangesValue rt es)"

definition modelTimelineValue :: "runtime \<Rightarrow> json list \<Rightarrow> model_change list" where
  "modelTimelineValue rt events = sort_key mc_timestamp (collectModelChangesValue rt events)"

definition whenPositiveValue :: "runtime \<Rightarrow> jsval \<Rightarrow> jsval" where
  "whenPositiveValue rt v = (if truthy v \<and> gtZeroValue rt v then v else None)"

definition rowTokensValue :: "runtime \<Rightarrow> jsval \<Rightarrow> tokens \<times> bool" where
  "rowTokensValue rt data =
     (let usage = getProp data ''usage'' in
      if hasVendorUsage usage
      then (let cacheRead = whenPositiveValue rt (getProp usage ''cache_read_input_tokens'');
                cacheWrite = whenPositiveValue rt (getProp usage ''cache_creation_input_tokens'')
            in (\<lparr>t_input = definedVal (getProp usage ''prompt_tokens''),
                 t_output = nullish (getProp usage ''completion_tokens'') (JNum 0),
                 t_cacheRead = (if truthy cacheRead then cacheRead else None),
                 t_cacheWrite = (if truthy cacheWrite then cacheWrite else None)\<rparr>, False))
      else (let outputTokens = estimateTokens (strOf (getProp data ''content'')) in
            (\<lparr>t_input = JNum (estimatedInput outputTokens),
              t_output = JNum outputTokens,
              t_cacheRead = None,
              t_cacheWrite = None\<rparr>, True)))"

definition messageRowValue :: "runtime \<Rightarrow> session_info \<Rightarrow> json \<Rightarrow> usage_row" where
  "messageRowValue rt si event =
     (let data = getProp (Some event) ''data'';
          (toks, estimated) = rowTokensValue rt data;
          ts = toTimestampValue rt (getProp (Some event) ''timestamp'') (si_mtimeMs si)
      in \<lparr>sessionId = si_sessionId si,
          providerId = ''github-copilot'',
          modelId = nullish (getProp data ''model'')
                      (JStr (resolveModelAtTime ts (si_defaultModel si) (si_modelChanges si))),
          row_tokens = toks,
          timestamp = ts,
          sessionUpdatedAt = si_mtimeMs si,
          isEstimated = estimated,
          sessionName = si_sessionName si,
          projectPath = si_projectPath si\<rparr>)"

fun dedupLoopValue :: "runtime \<Rightarrow> session_info \<Rightarrow> json list \<Rightarrow> (string \<times> usage_row) list \<Rightarrow> (string \<times> usage_row) list" where
  "dedupLoopValue rt si [] deduped = deduped"
| "dedupLoopValue rt si (event # es) deduped =
     (if \<not> isAssistantMessage (Some event) then dedupLoopValue rt si es deduped
      else dedupLoopValue rt si es (mapSet (messageIdOf event) (messageRowValue rt si event) deduped))"

definition deltaTokensValue :: "runtime \<Rightarrow> jsval \<Rightarrow> tokens" where
  "deltaTokensValue rt data =
     (let usage = getProp data ''usage'';
          (inputTokens, outputTokens) =
             (if hasVendorUsage usage
              then (definedVal (getProp usage ''prompt_tokens''),
                    nullish (getProp usage ''completion_tokens'') (JNum 0))
              else (let out = estimateTokens (strOf (getProp data ''content'')) in
                    (JNum (estimatedInput out), JNum out)));
          cacheRead = getProp usage ''cache_read_input_tokens'';
          cacheWrite = getProp usage ''cache_creation_input_tokens''
      in \<lparr>t_input = inputTokens,
          t_output = outputTokens,
          t_cacheRead = (if truthy cacheRead \<and> gtZeroValue rt cacheRead then cacheRead else None),
          t_cacheWrite = (if truthy cacheWrite \<and> gtZeroValue rt cacheWrite then cacheWrite else None)\<rparr>)"

section \<open>Concrete values for the examples\<close>

text \<open>The module state when the modules have just been loaded.\<close>

definition initialWorld :: world where
  "initialWorld =
     \<lparr>sessionCache = \<lparr>lastCheck = 0, lastResult = [], lastLimit = 0, lastSince = None\<rparr>,
      sessionMetadataIndex = Map.empty,
      sessionAggregateCache = Map.empty,
      sessionWatcher = \<lparr>sw_sessionDirWatchers = Map.empty, sw_rootWatcher = None, sw_dirtyPaths = {},
                        sw_reconciliationTimer = False, sw_started = False\<rparr>,
      activityWatcher = \<lparr>aw_sessionDirWatchers = Map.empty, aw_rootWatcher = None, aw_callback = None,
                         aw_fileOffsets = Map.empty, aw_started = False\<rparr>,
      forceFullReconciliation = False,
      cachedModel = None,
      modelCacheTime = 0,
      openWatchers = {},
      nextWatcher = 0,
      fsLog = [],
      delivered = [],
      pending = []\<rparr>"

definition demoRuntime :: runtime where
  "demoRuntime =
     \<lparr>jsonParse = (\<lambda>s. None), dateParse = (\<lambda>j. None), coercedGtZero = (\<lambda>j. False),
      utf8Decode = (\<lambda>bytes. bytes), homedir = [''home'', ''u'']\<rparr>"

definition demoSessionDir :: path where
  "demoSessionDir = [''home'', ''u'', ''.copilot'', ''session-state'', ''s1'']"

definition watchableFs :: filesys where
  "watchableFs =
     \<lparr>fs_access = (\<lambda>p. False), fs_readdir = (\<lambda>p. None), fs_stat = (\<lambda>p. None),
      fs_content = (\<lambda>p. None), fs_watch = (\<lambda>p. True)\<rparr>"

definition demoLive :: world where
  "demoLive =
     sessionDirNotified demoSessionDir ''events.jsonl''
       (watchSessionDir watchableFs demoSessionDir
          (startSessionWatcher demoRuntime watchableFs
             (watchSessionDirForActivity watchableFs demoSessionDir
                (startActivityWatch demoRuntime watchableFs 0 initialWorld))))"

text \<open>
  Events as the tests of the repository build them (\<^verbatim>\<open>makeAssistantMessage\<close>,
  \<^verbatim>\<open>makeModelChange\<close>): \<open>extra\<close> holds the optional fields of \<^verbatim>\<open>data\<close>.
\<close>

definition makeAssistantMessage :: "string \<Rightarrow> string \<Rightarrow> string \<Rightarrow> (string \<times> json) list \<Rightarrow> json" where
  "makeAssistantMessage mid content ts extra =
     JObj [(''type'', JStr ''assistant.message''), (''id'', JStr ''evt-001''), (''timestamp'', JStr ts),
           (''parentId'', JNull),
           (''data'', JObj ([(''messageId'', JStr mid), (''content'', JStr content)] @ extra))]"

definition makeModelChange :: "string \<Rightarrow> string \<Rightarrow> json" where
  "makeModelChange newModel ts =
     JObj [(''type'', JStr ''session.model_change''), (''id'', JStr ''evt-model''), (''timestamp'', JStr ts),
           (''parentId'', JNull), (''data'', JObj [(''newModel'', JStr newModel)])]"

text \<open>\<^verbatim>\<open>Date.parse\<close> on the time stamps of the examples.\<close>

definition demoDateParse :: "json \<Rightarrow> real option" where
  "demoDateParse j =
     (case j of
        JStr s \<Rightarrow> map_of [(''2026-02-27T20:00:00.000Z'', 1772222400000),
                          (''2026-02-27T20:00:01.000Z'', 1772222401000),
                          (''2026-02-27T20:00:30.000Z'', 1772222430000),
                          (''2026-02-27T20:01:00.000Z'', 1772222460000),
                          (''2026-02-27T20:02:00.000Z'', 1772222520000),
                          (''2026-02-27T20:03:00.000Z'', 1772222580000)] s
      | _ \<Rightarrow> None)"

definition timedRuntime :: runtime where
  "timedRuntime = demoRuntime\<lparr>dateParse := demoDateParse\<rparr>"

definition demoInfo :: session_info where
  "demoInfo =
     \<lparr>si_sessionId = ''s1'', si_sessionName = None, si_projectPath = None, si_mtimeMs = 1772222600000,
      si_defaultModel = ''claude-sonnet-4.6'', si_modelChanges = []\<rparr>"

definition vendorMessage :: json where
  "vendorMessage =
     makeAssistantMessage ''msg_001'' ''response'' ''2026-02-27T20:01:00.000Z''
       [(''usage'', JObj [(''prompt_tokens'', JNum 1500), (''completion_tokens'', JNum 250),
                          (''cache_read_input_tokens'', JNum 1200),
                          (''cache_creation_input_tokens'', JNum 0)])]"

definition plainMessage :: json where
  "plainMessage =
     makeAssistantMessage ''msg_002'' ''Hello world, this is a test response.''
       ''2026-02-27T20:03:00.000Z'' []"

definition cacheOnlyMessage :: json where
  "cacheOnlyMessage =
     makeAssistantMessage ''msg_003'' ''abcde'' ''2026-02-27T20:03:00.000Z''
       [(''usage'', JObj [(''cache_read_input_tokens'', JNum 7)])]"

text \<open>
  A session that changes its model twice, as in the test \<^verbatim>\<open>tracks multiple model changes per
  session\<close>, with a message before the first change and one that names its own model.
\<close>

definition earlyMessage :: json where
  "earlyMessage = makeAssistantMessage ''msg_early'' ''Early'' ''2026-02-27T20:00:00.000Z'' []"

definition firstMessage :: json where
  "firstMessage = makeAssistantMessage ''msg_001'' ''First response'' ''2026-02-27T20:01:00.000Z'' []"

definition secondMessage :: json where
  "secondMessage = makeAssistantMessage ''msg_002'' ''Second response'' ''2026-02-27T20:03:00.000Z'' []"

definition ownModelMessage :: json where
  "ownModelMessage =
     makeAssistantMessage ''msg_003'' ''Third'' ''2026-02-27T20:03:00.000Z'' [(''model'', JStr ''gpt-5.1'')]"

definition twoModelEvents :: "json list" where
  "twoModelEvents =
     [earlyMessage,
      makeModelChange ''claude-opus-4.6-fast'' ''2026-02-27T20:02:00.000Z'',
      firstMessage,
      makeModelChange ''claude-sonnet-4.6'' ''2026-02-27T20:00:01.000Z'',
      secondMessage,
      ownModelMessage]"

definition twoModelInfo :: session_info where
  "twoModelInfo =
     sessionInfo None demoSessionDir 1772222600000 ''default-model''
       [\<lparr>mc_timestamp = 1772222401000, mc_model = ''claude-sonnet-4.6''\<rparr>,
        \<lparr>mc_timestamp = 1772222520000, mc_model = ''claude-opus-4.6-fast''\<rparr>]"

text \<open>
  Events that are well-formed JSON and pass the guards, with a time stamp, or a cache count,
  that cannot be converted to a primitive: an object with a key \<^verbatim>\<open>toString\<close>.
\<close>

definition exoticMessage :: json where
  "exoticMessage =
     JObj [(''type'', JStr ''assistant.message''), (''timestamp'', JObj [(''toString'', JNull)]),
           (''data'', JObj [(''messageId'', JStr ''msg_009''), (''content'', JStr ''x'')])]"

definition exoticCountMessage :: json where
  "exoticCountMessage =
     makeAssistantMessage ''msg_010'' ''abcde'' ''2026-02-27T20:03:00.000Z''
       [(''usage'', JObj [(''cache_read_input_tokens'', JObj [(''toString'', JNull)])])]"

section \<open>Notions of the specification\<close>

text \<open>
  The elements of a list in the order of their first occurrence: the order in which the
  specification wants the rows of the message ids.
\<close>

fun firstOccurrences :: "'a list \<Rightarrow> 'a list" where
  "firstOccurrences [] = []"
| "firstOccurrences (x # xs) = x # removeAll x (firstOccurrences xs)"

text \<open>
  The two outcomes of the default-model resolver when it scans: it falls back to the
  previously cached value, or to the sentinel \<^verbatim>\<open>unknown\<close>, and leaves its cache as it was; or
  it returns a model found in the log and caches it with the time of the call.
\<close>

definition fallsBack :: "world \<Rightarrow> string \<times> world \<Rightarrow> bool" where
  "fallsBack w r =
     (fst r = (case cachedModel w of Some c \<Rightarrow> c | None \<Rightarrow> ''unknown'')
      \<and> cachedModel (snd r) = cachedModel w
      \<and> modelCacheTime (snd r) = modelCacheTime w)"

definition returnsAndCaches :: "string \<Rightarrow> real \<Rightarrow> string \<times> world \<Rightarrow> bool" where
  "returnsAndCaches m now r =
     (m \<noteq> [] \<and> fst r = m \<and> cachedModel (snd r) = Some m \<and> modelCacheTime (snd r) = now)"

text \<open>
  What a step of a bulk query leaves alone until the pass is over: the log of file-system
  operations only grows, and the result cache, the dirty-path set, the
  force-full-reconciliation flag and the pending tasks stay as they are.
\<close>

definition queryStateKept :: "world \<Rightarrow> world \<Rightarrow> bool" where
  "queryStateKept w w' =
     ((\<exists>ops. fsLog w' = fsLog w @ ops)
      \<and> sessionCache w' = sessionCache w
      \<and> sw_dirtyPaths (sessionWatcher w') = sw_dirtyPaths (sessionWatcher w)
      \<and> forceFullReconciliation w' = forceFullReconciliation w
      \<and> pending w' = pending w)"

text \<open>
  The text that \<^verbatim>\<open>JSON.stringify\<close> gives for \<^verbatim>\<open>makeAssistantMessage\<close> without optional fields,
  and \<^verbatim>\<open>JSON.parse\<close> on the lines of the example below. The log has a message
  \<^verbatim>\<open>msg_001\<close> written twice, a line that is not JSON, a blank line and a message \<^verbatim>\<open>msg_002\<close>.
\<close>

definition assistantLine :: "string \<Rightarrow> string \<Rightarrow> string \<Rightarrow> string" where
  \<open>assistantLine mid content ts =
     ''{"type":"assistant.message","id":"evt-001","timestamp":"'' @ ts
       @ ''","parentId":null,"data":{"messageId":"'' @ mid @ ''","content":"'' @ content @ ''"}}''\<close>

definition partialMessage :: json where
  "partialMessage = makeAssistantMessage ''msg_001'' ''partial'' ''2026-02-27T20:01:00.000Z'' []"

definition fullMessage :: json where
  "fullMessage =
     makeAssistantMessage ''msg_001'' ''full response with more content'' ''2026-02-27T20:01:00.000Z'' []"

definition demoJsonParse :: "string \<Rightarrow> json option" where
  "demoJsonParse =
     map_of [(assistantLine ''msg_001'' ''partial'' ''2026-02-27T20:01:00.000Z'', partialMessage),
             (assistantLine ''msg_002'' ''Second response'' ''2026-02-27T20:03:00.000Z'', secondMessage),
             (assistantLine ''msg_001'' ''full response with more content'' ''2026-02-27T20:01:00.000Z'',
              fullMessage)]"

definition jsonlRuntime :: runtime where
  "jsonlRuntime = timedRuntime\<lparr>jsonParse := demoJsonParse\<rparr>"

definition demoLog :: string where
  "demoLog =
     assistantLine ''msg_001'' ''partial'' ''2026-02-27T20:01:00.000Z'' @ [CHR 0x0A]
     @ ''{oops'' @ [CHR 0x0D, CHR 0x0A]
     @ assistantLine ''msg_002'' ''Second response'' ''2026-02-27T20:03:00.000Z'' @ [CHR 0x0A]
     @ [CHR 0x0A]
     @ assistantLine ''msg_001'' ''full response with more content'' ''2026-02-27T20:01:00.000Z''
     @ [CHR 0x0A]"

text \<open>
  A log whose only line is the text of the message with the time stamp that cannot be
  converted, and \<^verbatim>\<open>JSON.parse\<close> on it.
\<close>

definition exoticLog :: string where
  \<open>exoticLog =
     ''{"type":"assistant.message","timestamp":{"toString":null},''
     @ ''"data":{"messageId":"msg_009","content":"x"}}'' @ [CHR 0x0A]\<close>

definition exoticRuntime :: runtime where
  "exoticRuntime =
     timedRuntime\<lparr>jsonParse := (\<lambda>s. if s @ [CHR 0x0A] = exoticLog then Some exoticMessage else None)\<rparr>"

definition logFs :: "string option \<Rightarrow> filesys" where
  "logFs content =
     watchableFs\<lparr>fs_content := (\<lambda>p. if p = demoSessionDir @ [''events.jsonl''] then content else None)\<rparr>"

definition garbageLog :: string where
  "garbageLog = ''{oops'' @ [CHR 0x0A] @ ''not json at all''"







text \<open>
  A log directory with two process logs, the more recent of which has the given content, a
  file of another name and a directory whose name looks like a process log.
\<close>

definition logEntries :: "dirent list" where
  "logEntries =
     [\<lparr>d_name = ''process-1.log'', d_kind = IsFile\<rparr>,
      \<lparr>d_name = ''notes.txt'', d_kind = IsFile\<rparr>,
      \<lparr>d_name = ''process-2.log'', d_kind = IsFile\<rparr>,
      \<lparr>d_name = ''process-3.log'', d_kind = IsDirectory\<rparr>]"

definition processLogFs :: "string \<Rightarrow> filesys" where
  "processLogFs content =
     watchableFs
       \<lparr>fs_readdir := (\<lambda>p. if p = [''home'', ''u'', ''.copilot'', ''logs''] then Some logEntries
                             else None),
        fs_stat := (\<lambda>p. if p = [''home'', ''u'', ''.copilot'', ''logs'', ''process-1.log'']
                          then Some \<lparr>st_mtimeMs = 100, st_size = 39\<rparr>
                          else if p = [''home'', ''u'', ''.copilot'', ''logs'', ''process-2.log'']
                          then Some \<lparr>st_mtimeMs = 200, st_size = length content\<rparr>
                          else None),
        fs_content := (\<lambda>p. if p = [''home'', ''u'', ''.copilot'', ''logs'', ''process-1.log'']
                             then Some ''[INFO] Using default model: stale-model''
                             else if p = [''home'', ''u'', ''.copilot'', ''logs'', ''process-2.log'']
                             then Some content
                             else None)\<rparr>"

definition twoSelections :: string where
  "twoSelections =
     ''2026-02-27T20:58:52.000Z [INFO] Using default model: gpt-5.1'' @ [CHR 0x0A]
     @ ''2026-02-27T20:59:00.000Z [INFO] Using default model: claude-sonnet-4.6 '' @ [CHR 0x0D, CHR 0x0A]
     @ ''2026-02-27T20:59:01.000Z [INFO] Starting session'' @ [CHR 0x0A]"

definition warnSelection :: string where
  "warnSelection = ''2026-02-27T20:58:52.000Z [WARN] '' @ ''Using default model: '' @ ''gpt-5.1''"

text \<open>
  An aggregate cache that holds one row for the session \<^verbatim>\<open>s1\<close>, parsed when the log's
  \<open>mtimeMs\<close> was 1772222600000; the session as a pass selects it with that \<open>mtimeMs\<close>, and
  with a later one.
\<close>

definition staleRow :: usage_row where
  "staleRow = projr (messageRow jsonlRuntime demoInfo partialMessage)"




text \<open>
  A home directory with one session, \<^verbatim>\<open>s1\<close>, whose log is the example log, and no directory of
  process logs; the parameters of \<^verbatim>\<open>cache.ts\<close> (a two-second TTL, nothing evicted); the clock
  readings of one call; a bulk query with the given \<^verbatim>\<open>limit\<close>; and the module state after an
  earlier bulk query with the default limit, made at 900, that returned one row.
\<close>

definition sessionFs :: filesys where
  "sessionFs =
     (logFs (Some demoLog))
       \<lparr>fs_access := (\<lambda>p. p = [''home'', ''u'', ''.copilot'', ''session-state'']
                           \<or> p = demoSessionDir @ [''events.jsonl'']),
        fs_readdir := (\<lambda>p. if p = [''home'', ''u'', ''.copilot'', ''session-state'']
                             then Some [\<lparr>d_name = ''s1'', d_kind = IsDirectory\<rparr>]
                             else None),
        fs_stat := (\<lambda>p. if p = demoSessionDir @ [''events.jsonl'']
                          then Some \<lparr>st_mtimeMs = 1772222600000, st_size = length demoLog\<rparr>
                          else None)\<rparr>"

definition demoCache :: cache_module where
  "demoCache = \<lparr>CACHE_TTL_MS = 2000, evictSessionAggregateCache = (\<lambda>cache. cache)\<rparr>"

definition demoClock :: clock where
  "demoClock = \<lparr>c_now = 1000, c_modelNow = 1001, c_endNow = 1002\<rparr>"

definition bulkQuery :: "real option \<Rightarrow> options" where
  "bulkQuery l = \<lparr>opt_limit = l, opt_since = None, opt_sessionId = None\<rparr>"

definition warmWorld :: world where
  "warmWorld =
     initialWorld
       \<lparr>sessionCache := \<lparr>lastCheck = 900, lastResult = [staleRow], lastLimit = 100, lastSince = None\<rparr>\<rparr>"

section \<open>Each function of the parser raises or returns its value\<close>

lemma unconvertible_truthy: "unconvertible j \<Longrightarrow> truthy (Some j)"
  by (cases j) simp_all

lemma countRaises_simps:
  "countRaises None = False"
  "countRaises (Some j) = unconvertible j"
  by (simp_all add: countRaises_def)

lemma gtZero_value:
  "gtZero rt v = (if countRaises v then Inl TypeError else Inr (gtZeroValue rt v))"
proof (cases v)
  case None
  then show ?thesis by (simp add: countRaises_def)
next
  case (Some j)
  then show ?thesis by (cases j) (simp_all add: countRaises_def)
qed

lemma toTimestamp_value:
  "toTimestamp rt v fallback
     = (if countRaises v then Inl TypeError else Inr (toTimestampValue rt v fallback))"
proof (cases v)
  case None
  then show ?thesis by (simp add: countRaises_def toTimestamp_def toTimestampValue_def)
next
  case (Some j)
  then show ?thesis
    using unconvertible_truthy [of j]
    by (auto simp add: countRaises_def toTimestamp_def toTimestampValue_def split: option.split)
qed

lemma whenPositive_value:
  "whenPositive rt v = (if countRaises v then Inl TypeError else Inr (whenPositiveValue rt v))"
proof (cases v)
  case None
  then show ?thesis by (simp add: countRaises_def whenPositive_def whenPositiveValue_def)
next
  case (Some j)
  then show ?thesis
    using unconvertible_truthy [of j]
    by (auto simp add: whenPositive_def whenPositiveValue_def gtZero_value countRaises_simps)
qed

lemma rowTokens_value:
  "rowTokens rt data =
     (if hasVendorUsage (getProp data ''usage'')
         \<and> (countRaises (getProp (getProp data ''usage'') ''cache_read_input_tokens'')
              \<or> countRaises (getProp (getProp data ''usage'') ''cache_creation_input_tokens''))
      then Inl TypeError else Inr (rowTokensValue rt data))"
  by (simp add: rowTokens_def rowTokensValue_def whenPositive_value Let_def)

lemma messageRow_value:
  "messageRow rt si event = (if rowRaises event then Inl TypeError else Inr (messageRowValue rt si event))"
  by (auto simp add: messageRow_def messageRowValue_def rowRaises_def timestampRaises_def
      rowTokens_value toTimestamp_value Let_def case_prod_beta)

lemma collectModelChanges_value:
  "collectModelChanges rt events =
     (if list_ex (\<lambda>e. isModelChange (Some e) \<and> timestampRaises e) events then Inl TypeError
      else Inr (collectModelChangesValue rt events))"
  by (induction events) (simp_all add: toTimestamp_value timestampRaises_def)

lemma modelTimeline_value:
  "modelTimeline rt events =
     (if list_ex (\<lambda>e. isModelChange (Some e) \<and> timestampRaises e) events then Inl TypeError
      else Inr (modelTimelineValue rt events))"
  by (simp add: modelTimeline_def modelTimelineValue_def collectModelChanges_value)

lemma dedupLoop_value:
  "dedupLoop rt si events deduped =
     (if list_ex (\<lambda>e. isAssistantMessage (Some e) \<and> rowRaises e) events then Inl TypeError
      else Inr (dedupLoopValue rt si events deduped))"
  by (induction events arbitrary: deduped) (simp_all add: messageRow_value)

lemma deltaTokens_value:
  "deltaTokens rt data =
     (if countRaises (getProp (getProp data ''usage'') ''cache_read_input_tokens'')
         \<or> countRaises (getProp (getProp data ''usage'') ''cache_creation_input_tokens'')
      then Inl TypeError else Inr (deltaTokensValue rt data))"
  by (simp add: deltaTokens_def deltaTokensValue_def whenPositive_value whenPositiveValue_def Let_def
      case_prod_beta)

section \<open>Stopping the watchers\<close>

lemma stopSessionWatcher_state:
  "sessionWatcher (stopSessionWatcher w) =
     \<lparr>sw_sessionDirWatchers = Map.empty, sw_rootWatcher = None, sw_dirtyPaths = {},
      sw_reconciliationTimer = False, sw_started = False\<rparr>"
  by (simp add: stopSessionWatcher_def closeWatchers_def Let_def split: option.split)

lemma stopSessionWatcher_open:
  "openWatchers (stopSessionWatcher w) =
     openWatchers w - (ran (sw_sessionDirWatchers (sessionWatcher w))
                       \<union> set_option (sw_rootWatcher (sessionWatcher w)))"
  by (cases "sw_rootWatcher (sessionWatcher w)")
     (auto simp add: stopSessionWatcher_def closeWatchers_def Let_def)

lemma stopSessionWatcher_frame:
  "activityWatcher (stopSessionWatcher w) = activityWatcher w
   \<and> forceFullReconciliation (stopSessionWatcher w) = forceFullReconciliation w
   \<and> sessionCache (stopSessionWatcher w) = sessionCache w
   \<and> sessionMetadataIndex (stopSessionWatcher w) = sessionMetadataIndex w
   \<and> sessionAggregateCache (stopSessionWatcher w) = sessionAggregateCache w"
  by (simp add: stopSessionWatcher_def closeWatchers_def Let_def split: option.split)

lemma stopActivityWatch_activity:
  "activityWatcher (stopActivityWatch w) =
     \<lparr>aw_sessionDirWatchers = Map.empty, aw_rootWatcher = None, aw_callback = None,
      aw_fileOffsets = Map.empty, aw_started = False\<rparr>"
  by (simp add: stopActivityWatch_def stopSessionWatcher_frame closeWatchers_def Let_def split: option.split)

lemma stopActivityWatch_open:
  "openWatchers (stopActivityWatch w) =
       openWatchers w
         - (ran (aw_sessionDirWatchers (activityWatcher w)) \<union> set_option (aw_rootWatcher (activityWatcher w))
            \<union> ran (sw_sessionDirWatchers (sessionWatcher w)) \<union> set_option (sw_rootWatcher (sessionWatcher w)))"
  by (cases "aw_rootWatcher (activityWatcher w)")
     (auto simp add: stopActivityWatch_def stopSessionWatcher_open closeWatchers_def Let_def)

lemma stopActivityWatch_session:
  "sessionWatcher (stopActivityWatch w) =
     \<lparr>sw_sessionDirWatchers = Map.empty, sw_rootWatcher = None, sw_dirtyPaths = {},
      sw_reconciliationTimer = False, sw_started = False\<rparr>"
  by (simp add: stopActivityWatch_def stopSessionWatcher_state Let_def)

lemma stopActivityWatch_frame:
  "forceFullReconciliation (stopActivityWatch w) = forceFullReconciliation w
   \<and> sessionCache (stopActivityWatch w) = sessionCache w
   \<and> sessionMetadataIndex (stopActivityWatch w) = sessionMetadataIndex w
   \<and> sessionAggregateCache (stopActivityWatch w) = sessionAggregateCache w"
  by (simp add: stopActivityWatch_def stopSessionWatcher_frame closeWatchers_def Let_def split: option.split)

text \<open>
  C10. \<^verbatim>\<open>stopActivityWatch\<close> stops the live-activity watcher and the dirty-tracking session
  watcher as well: every per-directory and root watch of both is closed, the maps of
  watchers are empty, the dirty-path set is empty, the reconciliation timer is cancelled and
  both watchers are marked not started. The dirty paths that the next reconciliation would
  have consumed are gone. The force-full-reconciliation flag and the three caches are as
  they were.
\<close>

theorem stopActivityWatch_stops_both:
  "sessionWatcher (stopActivityWatch w) =
     \<lparr>sw_sessionDirWatchers = Map.empty, sw_rootWatcher = None, sw_dirtyPaths = {},
      sw_reconciliationTimer = False, sw_started = False\<rparr>
   \<and> activityWatcher (stopActivityWatch w) =
     \<lparr>aw_sessionDirWatchers = Map.empty, aw_rootWatcher = None, aw_callback = None,
      aw_fileOffsets = Map.empty, aw_started = False\<rparr>
   \<and> openWatchers (stopActivityWatch w) =
       openWatchers w
         - (ran (aw_sessionDirWatchers (activityWatcher w)) \<union> set_option (aw_rootWatcher (activityWatcher w))
            \<union> ran (sw_sessionDirWatchers (sessionWatcher w)) \<union> set_option (sw_rootWatcher (sessionWatcher w)))
   \<and> forceFullReconciliation (stopActivityWatch w) = forceFullReconciliation w
   \<and> sessionCache (stopActivityWatch w) = sessionCache w
   \<and> sessionMetadataIndex (stopActivityWatch w) = sessionMetadataIndex w
   \<and> sessionAggregateCache (stopActivityWatch w) = sessionAggregateCache w"
  using stopActivityWatch_session [of w] stopActivityWatch_activity [of w]
    stopActivityWatch_open [of w] stopActivityWatch_frame [of w]
  by simp

lemma demoLive_session:
  "sw_dirtyPaths (sessionWatcher demoLive) = {demoSessionDir @ [''events.jsonl'']}
   \<and> sw_started (sessionWatcher demoLive)
   \<and> sw_reconciliationTimer (sessionWatcher demoLive)
   \<and> sw_rootWatcher (sessionWatcher demoLive) = Some 2
   \<and> sw_sessionDirWatchers (sessionWatcher demoLive) = [demoSessionDir \<mapsto> 3]"
  by (simp add: demoLive_def sessionDirNotified_def watchSessionDir_def startSessionWatcher_def
      watchSessionDirForActivity_def startActivityWatch_def launchDiscovery_def openWatch_def logOp_def
      initialWorld_def
      watchableFs_def demoRuntime_def demoSessionDir_def COPILOT_CLI_SESSION_STATE_PATH_def
      COPILOT_CLI_HOME_def Let_def eval_nat_numeral)

lemma demoLive_open: "openWatchers demoLive = {0, 1, 2, 3}"
  by (auto simp add: demoLive_def sessionDirNotified_def watchSessionDir_def startSessionWatcher_def
      watchSessionDirForActivity_def startActivityWatch_def launchDiscovery_def openWatch_def logOp_def
      initialWorld_def
      watchableFs_def demoRuntime_def demoSessionDir_def COPILOT_CLI_SESSION_STATE_PATH_def
      COPILOT_CLI_HOME_def Let_def eval_nat_numeral)

lemma demoLive_activity:
  "aw_rootWatcher (activityWatcher demoLive) = Some 0
   \<and> aw_sessionDirWatchers (activityWatcher demoLive) = [demoSessionDir \<mapsto> 1]"
  by (simp add: demoLive_def sessionDirNotified_def watchSessionDir_def startSessionWatcher_def
      watchSessionDirForActivity_def startActivityWatch_def launchDiscovery_def openWatch_def logOp_def
      initialWorld_def
      watchableFs_def demoRuntime_def demoSessionDir_def COPILOT_CLI_SESSION_STATE_PATH_def
      COPILOT_CLI_HOME_def Let_def eval_nat_numeral)

text \<open>
  A session watched by both watchers, with one dirty path and four open watches: after
  \<^verbatim>\<open>stopActivityWatch\<close> nothing of it is left.
\<close>

theorem stopActivityWatch_stops_both_witness:
  "sw_dirtyPaths (sessionWatcher demoLive) = {demoSessionDir @ [''events.jsonl'']}
   \<and> sw_started (sessionWatcher demoLive)
   \<and> openWatchers demoLive = {0, 1, 2, 3}
   \<and> sw_dirtyPaths (sessionWatcher (stopActivityWatch demoLive)) = {}
   \<and> \<not> sw_started (sessionWatcher (stopActivityWatch demoLive))
   \<and> \<not> sw_reconciliationTimer (sessionWatcher (stopActivityWatch demoLive))
   \<and> openWatchers (stopActivityWatch demoLive) = {}"
  using stopActivityWatch_stops_both [of demoLive] demoLive_session demoLive_open demoLive_activity
  by simp

section \<open>Token figures of one assistant message\<close>

lemma ceiling_quarter: "\<lceil>real n / 4\<rceil> = int ((n + 3) div 4)"
proof -
  have "\<lceil>real n / 4\<rceil> = - (- int n div 4)"
    using ceiling_divide_eq_div [of "int n" 4] by simp
  also have "\<dots> = (int n + 3) div 4" by presburger
  also have "\<dots> = int ((n + 3) div 4)" by (simp add: zdiv_int)
  finally show ?thesis .
qed

lemma ceiling_half: "\<lceil>real n / 2\<rceil> = int ((n + 1) div 2)"
proof -
  have "\<lceil>real n / 2\<rceil> = - (- int n div 2)"
    using ceiling_divide_eq_div [of "int n" 2] by simp
  also have "\<dots> = (int n + 1) div 2" by presburger
  also have "\<dots> = int ((n + 1) div 2)" by (simp add: zdiv_int)
  finally show ?thesis .
qed

lemma estimateTokens_div: "estimateTokens s = real ((length s + 3) div 4)"
  by (simp add: estimateTokens_def ceiling_quarter)

lemma estimatedInput_div: "estimatedInput (real n) = real ((n + 1) div 2)"
  by (simp add: estimatedInput_def ceiling_half)

lemma rowTokensValue_vendor:
  assumes "hasVendorUsage (getProp data ''usage'')"
  shows "rowTokensValue rt data =
           (\<lparr>t_input = definedVal (getProp (getProp data ''usage'') ''prompt_tokens''),
             t_output = nullish (getProp (getProp data ''usage'') ''completion_tokens'') (JNum 0),
             t_cacheRead = whenPositiveValue rt (getProp (getProp data ''usage'') ''cache_read_input_tokens''),
             t_cacheWrite = whenPositiveValue rt (getProp (getProp data ''usage'') ''cache_creation_input_tokens'')\<rparr>,
            False)"
  using assms by (simp add: rowTokensValue_def Let_def whenPositiveValue_def)

lemma rowTokensValue_estimate:
  assumes "\<not> hasVendorUsage (getProp data ''usage'')"
  shows "rowTokensValue rt data =
           (\<lparr>t_input = JNum (real (((length (strOf (getProp data ''content'')) + 3) div 4 + 1) div 2)),
             t_output = JNum (real ((length (strOf (getProp data ''content'')) + 3) div 4)),
             t_cacheRead = None, t_cacheWrite = None\<rparr>, True)"
  using assms by (simp add: rowTokensValue_def Let_def estimateTokens_div estimatedInput_div)

lemma deltaTokensValue_vendor:
  assumes "hasVendorUsage (getProp data ''usage'')"
  shows "deltaTokensValue rt data =
           \<lparr>t_input = definedVal (getProp (getProp data ''usage'') ''prompt_tokens''),
            t_output = nullish (getProp (getProp data ''usage'') ''completion_tokens'') (JNum 0),
            t_cacheRead = whenPositiveValue rt (getProp (getProp data ''usage'') ''cache_read_input_tokens''),
            t_cacheWrite = whenPositiveValue rt (getProp (getProp data ''usage'') ''cache_creation_input_tokens'')\<rparr>"
  using assms by (simp add: deltaTokensValue_def Let_def whenPositiveValue_def)

lemma deltaTokensValue_estimate:
  assumes "\<not> hasVendorUsage (getProp data ''usage'')"
  shows "deltaTokensValue rt data =
           \<lparr>t_input = JNum (real (((length (strOf (getProp data ''content'')) + 3) div 4 + 1) div 2)),
            t_output = JNum (real ((length (strOf (getProp data ''content'')) + 3) div 4)),
            t_cacheRead = whenPositiveValue rt (getProp (getProp data ''usage'') ''cache_read_input_tokens''),
            t_cacheWrite = whenPositiveValue rt (getProp (getProp data ''usage'') ''cache_creation_input_tokens'')\<rparr>"
  using assms by (simp add: deltaTokensValue_def Let_def whenPositiveValue_def estimateTokens_div estimatedInput_div)

lemma hasVendorUsage_prompt:
  "hasVendorUsage usage \<longleftrightarrow> truthy usage \<and> (\<exists>p. 0 < p \<and> getProp usage ''prompt_tokens'' = Some (JNum p))"
  by (auto simp add: hasVendorUsage_def split: option.splits json.splits)

lemma messageRowValue_tokens:
  "row_tokens (messageRowValue rt si event) = fst (rowTokensValue rt (getProp (Some event) ''data''))
   \<and> isEstimated (messageRowValue rt si event) = snd (rowTokensValue rt (getProp (Some event) ''data''))"
  by (simp add: messageRowValue_def Let_def split: prod.split)

lemma whenPositiveValue_cases:
  "whenPositiveValue rt v =
     (case v of
        None \<Rightarrow> None
      | Some (JNum c) \<Rightarrow> if 0 < c then Some (JNum c) else None
      | Some j \<Rightarrow> whenPositiveValue rt (Some j))"
proof (cases v)
  case None
  then show ?thesis by (simp add: whenPositiveValue_def)
next
  case (Some j)
  then show ?thesis by (cases j) (simp_all add: whenPositiveValue_def)
qed

lemma nullish_cases:
  "nullish v d = (case v of None \<Rightarrow> d | Some JNull \<Rightarrow> d | Some j \<Rightarrow> j)"
  by (cases "(v, d)" rule: nullish.cases) simp_all

lemma whenPositiveValue_attached:
  "whenPositiveValue rt v =
     (case v of
        None \<Rightarrow> None
      | Some (JNum c) \<Rightarrow> if 0 < c then Some (JNum c) else None
      | Some j \<Rightarrow> if truthy (Some j) \<and> coercedGtZero rt j then Some j else None)"
proof (cases v)
  case None
  then show ?thesis by (simp add: whenPositiveValue_def)
next
  case (Some j)
  then show ?thesis by (cases j) (simp_all add: whenPositiveValue_def)
qed

lemma token_figures_value:
  "(let data = getProp (Some event) ''data'';
        usage = getProp data ''usage'';
        n = length (strOf (getProp data ''content''));
        row = messageRowValue rt si event;
        upd = deltaTokensValue rt data;
        completion = (case getProp usage ''completion_tokens'' of
                        None \<Rightarrow> JNum 0 | Some JNull \<Rightarrow> JNum 0 | Some j \<Rightarrow> j);
        attached = (\<lambda>v. case v of
                            None \<Rightarrow> None
                          | Some (JNum c) \<Rightarrow> if 0 < c then Some (JNum c) else None
                          | Some j \<Rightarrow> if truthy (Some j) \<and> coercedGtZero rt j then Some j else None);
        cacheRead = attached (getProp usage ''cache_read_input_tokens'');
        cacheWrite = attached (getProp usage ''cache_creation_input_tokens'')
    in (if hasVendorUsage usage
        then (\<exists>p. 0 < p \<and> getProp usage ''prompt_tokens'' = Some (JNum p)
                \<and> t_input (row_tokens row) = JNum p \<and> t_input upd = JNum p)
             \<and> t_output (row_tokens row) = completion
             \<and> t_output upd = completion
             \<and> \<not> isEstimated row
             \<and> t_cacheRead (row_tokens row) = cacheRead
             \<and> t_cacheWrite (row_tokens row) = cacheWrite
        else t_output (row_tokens row) = JNum (real ((n + 3) div 4))
             \<and> t_input (row_tokens row) = JNum (real (((n + 3) div 4 + 1) div 2))
             \<and> t_output upd = JNum (real ((n + 3) div 4))
             \<and> t_input upd = JNum (real (((n + 3) div 4 + 1) div 2))
             \<and> isEstimated row
             \<and> t_cacheRead (row_tokens row) = None
             \<and> t_cacheWrite (row_tokens row) = None)
       \<and> t_cacheRead upd = cacheRead
       \<and> t_cacheWrite upd = cacheWrite)"
proof (cases "hasVendorUsage (getProp (getProp (Some event) ''data'') ''usage'')")
  case True
  then obtain p where "0 < p"
    and "getProp (getProp (getProp (Some event) ''data'') ''usage'') ''prompt_tokens'' = Some (JNum p)"
    by (auto simp add: hasVendorUsage_prompt)
  with True show ?thesis
    by (simp add: Let_def messageRowValue_tokens rowTokensValue_vendor deltaTokensValue_vendor
        whenPositiveValue_attached [symmetric] nullish_cases [symmetric])
next
  case False
  then show ?thesis
    by (simp add: Let_def messageRowValue_tokens rowTokensValue_estimate deltaTokensValue_estimate
        whenPositiveValue_attached [symmetric])
qed

lemma demo_data:
  "getProp (Some (makeAssistantMessage mid content ts extra)) ''data''
     = Some (JObj ([(''messageId'', JStr mid), (''content'', JStr content)] @ extra))"
  by (simp add: makeAssistantMessage_def)

text \<open>
  C1, as amended. For an assistant message with a usage block whose \<^verbatim>\<open>prompt_tokens\<close> is a
  number above 0, the row of \<^verbatim>\<open>parseSessionDirRows\<close> and the update of the tailing watcher
  both have \<open>input = prompt_tokens\<close> and \<open>output = completion_tokens\<close> (0 when that is
  absent or null); the row is marked not estimated and carries \<open>cacheRead\<close> and
  \<open>cacheWrite\<close> exactly when the vendor's count is present and positive. Otherwise both
  have \<open>output = ceil(length(content) / 4)\<close> and \<open>input = ceil(output / 2)\<close>, and the row is
  marked estimated and carries no cache field. The watcher's update has no estimated mark,
  and it carries \<open>cacheRead\<close> and \<open>cacheWrite\<close> whenever the vendor's count is present and
  positive, whatever \<^verbatim>\<open>prompt_tokens\<close> is. All this holds of every row and of every update
  that is built; none is built, and a \<^verbatim>\<open>TypeError\<close> is raised, exactly when a value that is
  compared or parsed cannot be converted to a primitive: for the row, the time stamp, or a
  cache count under the vendor's usage; for the update's figures, a cache count.
\<close>

theorem token_figures_of_message:
  "(let data = getProp (Some event) ''data'';
        usage = getProp data ''usage'';
        n = length (strOf (getProp data ''content''));
        completion = (case getProp usage ''completion_tokens'' of
                        None \<Rightarrow> JNum 0 | Some JNull \<Rightarrow> JNum 0 | Some j \<Rightarrow> j);
        attached = (\<lambda>v. case v of
                            None \<Rightarrow> None
                          | Some (JNum c) \<Rightarrow> if 0 < c then Some (JNum c) else None
                          | Some j \<Rightarrow> if truthy (Some j) \<and> coercedGtZero rt j then Some j else None);
        cacheRead = attached (getProp usage ''cache_read_input_tokens'');
        cacheWrite = attached (getProp usage ''cache_creation_input_tokens'');
        countRaised = (countRaises (getProp usage ''cache_read_input_tokens'')
                       \<or> countRaises (getProp usage ''cache_creation_input_tokens''))
    in (messageRow rt si event = Inl TypeError
          \<longleftrightarrow> (hasVendorUsage usage \<and> countRaised) \<or> timestampRaises event)
       \<and> (deltaTokens rt data = Inl TypeError \<longleftrightarrow> countRaised)
       \<and> (\<forall>row. messageRow rt si event = Inr row \<longrightarrow>
             (if hasVendorUsage usage
              then (\<exists>p. 0 < p \<and> getProp usage ''prompt_tokens'' = Some (JNum p)
                      \<and> t_input (row_tokens row) = JNum p)
                   \<and> t_output (row_tokens row) = completion
                   \<and> \<not> isEstimated row
                   \<and> t_cacheRead (row_tokens row) = cacheRead
                   \<and> t_cacheWrite (row_tokens row) = cacheWrite
              else t_output (row_tokens row) = JNum (real ((n + 3) div 4))
                   \<and> t_input (row_tokens row) = JNum (real (((n + 3) div 4 + 1) div 2))
                   \<and> isEstimated row
                   \<and> t_cacheRead (row_tokens row) = None
                   \<and> t_cacheWrite (row_tokens row) = None))
       \<and> (\<forall>upd. deltaTokens rt data = Inr upd \<longrightarrow>
             (if hasVendorUsage usage
              then (\<exists>p. 0 < p \<and> getProp usage ''prompt_tokens'' = Some (JNum p) \<and> t_input upd = JNum p)
                   \<and> t_output upd = completion
              else t_output upd = JNum (real ((n + 3) div 4))
                   \<and> t_input upd = JNum (real (((n + 3) div 4 + 1) div 2)))
             \<and> t_cacheRead upd = cacheRead
             \<and> t_cacheWrite upd = cacheWrite))"
proof -
  let ?data = "getProp (Some event) ''data''"
  let ?usage = "getProp ?data ''usage''"
  note figures = token_figures_value [where event = event and rt = rt and si = si,
      unfolded Let_def]
  have raised: "messageRow rt si event = Inl TypeError
                  \<longleftrightarrow> (hasVendorUsage ?usage
                        \<and> (countRaises (getProp ?usage ''cache_read_input_tokens'')
                             \<or> countRaises (getProp ?usage ''cache_creation_input_tokens'')))
                       \<or> timestampRaises event"
    by (simp add: messageRow_value rowRaises_def Let_def)
  have update_raised: "deltaTokens rt ?data = Inl TypeError
                  \<longleftrightarrow> countRaises (getProp ?usage ''cache_read_input_tokens'')
                       \<or> countRaises (getProp ?usage ''cache_creation_input_tokens'')"
    by (simp add: deltaTokens_value)
  have row: "row = messageRowValue rt si event" if "messageRow rt si event = Inr row" for row
    using that by (simp add: messageRow_value split: if_splits)
  have upd: "upd = deltaTokensValue rt ?data" if "deltaTokens rt ?data = Inr upd" for upd
    using that by (simp add: deltaTokens_value split: if_splits)
  have rows: "\<forall>r. messageRow rt si event = Inr r \<longrightarrow>
         (if hasVendorUsage ?usage
          then (\<exists>p. 0 < p \<and> getProp ?usage ''prompt_tokens'' = Some (JNum p)
                  \<and> t_input (row_tokens r) = JNum p)
               \<and> t_output (row_tokens r)
                   = (case getProp ?usage ''completion_tokens'' of
                        None \<Rightarrow> JNum 0 | Some JNull \<Rightarrow> JNum 0 | Some j \<Rightarrow> j)
               \<and> \<not> isEstimated r
               \<and> t_cacheRead (row_tokens r)
                   = (case getProp ?usage ''cache_read_input_tokens'' of
                        None \<Rightarrow> None
                      | Some (JNum c) \<Rightarrow> if 0 < c then Some (JNum c) else None
                      | Some j \<Rightarrow> if truthy (Some j) \<and> coercedGtZero rt j then Some j else None)
               \<and> t_cacheWrite (row_tokens r)
                   = (case getProp ?usage ''cache_creation_input_tokens'' of
                        None \<Rightarrow> None
                      | Some (JNum c) \<Rightarrow> if 0 < c then Some (JNum c) else None
                      | Some j \<Rightarrow> if truthy (Some j) \<and> coercedGtZero rt j then Some j else None)
          else t_output (row_tokens r)
                 = JNum (real ((length (strOf (getProp ?data ''content'')) + 3) div 4))
               \<and> t_input (row_tokens r)
                   = JNum (real (((length (strOf (getProp ?data ''content'')) + 3) div 4 + 1) div 2))
               \<and> isEstimated r
               \<and> t_cacheRead (row_tokens r) = None
               \<and> t_cacheWrite (row_tokens r) = None)"
    using row figures by (cases "hasVendorUsage ?usage") auto
  have updates: "\<forall>u. deltaTokens rt ?data = Inr u \<longrightarrow>
         (if hasVendorUsage ?usage
           then (\<exists>p. 0 < p \<and> getProp ?usage ''prompt_tokens'' = Some (JNum p) \<and> t_input u = JNum p)
                \<and> t_output u
                    = (case getProp ?usage ''completion_tokens'' of
                         None \<Rightarrow> JNum 0 | Some JNull \<Rightarrow> JNum 0 | Some j \<Rightarrow> j)
           else t_output u = JNum (real ((length (strOf (getProp ?data ''content'')) + 3) div 4))
                \<and> t_input u
                    = JNum (real (((length (strOf (getProp ?data ''content'')) + 3) div 4 + 1) div 2)))
          \<and> t_cacheRead u
              = (case getProp ?usage ''cache_read_input_tokens'' of
                   None \<Rightarrow> None
                 | Some (JNum c) \<Rightarrow> if 0 < c then Some (JNum c) else None
                 | Some j \<Rightarrow> if truthy (Some j) \<and> coercedGtZero rt j then Some j else None)
          \<and> t_cacheWrite u
              = (case getProp ?usage ''cache_creation_input_tokens'' of
                   None \<Rightarrow> None
                 | Some (JNum c) \<Rightarrow> if 0 < c then Some (JNum c) else None
                 | Some j \<Rightarrow> if truthy (Some j) \<and> coercedGtZero rt j then Some j else None)"
    using upd figures by (cases "hasVendorUsage ?usage") auto
  show ?thesis
    unfolding Let_def
    by (intro conjI) (rule raised, rule update_raised, rule rows, rule updates)
qed

text \<open>
  The vendor's figures of the repository's test (1500, 250, cache 1200 and 0), and the
  estimate for a text of 37 characters (10 and 5); a message whose cache count is an object
  with a key \<^verbatim>\<open>toString\<close> is estimated by the parser, and makes the watcher raise.
\<close>

theorem token_figures_of_message_witness:
  "map_sum id row_tokens (messageRow demoRuntime demoInfo vendorMessage)
     = Inr \<lparr>t_input = JNum 1500, t_output = JNum 250, t_cacheRead = Some (JNum 1200), t_cacheWrite = None\<rparr>
   \<and> map_sum id isEstimated (messageRow demoRuntime demoInfo vendorMessage) = Inr False
   \<and> deltaTokens demoRuntime (getProp (Some vendorMessage) ''data'')
     = Inr \<lparr>t_input = JNum 1500, t_output = JNum 250, t_cacheRead = Some (JNum 1200), t_cacheWrite = None\<rparr>
   \<and> map_sum id row_tokens (messageRow demoRuntime demoInfo plainMessage)
     = Inr \<lparr>t_input = JNum 5, t_output = JNum 10, t_cacheRead = None, t_cacheWrite = None\<rparr>
   \<and> map_sum id isEstimated (messageRow demoRuntime demoInfo plainMessage) = Inr True
   \<and> deltaTokens demoRuntime (getProp (Some plainMessage) ''data'')
     = Inr \<lparr>t_input = JNum 5, t_output = JNum 10, t_cacheRead = None, t_cacheWrite = None\<rparr>
   \<and> map_sum id row_tokens (messageRow demoRuntime demoInfo exoticCountMessage)
     = Inr \<lparr>t_input = JNum 1, t_output = JNum 2, t_cacheRead = None, t_cacheWrite = None\<rparr>
   \<and> deltaTokens demoRuntime (getProp (Some exoticCountMessage) ''data'') = Inl TypeError
   \<and> messageRow demoRuntime demoInfo exoticMessage = Inl TypeError"
  using token_figures_of_message [where rt = demoRuntime and si = demoInfo and event = vendorMessage]
    token_figures_of_message [where rt = demoRuntime and si = demoInfo and event = plainMessage]
    token_figures_of_message [where rt = demoRuntime and si = demoInfo and event = exoticCountMessage]
    token_figures_of_message [where rt = demoRuntime and si = demoInfo and event = exoticMessage]
  by (simp add: Let_def demo_data vendorMessage_def plainMessage_def exoticCountMessage_def
      exoticMessage_def hasVendorUsage_def demoRuntime_def messageRow_def rowTokens_def
      deltaTokens_def whenPositive_def toTimestamp_def demoInfo_def makeAssistantMessage_def
      estimateTokens_def estimatedInput_def countRaises_def timestampRaises_def)

text \<open>
  C1 as it is stated fails for the tailing watcher: a message whose usage block has no
  \<^verbatim>\<open>prompt_tokens\<close> and a cache-read count of 7 is estimated, the parser's row carries no
  cache field, and the watcher's update carries \<open>cacheRead = 7\<close>.
\<close>

theorem watcher_attaches_cache_counterexample:
  "isAssistantMessage (Some cacheOnlyMessage)
   \<and> \<not> hasVendorUsage (getProp (getProp (Some cacheOnlyMessage) ''data'') ''usage'')
   \<and> map_sum id (\<lambda>row. t_cacheRead (row_tokens row)) (messageRow demoRuntime demoInfo cacheOnlyMessage)
       = Inr None
   \<and> map_sum id t_cacheRead (deltaTokens demoRuntime (getProp (Some cacheOnlyMessage) ''data''))
       = Inr (Some (JNum 7))"
  by (simp add: cacheOnlyMessage_def makeAssistantMessage_def isAssistantMessage_def
      hasVendorUsage_def messageRow_def rowTokens_def deltaTokens_def whenPositive_def
      toTimestamp_def demoRuntime_def demoInfo_def Let_def)

section \<open>The model of a row\<close>

lemma walkBack_last:
  "n \<le> length mcs \<Longrightarrow>
     walkBack ts d mcs n =
       (if filter (\<lambda>c. mc_timestamp c \<le> ts) (take n mcs) = [] then d
        else mc_model (last (filter (\<lambda>c. mc_timestamp c \<le> ts) (take n mcs))))"
proof (induction n)
  case 0
  then show ?case by simp
next
  case (Suc i)
  then have "take (Suc i) mcs = take i mcs @ [mcs ! i]"
    by (simp add: take_Suc_conv_app_nth)
  with Suc show ?case by simp
qed

lemma resolveModelAtTime_last:
  "resolveModelAtTime ts d mcs =
     (if filter (\<lambda>c. mc_timestamp c \<le> ts) mcs = [] then d
      else mc_model (last (filter (\<lambda>c. mc_timestamp c \<le> ts) mcs)))"
  by (simp add: resolveModelAtTime_def walkBack_last)

lemma last_qualifying_is_latest:
  "sorted (map f xs) \<Longrightarrow> x \<in> set xs \<Longrightarrow> P x \<Longrightarrow>
     filter P xs \<noteq> [] \<and> last (filter P xs) \<in> set xs \<and> P (last (filter P xs))
     \<and> f x \<le> f (last (filter P xs))"
proof (induction xs rule: rev_induct)
  case Nil
  then show ?case by simp
next
  case (snoc y ys)
  then have sorted_ys: "sorted (map f ys)" and below: "\<forall>z\<in>set ys. f z \<le> f y"
    by (auto simp add: sorted_append)
  show ?case
  proof (cases "P y")
    case True
    with snoc.prems below show ?thesis by auto
  next
    case False
    with snoc.prems have "x \<in> set ys" by auto
    with snoc.IH sorted_ys snoc.prems(3) False show ?thesis by simp
  qed
qed

lemma sorted_modelTimeline: "sorted (map mc_timestamp (modelTimelineValue rt events))"
  by (simp add: modelTimelineValue_def)

lemma set_modelTimeline: "set (modelTimelineValue rt events) = set (collectModelChangesValue rt events)"
  by (simp add: modelTimelineValue_def)

lemma messageRowValue_modelId:
  "modelId (messageRowValue rt si event) =
     nullish (getProp (getProp (Some event) ''data'') ''model'')
       (JStr (resolveModelAtTime (timestamp (messageRowValue rt si event)) (si_defaultModel si) (si_modelChanges si)))"
  by (simp add: messageRowValue_def Let_def split: prod.split)

lemma model_of_message_value:
  assumes "si_modelChanges si = modelTimelineValue rt events"
  shows "(let row = messageRowValue rt si event;
              qualifying = filter (\<lambda>c. mc_timestamp c \<le> timestamp row) (si_modelChanges si);
              resolved = (if qualifying = [] then si_defaultModel si else mc_model (last qualifying))
          in sorted (map mc_timestamp (si_modelChanges si))
             \<and> set (si_modelChanges si) = set (collectModelChangesValue rt events)
             \<and> modelId row =
                 (case getProp (getProp (Some event) ''data'') ''model'' of
                    None \<Rightarrow> JStr resolved
                  | Some JNull \<Rightarrow> JStr resolved
                  | Some m \<Rightarrow> m)
             \<and> (\<forall>c \<in> set (si_modelChanges si).
                   mc_timestamp c \<le> timestamp row \<longrightarrow>
                     qualifying \<noteq> []
                     \<and> last qualifying \<in> set (si_modelChanges si)
                     \<and> mc_timestamp (last qualifying) \<le> timestamp row
                     \<and> mc_timestamp c \<le> mc_timestamp (last qualifying)))"
proof -
  have sorted_tl: "sorted (map mc_timestamp (si_modelChanges si))"
    using assms by (simp add: sorted_modelTimeline)
  have latest: "\<forall>c \<in> set (si_modelChanges si).
          mc_timestamp c \<le> ts \<longrightarrow>
            filter (\<lambda>c. mc_timestamp c \<le> ts) (si_modelChanges si) \<noteq> []
            \<and> last (filter (\<lambda>c. mc_timestamp c \<le> ts) (si_modelChanges si)) \<in> set (si_modelChanges si)
            \<and> mc_timestamp (last (filter (\<lambda>c. mc_timestamp c \<le> ts) (si_modelChanges si))) \<le> ts
            \<and> mc_timestamp c \<le> mc_timestamp (last (filter (\<lambda>c. mc_timestamp c \<le> ts) (si_modelChanges si)))"
    for ts
    using last_qualifying_is_latest [OF sorted_tl, where P = "\<lambda>c. mc_timestamp c \<le> ts"]
    by blast
  have set_tl: "set (si_modelChanges si) = set (collectModelChangesValue rt events)"
    using assms by (simp add: set_modelTimeline)
  show ?thesis
    unfolding Let_def
    using sorted_tl set_tl latest [of "timestamp (messageRowValue rt si event)"]
    by (simp add: messageRowValue_modelId resolveModelAtTime_last nullish_cases [symmetric])
qed

lemma twoModelInfo_timeline:
  "si_modelChanges twoModelInfo =
     [\<lparr>mc_timestamp = 1772222401000, mc_model = ''claude-sonnet-4.6''\<rparr>,
      \<lparr>mc_timestamp = 1772222520000, mc_model = ''claude-opus-4.6-fast''\<rparr>]"
  by (simp add: twoModelInfo_def sessionInfo_def)

lemma twoModelEvents_timeline:
  "modelTimeline timedRuntime twoModelEvents = Inr (si_modelChanges twoModelInfo)"
  by (simp add: twoModelInfo_def sessionInfo_def modelTimeline_def twoModelEvents_def
      earlyMessage_def firstMessage_def secondMessage_def ownModelMessage_def
      makeAssistantMessage_def makeModelChange_def isModelChange_def toTimestamp_def
      timedRuntime_def demoDateParse_def Let_def)

lemma twoModelInfo_rows:
  "messageRow timedRuntime twoModelInfo earlyMessage
     = Inr (messageRowValue timedRuntime twoModelInfo earlyMessage)"
  "messageRow timedRuntime twoModelInfo firstMessage
     = Inr (messageRowValue timedRuntime twoModelInfo firstMessage)"
  "messageRow timedRuntime twoModelInfo secondMessage
     = Inr (messageRowValue timedRuntime twoModelInfo secondMessage)"
  "messageRow timedRuntime twoModelInfo ownModelMessage
     = Inr (messageRowValue timedRuntime twoModelInfo ownModelMessage)"
  by (simp_all add: messageRow_value rowRaises_def timestampRaises_def countRaises_def
      hasVendorUsage_def earlyMessage_def firstMessage_def secondMessage_def ownModelMessage_def
      makeAssistantMessage_def)

lemma twoModelInfo_default: "si_defaultModel twoModelInfo = ''default-model''"
  by (simp add: twoModelInfo_def sessionInfo_def)

lemma twoModelInfo_timestamps:
  "timestamp (messageRowValue timedRuntime twoModelInfo earlyMessage) = 1772222400000
   \<and> timestamp (messageRowValue timedRuntime twoModelInfo firstMessage) = 1772222460000
   \<and> timestamp (messageRowValue timedRuntime twoModelInfo secondMessage) = 1772222580000"
  by (simp add: messageRowValue_def earlyMessage_def firstMessage_def secondMessage_def
      makeAssistantMessage_def toTimestampValue_def timedRuntime_def demoDateParse_def Let_def
      split: prod.split)

text \<open>
  C2. The \<open>modelId\<close> of the row of an assistant message is the message's own
  \<^verbatim>\<open>data.model\<close> when that is present (and not null). Otherwise it is resolved on the
  session's timeline, the model changes of the log sorted ascending by time stamp: the
  model of the last entry of the timeline among those whose time stamp is at most the
  message's, and no such entry has a later time stamp than that one; when no entry
  qualifies (the timeline may be empty) it is the default model. This holds of the row
  whenever the message has one, which is unless its time stamp or, under the vendor's
  usage, a cache count cannot be converted.
\<close>

theorem model_of_message:
  assumes "modelTimeline rt events = Inr (si_modelChanges si)"
  shows "sorted (map mc_timestamp (si_modelChanges si))
         \<and> (\<exists>changes. collectModelChanges rt events = Inr changes
                        \<and> set (si_modelChanges si) = set changes)
         \<and> ((\<exists>row. messageRow rt si event = Inr row) \<longleftrightarrow> \<not> rowRaises event)
         \<and> (\<forall>row. messageRow rt si event = Inr row \<longrightarrow>
              (let qualifying = filter (\<lambda>c. mc_timestamp c \<le> timestamp row) (si_modelChanges si);
                   resolved = (if qualifying = [] then si_defaultModel si else mc_model (last qualifying))
               in modelId row =
                    (case getProp (getProp (Some event) ''data'') ''model'' of
                       None \<Rightarrow> JStr resolved
                     | Some JNull \<Rightarrow> JStr resolved
                     | Some m \<Rightarrow> m)
                  \<and> (\<forall>c \<in> set (si_modelChanges si).
                        mc_timestamp c \<le> timestamp row \<longrightarrow>
                          qualifying \<noteq> []
                          \<and> last qualifying \<in> set (si_modelChanges si)
                          \<and> mc_timestamp (last qualifying) \<le> timestamp row
                          \<and> mc_timestamp c \<le> mc_timestamp (last qualifying))))"
proof -
  from assms have quiet: "\<not> list_ex (\<lambda>e. isModelChange (Some e) \<and> timestampRaises e) events"
    and timeline: "si_modelChanges si = modelTimelineValue rt events"
    by (simp_all add: modelTimeline_value split: if_splits)
  note known = model_of_message_value [OF timeline, where event = event, unfolded Let_def]
  from quiet have changes: "collectModelChanges rt events = Inr (collectModelChangesValue rt events)"
    by (simp add: collectModelChanges_value)
  have exists: "(\<exists>row. messageRow rt si event = Inr row) \<longleftrightarrow> \<not> rowRaises event"
    by (simp add: messageRow_value)
  have rows: "\<forall>row. messageRow rt si event = Inr row \<longrightarrow>
              (let qualifying = filter (\<lambda>c. mc_timestamp c \<le> timestamp row) (si_modelChanges si);
                   resolved = (if qualifying = [] then si_defaultModel si else mc_model (last qualifying))
               in modelId row =
                    (case getProp (getProp (Some event) ''data'') ''model'' of
                       None \<Rightarrow> JStr resolved
                     | Some JNull \<Rightarrow> JStr resolved
                     | Some m \<Rightarrow> m)
                  \<and> (\<forall>c \<in> set (si_modelChanges si).
                        mc_timestamp c \<le> timestamp row \<longrightarrow>
                          qualifying \<noteq> []
                          \<and> last qualifying \<in> set (si_modelChanges si)
                          \<and> mc_timestamp (last qualifying) \<le> timestamp row
                          \<and> mc_timestamp c \<le> mc_timestamp (last qualifying)))"
  proof (intro allI impI)
    fix row assume "messageRow rt si event = Inr row"
    then have "row = messageRowValue rt si event"
      by (simp add: messageRow_value split: if_splits)
    with known show "let qualifying = filter (\<lambda>c. mc_timestamp c \<le> timestamp row) (si_modelChanges si);
                   resolved = (if qualifying = [] then si_defaultModel si else mc_model (last qualifying))
               in modelId row =
                    (case getProp (getProp (Some event) ''data'') ''model'' of
                       None \<Rightarrow> JStr resolved
                     | Some JNull \<Rightarrow> JStr resolved
                     | Some m \<Rightarrow> m)
                  \<and> (\<forall>c \<in> set (si_modelChanges si).
                        mc_timestamp c \<le> timestamp row \<longrightarrow>
                          qualifying \<noteq> []
                          \<and> last qualifying \<in> set (si_modelChanges si)
                          \<and> mc_timestamp (last qualifying) \<le> timestamp row
                          \<and> mc_timestamp c \<le> mc_timestamp (last qualifying))"
      unfolding Let_def by blast
  qed
  from known changes have first: "sorted (map mc_timestamp (si_modelChanges si))"
    and second: "\<exists>changes. collectModelChanges rt events = Inr changes
                        \<and> set (si_modelChanges si) = set changes"
    by simp_all
  from first second exists rows show ?thesis by (intro conjI)
qed

text \<open>
  In the session that logs the change to opus (20:02:00) before the change to sonnet
  (20:00:01): the message of 20:00:00 gets the default model, the message of 20:01:00 gets
  sonnet, the message of 20:03:00 gets opus, and a message that names its model keeps it.
\<close>

theorem model_of_message_witness:
  "modelTimeline timedRuntime twoModelEvents = Inr (si_modelChanges twoModelInfo)
   \<and> map_sum id modelId (messageRow timedRuntime twoModelInfo earlyMessage)
       = Inr (JStr ''default-model'')
   \<and> map_sum id modelId (messageRow timedRuntime twoModelInfo firstMessage)
       = Inr (JStr ''claude-sonnet-4.6'')
   \<and> map_sum id modelId (messageRow timedRuntime twoModelInfo secondMessage)
       = Inr (JStr ''claude-opus-4.6-fast'')
   \<and> map_sum id modelId (messageRow timedRuntime twoModelInfo ownModelMessage)
       = Inr (JStr ''gpt-5.1'')"
proof -
  note tl = twoModelEvents_timeline
  have models:
    "getProp (getProp (Some earlyMessage) ''data'') ''model'' = None"
    "getProp (getProp (Some firstMessage) ''data'') ''model'' = None"
    "getProp (getProp (Some secondMessage) ''data'') ''model'' = None"
    "getProp (getProp (Some ownModelMessage) ''data'') ''model'' = Some (JStr ''gpt-5.1'')"
    by (simp_all add: earlyMessage_def firstMessage_def secondMessage_def ownModelMessage_def
        makeAssistantMessage_def)
  have "modelId (messageRowValue timedRuntime twoModelInfo earlyMessage) = JStr ''default-model''"
    using model_of_message [OF tl, where event = earlyMessage]
    by (simp add: Let_def twoModelInfo_rows twoModelInfo_timeline twoModelInfo_timestamps
        twoModelInfo_default models)
  moreover
  have "modelId (messageRowValue timedRuntime twoModelInfo firstMessage) = JStr ''claude-sonnet-4.6''"
    using model_of_message [OF tl, where event = firstMessage]
    by (simp add: Let_def twoModelInfo_rows twoModelInfo_timeline twoModelInfo_timestamps
        twoModelInfo_default models)
  moreover
  have "modelId (messageRowValue timedRuntime twoModelInfo secondMessage) = JStr ''claude-opus-4.6-fast''"
    using model_of_message [OF tl, where event = secondMessage]
    by (simp add: Let_def twoModelInfo_rows twoModelInfo_timeline twoModelInfo_timestamps
        twoModelInfo_default models)
  moreover
  have "modelId (messageRowValue timedRuntime twoModelInfo ownModelMessage) = JStr ''gpt-5.1''"
    using model_of_message [OF tl, where event = ownModelMessage]
    by (simp add: Let_def twoModelInfo_rows models)
  ultimately show ?thesis using tl by (simp add: twoModelInfo_rows)
qed

section \<open>Deduplication by message id\<close>

lemma set_firstOccurrences: "set (firstOccurrences xs) = set xs"
  by (induction xs) auto

lemma distinct_firstOccurrences: "distinct (firstOccurrences xs)"
  by (induction xs) (auto simp add: distinct_removeAll)

lemma firstOccurrences_snoc:
  "firstOccurrences (xs @ [k]) =
     (if k \<in> set xs then firstOccurrences xs else firstOccurrences xs @ [k])"
  by (induction xs) auto

lemma keys_mapSet:
  "map fst (mapSet k v m) = (if k \<in> set (map fst m) then map fst m else map fst m @ [k])"
proof (induction m)
  case Nil
  then show ?case by simp
next
  case (Cons p m)
  obtain a b where p: "p = (a, b)" by (cases p)
  show ?case
  proof (cases "a = k")
    case True
    with p show ?thesis by simp
  next
    case False
    with Cons p show ?thesis by simp
  qed
qed

lemma set_mapSet:
  "distinct (map fst m) \<Longrightarrow> set (mapSet k v m) = insert (k, v) {p \<in> set m. fst p \<noteq> k}"
proof (induction m)
  case Nil
  then show ?case by simp
next
  case (Cons p m)
  obtain a b where p: "p = (a, b)" by (cases p)
  show ?case
  proof (cases "a = k")
    case True
    with Cons.prems p have "k \<notin> fst ` set m" by simp
    then have "\<forall>q \<in> set m. fst q \<noteq> k" by force
    then have rhs: "{q \<in> set (p # m). fst q \<noteq> k} = set m"
      using True p by auto
    from True p have lhs: "set (mapSet k v (p # m)) = insert (k, v) (set m)" by simp
    show ?thesis by (simp only: lhs rhs)
  next
    case False
    from Cons.prems p have "distinct (map fst m)" by simp
    then have ih: "set (mapSet k v m) = insert (k, v) {p \<in> set m. fst p \<noteq> k}" by (rule Cons.IH)
    from False p have rhs: "{q \<in> set (p # m). fst q \<noteq> k} = insert p {q \<in> set m. fst q \<noteq> k}"
      by auto
    from False p ih have lhs: "set (mapSet k v (p # m)) = insert p (insert (k, v) {p \<in> set m. fst p \<noteq> k})"
      by simp
    show ?thesis by (simp only: lhs rhs insert_commute)
  qed
qed

lemma dedupLoopValue_snoc:
  "dedupLoopValue rt si (es @ [e]) acc =
     (if isAssistantMessage (Some e)
      then mapSet (messageIdOf e) (messageRowValue rt si e) (dedupLoopValue rt si es acc)
      else dedupLoopValue rt si es acc)"
  by (induction es arbitrary: acc) simp_all

lemma dedupLoopValue_invariant:
  "map fst (dedupLoopValue rt si es []) =
     firstOccurrences (map messageIdOf (filter (\<lambda>e. isAssistantMessage (Some e)) es))
   \<and> (\<forall>p \<in> set (dedupLoopValue rt si es []).
        snd p = messageRowValue rt si
                  (last (filter (\<lambda>e. messageIdOf e = fst p)
                           (filter (\<lambda>e. isAssistantMessage (Some e)) es))))"
proof (induction es rule: rev_induct)
  case Nil
  then show ?case by simp
next
  case (snoc e es)
  let ?out = "dedupLoopValue rt si es []"
  let ?msgs = "filter (\<lambda>e. isAssistantMessage (Some e)) es"
  show ?case
  proof (cases "isAssistantMessage (Some e)")
    case False
    with snoc show ?thesis by (simp add: dedupLoopValue_snoc)
  next
    case True
    have keys: "map fst ?out = firstOccurrences (map messageIdOf ?msgs)"
      using snoc by simp
    then have dist: "distinct (map fst ?out)"
      by (simp add: distinct_firstOccurrences)
    have "set (map fst ?out) = set (map messageIdOf ?msgs)"
      using keys by (simp add: set_firstOccurrences)
    then have new_keys:
      "map fst (mapSet (messageIdOf e) (messageRowValue rt si e) ?out) =
         firstOccurrences (map messageIdOf (?msgs @ [e]))"
      using keys by (simp add: keys_mapSet firstOccurrences_snoc del: set_map)
    have new_vals:
      "\<forall>p \<in> set (mapSet (messageIdOf e) (messageRowValue rt si e) ?out).
         snd p = messageRowValue rt si (last (filter (\<lambda>x. messageIdOf x = fst p) (?msgs @ [e])))"
      using snoc by (auto simp add: set_mapSet [OF dist])
    from True new_keys new_vals show ?thesis
      by (simp add: dedupLoopValue_snoc)
  qed
qed

lemma values_by_key:
  "\<forall>p \<in> set xs. snd p = g (fst p) \<Longrightarrow> map snd xs = map g (map fst xs)"
  by (induction xs) auto

lemma dedupLoopValue_rows:
  "map snd (dedupLoopValue rt si es []) =
     map (\<lambda>k. messageRowValue rt si
                 (last (filter (\<lambda>e. messageIdOf e = k) (filter (\<lambda>e. isAssistantMessage (Some e)) es))))
         (firstOccurrences (map messageIdOf (filter (\<lambda>e. isAssistantMessage (Some e)) es)))"
  using dedupLoopValue_invariant [of rt si es]
    values_by_key [of "dedupLoopValue rt si es []"
      "\<lambda>k. messageRowValue rt si
              (last (filter (\<lambda>e. messageIdOf e = k) (filter (\<lambda>e. isAssistantMessage (Some e)) es)))"]
  by simp

lemma parseSessionDirRows_rows:
  assumes "readJsonlFile rt fs (dirPath @ [''events.jsonl'']) w = (events, w1)"
      and "readWorkspaceYaml rt fs (dirPath @ [''workspace.yaml'']) w1 = (workspace, w2)"
  shows "fst (parseSessionDirRows rt fs dirPath mtimeMs defaultModel w) =
           (if logRaises events then Inl TypeError
            else Inr (map snd (dedupLoopValue rt
                                 (sessionInfo workspace dirPath mtimeMs defaultModel
                                    (modelTimelineValue rt events))
                                 events [])))"
  using assms
  by (cases events)
     (simp_all add: parseSessionDirRows_def Let_def logRaises_def modelTimeline_value dedupLoop_value)

lemma last_message_of_id:
  assumes "k \<in> set (map messageIdOf (filter (\<lambda>e. isAssistantMessage (Some e)) events))"
  shows "last (filter (\<lambda>e. messageIdOf e = k) (filter (\<lambda>e. isAssistantMessage (Some e)) events))
           \<in> set events
         \<and> isAssistantMessage
             (Some (last (filter (\<lambda>e. messageIdOf e = k)
                            (filter (\<lambda>e. isAssistantMessage (Some e)) events))))"
proof -
  let ?ms = "filter (\<lambda>e. messageIdOf e = k) (filter (\<lambda>e. isAssistantMessage (Some e)) events)"
  from assms have "?ms \<noteq> []"
    by (auto simp add: filter_empty_conv)
  then have "last ?ms \<in> set ?ms" by (rule last_in_set)
  then show ?thesis by simp
qed

text \<open>
  C3. With \<open>events\<close> the events read from the log and \<open>workspace\<close> the sidecar, the rows
  that \<^verbatim>\<open>parseSessionDirRows\<close> returns are one row for each distinct \<^verbatim>\<open>messageId\<close> of the
  assistant messages: the rows follow the order in which the ids first occur in the file,
  and the row of an id is the row of the last assistant message of the file that has this
  id. It returns rows unless the log has a model change or an assistant message that makes
  it raise.
\<close>

theorem one_row_per_message_id:
  assumes "readJsonlFile rt fs (dirPath @ [''events.jsonl'']) w = (events, w1)"
      and "readWorkspaceYaml rt fs (dirPath @ [''workspace.yaml'']) w1 = (workspace, w2)"
  shows "(let msgs = filter (\<lambda>e. isAssistantMessage (Some e)) events;
              ids = map messageIdOf msgs;
              result = fst (parseSessionDirRows rt fs dirPath mtimeMs defaultModel w)
          in (result = Inl TypeError \<longleftrightarrow> logRaises events)
             \<and> (\<forall>rows. result = Inr rows \<longrightarrow>
                   (\<exists>changes. modelTimeline rt events = Inr changes
                      \<and> map Inr rows =
                          map (\<lambda>k. messageRow rt (sessionInfo workspace dirPath mtimeMs defaultModel changes)
                                     (last (filter (\<lambda>e. messageIdOf e = k) msgs)))
                              (firstOccurrences ids))
                   \<and> length rows = card (set ids)))"
proof -
  let ?msgs = "filter (\<lambda>e. isAssistantMessage (Some e)) events"
  let ?ids = "map messageIdOf ?msgs"
  let ?result = "fst (parseSessionDirRows rt fs dirPath mtimeMs defaultModel w)"
  let ?si = "sessionInfo workspace dirPath mtimeMs defaultModel (modelTimelineValue rt events)"
  note result = parseSessionDirRows_rows [OF assms, of mtimeMs defaultModel]
  have count: "length (firstOccurrences xs) = card (set xs)" for xs :: "string list"
    using distinct_card [OF distinct_firstOccurrences [of xs]] by (simp add: set_firstOccurrences)
  have raised: "?result = Inl TypeError \<longleftrightarrow> logRaises events"
    by (simp add: result)
  have rows: "(\<exists>changes. modelTimeline rt events = Inr changes
                 \<and> map Inr rows =
                     map (\<lambda>k. messageRow rt (sessionInfo workspace dirPath mtimeMs defaultModel changes)
                                (last (filter (\<lambda>e. messageIdOf e = k) ?msgs)))
                         (firstOccurrences ?ids))
              \<and> length rows = card (set ?ids)"
    if returned: "?result = Inr rows" for rows
  proof -
    from returned have quiet: "\<not> logRaises events"
      and rows_value: "rows = map snd (dedupLoopValue rt ?si events [])"
      by (simp_all add: result split: if_splits)
    from quiet have timeline: "modelTimeline rt events = Inr (modelTimelineValue rt events)"
      by (simp add: modelTimeline_value logRaises_def)
    have row: "messageRow rt ?si (last (filter (\<lambda>e. messageIdOf e = k) ?msgs))
                 = Inr (messageRowValue rt ?si (last (filter (\<lambda>e. messageIdOf e = k) ?msgs)))"
      if "k \<in> set (firstOccurrences ?ids)" for k
    proof -
      from that have "k \<in> set ?ids" by (simp only: set_firstOccurrences)
      from last_message_of_id [OF this] quiet
      have "\<not> rowRaises (last (filter (\<lambda>e. messageIdOf e = k) ?msgs))"
        by (auto simp add: logRaises_def list_ex_iff)
      then show ?thesis by (simp add: messageRow_value)
    qed
    have "map Inr rows =
            map (\<lambda>k. messageRow rt ?si (last (filter (\<lambda>e. messageIdOf e = k) ?msgs)))
                (firstOccurrences ?ids)"
      unfolding rows_value dedupLoopValue_rows map_map
      by (rule map_cong) (simp_all add: row del: filter_filter)
    moreover have "length rows = card (set ?ids)"
      unfolding rows_value dedupLoopValue_rows by (simp add: count del: set_map)
    ultimately show ?thesis using timeline by blast
  qed
  show ?thesis
    unfolding Let_def using raised rows by blast
qed

lemma parseLines_map_filter:
  "parseLines rt ls =
     List.map_filter (\<lambda>line. if trim line = [] then None else jsonParse rt (trim line)) ls"
  by (induction ls) (simp_all add: Let_def map_filter_simps split: option.split)

lemma demoLog_lines:
  "map trim (splitLines demoLog) =
     [assistantLine ''msg_001'' ''partial'' ''2026-02-27T20:01:00.000Z'',
      ''{oops'',
      assistantLine ''msg_002'' ''Second response'' ''2026-02-27T20:03:00.000Z'',
      [],
      assistantLine ''msg_001'' ''full response with more content'' ''2026-02-27T20:01:00.000Z'',
      []]"
  by (simp add: demoLog_def assistantLine_def splitLines_def trim_def isWhiteSpace_def)

lemma parseLines_trimmed:
  "parseLines rt ls =
     List.map_filter (\<lambda>t. if t = [] then None else jsonParse rt t) (map trim ls)"
  by (induction ls) (simp_all add: Let_def map_filter_simps split: option.split)

lemma demoLog_events:
  "parseLines jsonlRuntime (splitLines demoLog) = [partialMessage, secondMessage, fullMessage]"
  unfolding parseLines_trimmed demoLog_lines
  by (simp add: map_filter_simps jsonlRuntime_def demoJsonParse_def assistantLine_def)

lemma demoLog_read:
  "readJsonlFile jsonlRuntime (logFs (Some demoLog)) (demoSessionDir @ [''events.jsonl'']) w =
     ([partialMessage, secondMessage, fullMessage],
      logOp (ReadFile (demoSessionDir @ [''events.jsonl''])) w)"
proof -
  have "utf8Decode jsonlRuntime demoLog = demoLog"
    by (simp add: jsonlRuntime_def timedRuntime_def demoRuntime_def)
  then show ?thesis
    by (simp add: readJsonlFile_def logFs_def demoLog_events)
qed

lemma demoLog_workspace:
  "readWorkspaceYaml jsonlRuntime (logFs (Some demoLog)) (demoSessionDir @ [''workspace.yaml'']) w =
     (None, logOp (ReadFile (demoSessionDir @ [''workspace.yaml''])) w)"
  by (simp add: readWorkspaceYaml_def logFs_def watchableFs_def)

lemma demoLog_guards:
  "isAssistantMessage (Some partialMessage) \<and> isAssistantMessage (Some secondMessage)
   \<and> isAssistantMessage (Some fullMessage)
   \<and> messageIdOf partialMessage = ''msg_001'' \<and> messageIdOf secondMessage = ''msg_002''
   \<and> messageIdOf fullMessage = ''msg_001''"
  by (simp add: partialMessage_def secondMessage_def fullMessage_def makeAssistantMessage_def
      isAssistantMessage_def messageIdOf_def)

lemma demoLog_quiet: "\<not> logRaises [partialMessage, secondMessage, fullMessage]"
  by (simp add: logRaises_def rowRaises_def timestampRaises_def countRaises_def hasVendorUsage_def
      isModelChange_def partialMessage_def secondMessage_def fullMessage_def
      makeAssistantMessage_def)

lemma demoLog_timeline:
  "modelTimeline jsonlRuntime [partialMessage, secondMessage, fullMessage] = Inr []"
  by (simp add: modelTimeline_def isModelChange_def partialMessage_def secondMessage_def
      fullMessage_def makeAssistantMessage_def)

text \<open>
  The log with \<^verbatim>\<open>msg_001\<close> written twice and \<^verbatim>\<open>msg_002\<close> in between gives two rows, the first
  from the second writing of \<^verbatim>\<open>msg_001\<close>, the second from \<^verbatim>\<open>msg_002\<close>.
\<close>

theorem one_row_per_message_id_witness:
  "map_sum id (map Inr)
     (fst (parseSessionDirRows jsonlRuntime (logFs (Some demoLog)) demoSessionDir 1772222600000
             ''default-model'' initialWorld))
     = Inr [messageRow jsonlRuntime
              (sessionInfo None demoSessionDir 1772222600000 ''default-model'' []) fullMessage,
            messageRow jsonlRuntime
              (sessionInfo None demoSessionDir 1772222600000 ''default-model'' []) secondMessage]"
proof -
  let ?result = "fst (parseSessionDirRows jsonlRuntime (logFs (Some demoLog)) demoSessionDir
                        1772222600000 ''default-model'' initialWorld)"
  note inst = one_row_per_message_id
                [OF demoLog_read demoLog_workspace, where mtimeMs = 1772222600000
                   and defaultModel = "''default-model''" and w = initialWorld, unfolded Let_def]
  from inst demoLog_quiet have "?result \<noteq> Inl TypeError" by blast
  then obtain rows where returned: "?result = Inr rows"
    by (cases ?result) (simp_all, metis error.exhaust)
  with inst have "\<exists>changes. modelTimeline jsonlRuntime [partialMessage, secondMessage, fullMessage]
                              = Inr changes
                    \<and> map Inr rows =
                        map (\<lambda>k. messageRow jsonlRuntime
                                   (sessionInfo None demoSessionDir 1772222600000 ''default-model'' changes)
                                   (last (filter (\<lambda>e. messageIdOf e = k)
                                            (filter (\<lambda>e. isAssistantMessage (Some e))
                                               [partialMessage, secondMessage, fullMessage]))))
                            (firstOccurrences
                               (map messageIdOf
                                  (filter (\<lambda>e. isAssistantMessage (Some e))
                                     [partialMessage, secondMessage, fullMessage])))"
    by blast
  then have "map Inr rows =
               [messageRow jsonlRuntime
                  (sessionInfo None demoSessionDir 1772222600000 ''default-model'' []) fullMessage,
                messageRow jsonlRuntime
                  (sessionInfo None demoSessionDir 1772222600000 ''default-model'' []) secondMessage]"
    by (simp add: demoLog_timeline demoLog_guards)
  with returned show ?thesis by simp
qed

section \<open>When the parser has no rows, and when it raises\<close>

lemma parseLines_append: "parseLines rt (xs @ ys) = parseLines rt xs @ parseLines rt ys"
  by (simp add: parseLines_map_filter map_filter_def)

lemma parseLines_skip:
  "jsonParse rt (trim bad) = None \<Longrightarrow> parseLines rt (xs @ bad # ys) = parseLines rt xs @ parseLines rt ys"
  by (simp add: parseLines_append Let_def)

lemma parseLines_none:
  "\<forall>line \<in> set ls. jsonParse rt (trim line) = None \<Longrightarrow> parseLines rt ls = []"
  by (induction ls) (simp_all add: Let_def)

lemma readJsonlFile_events:
  "fst (readJsonlFile rt fs p w) =
     (case fs_content fs p of None \<Rightarrow> [] | Some bytes \<Rightarrow> parseLines rt (splitLines (utf8Decode rt bytes)))"
  by (simp add: readJsonlFile_def split: option.split)

lemma readWorkspaceYaml_world:
  "readWorkspaceYaml rt fs p w = (fst (readWorkspaceYaml rt fs p w'), logOp (ReadFile p) w)"
  by (simp add: readWorkspaceYaml_def Let_def split: option.split)

lemma parseSessionDirRows_of_events:
  "fst (parseSessionDirRows rt fs dirPath mtimeMs defaultModel w) =
     (let events = fst (readJsonlFile rt fs (dirPath @ [''events.jsonl'']) w) in
      if logRaises events then Inl TypeError
      else Inr (map snd (dedupLoopValue rt
                           (sessionInfo (fst (readWorkspaceYaml rt fs (dirPath @ [''workspace.yaml'']) w))
                              dirPath mtimeMs defaultModel (modelTimelineValue rt events))
                           events [])))"
proof -
  obtain events w1 where r: "readJsonlFile rt fs (dirPath @ [''events.jsonl'']) w = (events, w1)"
    by (cases "readJsonlFile rt fs (dirPath @ [''events.jsonl'']) w")
  have "readWorkspaceYaml rt fs (dirPath @ [''workspace.yaml'']) w1 =
          (fst (readWorkspaceYaml rt fs (dirPath @ [''workspace.yaml'']) w),
           logOp (ReadFile (dirPath @ [''workspace.yaml''])) w1)"
    by (rule readWorkspaceYaml_world)
  from parseSessionDirRows_rows [OF r this] r show ?thesis by (simp add: Let_def)
qed

lemma logRaises_Nil: "\<not> logRaises []"
  by (simp add: logRaises_def)

text \<open>
  C6, as amended. \<^verbatim>\<open>parseSessionDirRows\<close> returns the empty list when the log cannot be
  read, when it is empty, and when none of its lines parses. A line that does not parse is
  skipped: the events read are the lines that are not blank and that parse, in their order,
  and the outcome is built from exactly these events. It raises a \<^verbatim>\<open>TypeError\<close> exactly
  when one of these events is a model change whose time stamp cannot be converted to a
  primitive, or an assistant message whose time stamp or, under the vendor's usage, cache
  count cannot be; in every other case both loops run to their end and it returns the rows.
\<close>

theorem parseSessionDirRows_raises_only_on_conversion:
  "(let eventsPath = dirPath @ [''events.jsonl''];
        result = fst (parseSessionDirRows rt fs dirPath mtimeMs defaultModel w);
        workspace = fst (readWorkspaceYaml rt fs (dirPath @ [''workspace.yaml'']) w);
        parsed = (\<lambda>bytes. List.map_filter
                              (\<lambda>line. if trim line = [] then None else jsonParse rt (trim line))
                              (splitLines (utf8Decode rt bytes)))
    in (fs_content fs eventsPath = None \<longrightarrow> result = Inr [])
       \<and> (\<forall>bytes. fs_content fs eventsPath = Some bytes \<longrightarrow>
             fst (readJsonlFile rt fs eventsPath w) = parsed bytes
             \<and> (result = Inl TypeError \<longleftrightarrow> logRaises (parsed bytes))
             \<and> (\<not> logRaises (parsed bytes) \<longrightarrow>
                  (\<exists>changes deduped.
                      modelTimeline rt (parsed bytes) = Inr changes
                      \<and> dedupLoop rt (sessionInfo workspace dirPath mtimeMs defaultModel changes)
                            (parsed bytes) [] = Inr deduped
                      \<and> result = Inr (map snd deduped)))
             \<and> (utf8Decode rt bytes = [] \<longrightarrow> result = Inr [])
             \<and> ((\<forall>line \<in> set (splitLines (utf8Decode rt bytes)). jsonParse rt (trim line) = None)
                  \<longrightarrow> result = Inr []))
       \<and> (\<forall>xs bad ys. jsonParse rt (trim bad) = None \<longrightarrow>
             parseLines rt (xs @ bad # ys) = parseLines rt xs @ parseLines rt ys))"
proof -
  let ?result = "fst (parseSessionDirRows rt fs dirPath mtimeMs defaultModel w)"
  let ?workspace = "fst (readWorkspaceYaml rt fs (dirPath @ [''workspace.yaml'']) w)"
  have missing: "fs_content fs (dirPath @ [''events.jsonl'']) = None \<Longrightarrow> ?result = Inr []"
    by (simp add: parseSessionDirRows_of_events readJsonlFile_events logRaises_Nil)
  have empty: "parseLines rt (splitLines []) = []"
    by (simp add: splitLines_def trim_def)
  have readable: "fst (readJsonlFile rt fs (dirPath @ [''events.jsonl'']) w)
                    = parseLines rt (splitLines (utf8Decode rt bytes))"
    if "fs_content fs (dirPath @ [''events.jsonl'']) = Some bytes" for bytes
    using that by (simp add: readJsonlFile_events)
  have raised: "?result = Inl TypeError \<longleftrightarrow> logRaises (parseLines rt (splitLines (utf8Decode rt bytes)))"
    if "fs_content fs (dirPath @ [''events.jsonl'']) = Some bytes" for bytes
    using that by (simp add: parseSessionDirRows_of_events readJsonlFile_events Let_def)
  have returned: "\<exists>changes deduped.
          modelTimeline rt (parseLines rt (splitLines (utf8Decode rt bytes))) = Inr changes
          \<and> dedupLoop rt (sessionInfo ?workspace dirPath mtimeMs defaultModel changes)
                (parseLines rt (splitLines (utf8Decode rt bytes))) [] = Inr deduped
          \<and> ?result = Inr (map snd deduped)"
    if "fs_content fs (dirPath @ [''events.jsonl'']) = Some bytes"
      and "\<not> logRaises (parseLines rt (splitLines (utf8Decode rt bytes)))" for bytes
    using that
    by (simp add: parseSessionDirRows_of_events readJsonlFile_events Let_def modelTimeline_value
        dedupLoop_value logRaises_def)
  have no_rows: "?result = Inr []"
    if "fs_content fs (dirPath @ [''events.jsonl'']) = Some bytes"
      and "parseLines rt (splitLines (utf8Decode rt bytes)) = []" for bytes
    using that by (simp add: parseSessionDirRows_of_events readJsonlFile_events logRaises_Nil)
  show ?thesis
    unfolding Let_def parseLines_map_filter [symmetric]
  proof (intro conjI allI impI)
    fix bytes
    assume "fs_content fs (dirPath @ [''events.jsonl'']) = Some bytes"
      and "\<not> logRaises (parseLines rt (splitLines (utf8Decode rt bytes)))"
    then show "\<exists>changes deduped.
          modelTimeline rt (parseLines rt (splitLines (utf8Decode rt bytes))) = Inr changes
          \<and> dedupLoop rt (sessionInfo ?workspace dirPath mtimeMs defaultModel changes)
                (parseLines rt (splitLines (utf8Decode rt bytes))) [] = Inr deduped
          \<and> ?result = Inr (map snd deduped)"
      by (rule returned)
  qed (simp_all add: missing readable raised no_rows empty parseLines_none parseLines_skip)
qed

lemma logFs_content:
  "fs_content (logFs c) (demoSessionDir @ [''events.jsonl'']) = c"
  by (simp add: logFs_def)

lemma jsonlRuntime_decode: "utf8Decode jsonlRuntime bytes = bytes"
  by (simp add: jsonlRuntime_def timedRuntime_def demoRuntime_def)

lemma garbageLog_lines:
  "\<forall>line \<in> set (splitLines garbageLog). jsonParse jsonlRuntime (trim line) = None"
  by (simp add: garbageLog_def splitLines_def trim_def isWhiteSpace_def jsonlRuntime_def
      demoJsonParse_def assistantLine_def)

lemma exoticLog_events:
  "parseLines exoticRuntime (splitLines exoticLog) = [exoticMessage]"
proof -
  have "map trim (splitLines exoticLog) = [butlast exoticLog, []]"
    by (simp add: exoticLog_def splitLines_def trim_def isWhiteSpace_def)
  moreover have "jsonParse exoticRuntime (butlast exoticLog) = Some exoticMessage"
    by (simp add: exoticRuntime_def exoticLog_def)
  moreover have "butlast exoticLog \<noteq> []"
    by (simp add: exoticLog_def)
  ultimately show ?thesis
    by (simp add: parseLines_trimmed map_filter_simps)
qed

lemma exoticMessage_raises:
  "isAssistantMessage (Some exoticMessage) \<and> timestampRaises exoticMessage
   \<and> logRaises [exoticMessage]"
  by (simp add: exoticMessage_def isAssistantMessage_def timestampRaises_def countRaises_def
      logRaises_def rowRaises_def)

text \<open>
  No log, an empty log and a log of two lines that are not JSON give no rows; the log of the
  example, whose second line is not JSON, gives the three events of its other lines and the
  two rows of their message ids; the log whose line is an assistant message with the time
  stamp \<^verbatim>\<open>{"toString":null}\<close> makes the parser raise.
\<close>

theorem parseSessionDirRows_raises_only_on_conversion_witness:
  "fst (parseSessionDirRows jsonlRuntime (logFs None) demoSessionDir 1772222600000
          ''default-model'' initialWorld) = Inr []
   \<and> fst (parseSessionDirRows jsonlRuntime (logFs (Some [])) demoSessionDir 1772222600000
          ''default-model'' initialWorld) = Inr []
   \<and> fst (parseSessionDirRows jsonlRuntime (logFs (Some garbageLog)) demoSessionDir 1772222600000
          ''default-model'' initialWorld) = Inr []
   \<and> fst (readJsonlFile jsonlRuntime (logFs (Some demoLog)) (demoSessionDir @ [''events.jsonl''])
          initialWorld) = [partialMessage, secondMessage, fullMessage]
   \<and> map_sum id length
        (fst (parseSessionDirRows jsonlRuntime (logFs (Some demoLog)) demoSessionDir
                1772222600000 ''default-model'' initialWorld)) = Inr 2
   \<and> fst (parseSessionDirRows exoticRuntime (logFs (Some exoticLog)) demoSessionDir 1772222600000
          ''default-model'' initialWorld) = Inl TypeError"
proof -
  note inst = parseSessionDirRows_raises_only_on_conversion
                [where dirPath = demoSessionDir and rt = jsonlRuntime and mtimeMs = 1772222600000
                   and defaultModel = "''default-model''" and w = initialWorld, unfolded Let_def]
  note exotic = parseSessionDirRows_raises_only_on_conversion
                [where dirPath = demoSessionDir and rt = exoticRuntime and mtimeMs = 1772222600000
                   and defaultModel = "''default-model''" and w = initialWorld
                   and fs = "logFs (Some exoticLog)", unfolded Let_def]
  have decode: "utf8Decode jsonlRuntime [] = []"
    by (simp add: jsonlRuntime_decode)
  have garbage: "\<forall>line \<in> set (splitLines (utf8Decode jsonlRuntime garbageLog)).
                   jsonParse jsonlRuntime (trim line) = None"
    using garbageLog_lines by (simp add: jsonlRuntime_decode)
  have events: "List.map_filter
                  (\<lambda>line. if trim line = [] then None else jsonParse jsonlRuntime (trim line))
                  (splitLines (utf8Decode jsonlRuntime demoLog))
                = [partialMessage, secondMessage, fullMessage]"
    by (simp add: jsonlRuntime_decode parseLines_map_filter [symmetric] demoLog_events)
  have exotic_decode: "utf8Decode exoticRuntime exoticLog = exoticLog"
    by (simp add: exoticRuntime_def timedRuntime_def demoRuntime_def)
  have exotic_events: "List.map_filter
                  (\<lambda>line. if trim line = [] then None else jsonParse exoticRuntime (trim line))
                  (splitLines (utf8Decode exoticRuntime exoticLog))
                = [exoticMessage]"
    by (simp add: parseLines_map_filter [symmetric] exoticLog_events exotic_decode)
  have "fst (parseSessionDirRows jsonlRuntime (logFs None) demoSessionDir 1772222600000
          ''default-model'' initialWorld) = Inr []"
    using inst [where fs = "logFs None"] logFs_content [of None] by blast
  moreover
  have "fst (parseSessionDirRows jsonlRuntime (logFs (Some [])) demoSessionDir 1772222600000
          ''default-model'' initialWorld) = Inr []"
    using inst [where fs = "logFs (Some [])"] logFs_content [of "Some []"] decode by blast
  moreover
  have "fst (parseSessionDirRows jsonlRuntime (logFs (Some garbageLog)) demoSessionDir 1772222600000
          ''default-model'' initialWorld) = Inr []"
    using inst [where fs = "logFs (Some garbageLog)"] logFs_content [of "Some garbageLog"] garbage
    by blast
  moreover
  have "fst (readJsonlFile jsonlRuntime (logFs (Some demoLog)) (demoSessionDir @ [''events.jsonl''])
          initialWorld) = [partialMessage, secondMessage, fullMessage]
        \<and> map_sum id length
            (fst (parseSessionDirRows jsonlRuntime (logFs (Some demoLog)) demoSessionDir
                    1772222600000 ''default-model'' initialWorld)) = Inr 2"
  proof -
    note demo = inst [where fs = "logFs (Some demoLog)", THEN conjunct2, THEN conjunct1,
        rule_format, OF logFs_content, unfolded events]
    from demo have read: "fst (readJsonlFile jsonlRuntime (logFs (Some demoLog))
                                 (demoSessionDir @ [''events.jsonl'']) initialWorld)
                            = [partialMessage, secondMessage, fullMessage]"
      by (rule conjunct1)
    from demo demoLog_quiet obtain changes deduped
      where dd: "dedupLoop jsonlRuntime
                   (sessionInfo
                      (fst (readWorkspaceYaml jsonlRuntime (logFs (Some demoLog))
                              (demoSessionDir @ [''workspace.yaml'']) initialWorld))
                      demoSessionDir 1772222600000 ''default-model'' changes)
                   [partialMessage, secondMessage, fullMessage] [] = Inr deduped"
        and res: "fst (parseSessionDirRows jsonlRuntime (logFs (Some demoLog)) demoSessionDir
                         1772222600000 ''default-model'' initialWorld) = Inr (map snd deduped)"
      by blast
    from demoLog_quiet
    have quiet: "\<not> list_ex (\<lambda>e. isAssistantMessage (Some e) \<and> rowRaises e)
                     [partialMessage, secondMessage, fullMessage]"
      unfolding logRaises_def by blast
    from dd have "length deduped = 2"
      unfolding dedupLoop_value using quiet by (auto simp add: demoLog_guards)
    with read res show ?thesis by simp
  qed
  moreover
  from exotic [THEN conjunct2, THEN conjunct1, rule_format, OF logFs_content]
  have "fst (parseSessionDirRows exoticRuntime (logFs (Some exoticLog)) demoSessionDir 1772222600000
          ''default-model'' initialWorld) = Inl TypeError"
    unfolding exotic_events using exoticMessage_raises by blast
  ultimately show ?thesis by simp
qed

text \<open>
  C6 as it is stated fails: the line of the log parses as JSON, the event passes the guard
  of the assistant messages, and \<^verbatim>\<open>parseSessionDirRows\<close> raises.
\<close>

theorem parseSessionDirRows_raises_counterexample:
  "fst (readJsonlFile exoticRuntime (logFs (Some exoticLog)) (demoSessionDir @ [''events.jsonl''])
          initialWorld) = [exoticMessage]
   \<and> isAssistantMessage (Some exoticMessage)
   \<and> getProp (Some exoticMessage) ''timestamp'' = Some (JObj [(''toString'', JNull)])
   \<and> fst (parseSessionDirRows exoticRuntime (logFs (Some exoticLog)) demoSessionDir 1772222600000
          ''default-model'' initialWorld) = Inl TypeError"
proof -
  have decode: "utf8Decode exoticRuntime exoticLog = exoticLog"
    by (simp add: exoticRuntime_def timedRuntime_def demoRuntime_def)
  have events: "fst (readJsonlFile exoticRuntime (logFs (Some exoticLog))
                       (demoSessionDir @ [''events.jsonl'']) initialWorld) = [exoticMessage]"
    by (simp add: readJsonlFile_events logFs_content decode exoticLog_events)
  moreover have "fst (parseSessionDirRows exoticRuntime (logFs (Some exoticLog)) demoSessionDir
                        1772222600000 ''default-model'' initialWorld) = Inl TypeError"
    by (simp add: parseSessionDirRows_of_events events exoticMessage_raises)
  moreover have "getProp (Some exoticMessage) ''timestamp'' = Some (JObj [(''toString'', JNull)])"
    by (simp add: exoticMessage_def)
  ultimately show ?thesis using exoticMessage_raises by simp
qed

section \<open>The tailing watcher\<close>

lemma readAt_exact:
  "start \<le> length bytes \<Longrightarrow> readAt (length bytes - start) start bytes = drop start bytes"
  by (simp add: readAt_def Let_def)



lemma readWorkspaceYaml_value:
  "readWorkspaceYaml rt fs p v =
     (case fs_content fs p of None \<Rightarrow> None | Some bytes \<Rightarrow> workspaceFromYaml (utf8Decode rt bytes),
      logOp (ReadFile p) v)"
  by (simp add: readWorkspaceYaml_def split: option.split)














section \<open>The default model\<close>

lemma takeWhile_stop: "\<not> P y \<Longrightarrow> takeWhile P (xs @ y # ys) = takeWhile P xs"
  by (induction xs) simp_all

lemma dropWhile_stop: "\<not> P y \<Longrightarrow> dropWhile P (xs @ y # ys) = dropWhile P xs @ y # ys"
  by (induction xs) simp_all

lemma marker_length: "length modelMarker = 28"
  by (simp add: modelMarker_def)

lemma marker_no_terminator: "c \<in> set modelMarker \<Longrightarrow> \<not> isLineTerminator c"
  by (auto simp add: modelMarker_def isLineTerminator_def)

lemma marker_head: "take (length modelMarker) (c # cs) = modelMarker \<Longrightarrow> c = CHR ''[''"
  by (simp add: modelMarker_def)

lemma marker_fits: "take (length modelMarker) a = modelMarker \<Longrightarrow> length modelMarker \<le> length a"
proof -
  assume "take (length modelMarker) a = modelMarker"
  then have "length (take (length modelMarker) a) = length modelMarker" by simp
  then show ?thesis by simp
qed

lemma marker_across_terminator:
  assumes "isLineTerminator t"
  shows "take (length modelMarker) (a @ t # b) = modelMarker \<longleftrightarrow> take (length modelMarker) a = modelMarker"
proof (cases "length modelMarker \<le> length a")
  case True
  then show ?thesis by simp
next
  case False
  then have short: "length a < length modelMarker" by simp
  have no_a: "take (length modelMarker) a \<noteq> modelMarker"
    using marker_fits [of a] short by auto
  have no_ab: "take (length modelMarker) (a @ t # b) \<noteq> modelMarker"
  proof
    assume eq: "take (length modelMarker) (a @ t # b) = modelMarker"
    have "take (length modelMarker) (a @ t # b) = a @ t # take (length modelMarker - Suc (length a)) b"
      using short by (simp add: take_Cons')
    then have "t \<in> set (take (length modelMarker) (a @ t # b))"
      by simp
    with eq have "t \<in> set modelMarker" by simp
    with assms marker_no_terminator show False by blast
  qed
  from no_a no_ab show ?thesis by simp
qed

lemma matchAllModels_step:
  "matchAllModels (c # cs) =
     (if take (length modelMarker) (c # cs) = modelMarker
         \<and> takeWhile (\<lambda>x. \<not> isLineTerminator x) (drop (length modelMarker) (c # cs)) \<noteq> []
      then takeWhile (\<lambda>x. \<not> isLineTerminator x) (drop (length modelMarker) (c # cs))
           # matchAllModels (dropWhile (\<lambda>x. \<not> isLineTerminator x) (drop (length modelMarker) (c # cs)))
      else matchAllModels cs)"
  by (rule matchAllModels.simps(2))

lemma matchAllModels_lines:
  assumes t: "isLineTerminator t"
  shows "matchAllModels (a @ t # b) = matchAllModels a @ matchAllModels b"
proof (induction a rule: matchAllModels.induct)
  case 1
  have "take (length modelMarker) (t # b) \<noteq> modelMarker"
    using marker_head [of t b] t by (auto simp add: isLineTerminator_def)
  then have "matchAllModels (t # b) = matchAllModels b"
    by (simp only: matchAllModels_step if_False simp_thms)
  then show ?case by (simp del: matchAllModels.simps(2))
next
  case (2 c cs)
  let ?P = "\<lambda>x. \<not> isLineTerminator x"
  let ?n = "length modelMarker"
  let ?X = "c # cs"
  let ?Y = "c # (cs @ t # b)"
  have Y: "(c # cs) @ t # b = ?Y" by simp
  have headY: "take ?n ?Y = modelMarker \<longleftrightarrow> take ?n ?X = modelMarker"
    using marker_across_terminator [OF t, of ?X b] by (simp only: Y)
  have stepY: "matchAllModels ?Y =
     (if take ?n ?Y = modelMarker \<and> takeWhile ?P (drop ?n ?Y) \<noteq> []
      then takeWhile ?P (drop ?n ?Y) # matchAllModels (dropWhile ?P (drop ?n ?Y))
      else matchAllModels (cs @ t # b))"
    by (rule matchAllModels_step)
  have stepX: "matchAllModels ?X =
     (if take ?n ?X = modelMarker \<and> takeWhile ?P (drop ?n ?X) \<noteq> []
      then takeWhile ?P (drop ?n ?X) # matchAllModels (dropWhile ?P (drop ?n ?X))
      else matchAllModels cs)"
    by (rule matchAllModels_step)
  show ?case
  proof (cases "take ?n ?X = modelMarker")
    case False
    then have "matchAllModels ?Y = matchAllModels (cs @ t # b)"
      using headY by (simp only: stepY if_False simp_thms)
    moreover have "matchAllModels ?X = matchAllModels cs"
      using False by (simp only: stepX if_False simp_thms)
    moreover have "matchAllModels (cs @ t # b) = matchAllModels cs @ matchAllModels b"
      using False by (intro "2.IH"(2)) simp
    ultimately show ?thesis by (simp only: Y)
  next
    case True
    then have fits: "?n \<le> length ?X" by (rule marker_fits)
    have "drop ?n (?X @ t # b) = drop ?n ?X @ drop (?n - length ?X) (t # b)"
      by (rule drop_append)
    moreover have "?n - length ?X = 0" using fits by simp
    ultimately have "drop ?n (?X @ t # b) = drop ?n ?X @ t # b"
      by (simp only: drop_0)
    then have afterY: "drop ?n ?Y = drop ?n ?X @ t # b" by (simp only: Y)
    have capY: "takeWhile ?P (drop ?n ?Y) = takeWhile ?P (drop ?n ?X)"
      using t by (simp only: afterY takeWhile_stop simp_thms)
    have restY: "dropWhile ?P (drop ?n ?Y) = dropWhile ?P (drop ?n ?X) @ t # b"
      using t by (simp only: afterY dropWhile_stop simp_thms)
    show ?thesis
    proof (cases "takeWhile ?P (drop ?n ?X) = []")
      case empty: True
      have "matchAllModels ?Y = matchAllModels (cs @ t # b)"
        using empty by (simp only: stepY capY if_False simp_thms)
      moreover have "matchAllModels ?X = matchAllModels cs"
        using empty by (simp only: stepX if_False simp_thms)
      moreover have "matchAllModels (cs @ t # b) = matchAllModels cs @ matchAllModels b"
        using empty by (intro "2.IH"(2)) simp
      ultimately show ?thesis by (simp only: Y)
    next
      case some: False
      have "matchAllModels ?Y =
              takeWhile ?P (drop ?n ?X) # matchAllModels (dropWhile ?P (drop ?n ?X) @ t # b)"
        using some True headY by (simp only: stepY capY restY if_True simp_thms)
      moreover have "matchAllModels ?X =
              takeWhile ?P (drop ?n ?X) # matchAllModels (dropWhile ?P (drop ?n ?X))"
        using some True by (simp only: stepX if_True simp_thms)
      moreover have "matchAllModels (dropWhile ?P (drop ?n ?X) @ t # b)
                       = matchAllModels (dropWhile ?P (drop ?n ?X)) @ matchAllModels b"
        using some True by (intro "2.IH"(1)) simp
      ultimately show ?thesis by (simp only: Y append_Cons)
    qed
  qed
qed

lemma matchAllModels_prefix:
  "CHR ''['' \<notin> set pre \<Longrightarrow> matchAllModels (pre @ s) = matchAllModels s"
proof (induction pre)
  case Nil
  then show ?case by simp
next
  case (Cons c pre)
  then have "take (length modelMarker) (c # (pre @ s)) \<noteq> modelMarker"
    using marker_head [of c "pre @ s"] by auto
  then have "matchAllModels (c # (pre @ s)) = matchAllModels (pre @ s)"
    by (simp only: matchAllModels_step if_False simp_thms)
  with Cons show ?case by (simp del: matchAllModels.simps(2))
qed

lemma matchAllModels_marker_line:
  assumes "m \<noteq> []" and "\<forall>c \<in> set m. \<not> isLineTerminator c"
  shows "matchAllModels (modelMarker @ m) = [m]"
proof -
  obtain c r where cr: "modelMarker = c # r"
    by (cases modelMarker) (simp_all add: modelMarker_def)
  let ?P = "\<lambda>x. \<not> isLineTerminator x"
  have whole: "c # (r @ m) = modelMarker @ m" by (simp add: cr)
  have hd: "take (length modelMarker) (modelMarker @ m) = modelMarker" by simp
  have after: "drop (length modelMarker) (modelMarker @ m) = m" by simp
  have cap: "takeWhile ?P m = m" using assms(2) by (simp add: takeWhile_eq_all_conv)
  have rest: "dropWhile ?P m = []" using assms(2) by simp
  note step = matchAllModels_step [of c "r @ m", unfolded whole]
  show ?thesis
    using assms(1)
    by (simp only: step hd after cap rest matchAllModels.simps(1) if_True simp_thms)
qed

lemma lastModel_append: "lastModel (xs @ ys) acc = lastModel ys (lastModel xs acc)"
  by (induction xs arbitrary: acc) (simp_all add: Let_def)

lemma lastModel_not_empty: "acc \<noteq> Some [] \<Longrightarrow> lastModel gs acc \<noteq> Some []"
  by (induction gs arbitrary: acc) (simp_all add: Let_def)

text \<open>The last line of a log that has the marker decides, whatever stands before it.\<close>

lemma scan_last_line:
  assumes "isLineTerminator t" and "CHR ''['' \<notin> set pre"
      and "\<forall>c \<in> set m. \<not> isLineTerminator c" and "trim m \<noteq> []"
  shows "lastModel (matchAllModels (older @ t # pre @ modelMarker @ m)) None = Some (trim m)"
proof -
  have "m \<noteq> []" using assms(4) by (auto simp add: trim_def)
  then have "matchAllModels (modelMarker @ m) = [m]"
    using assms(3) by (rule matchAllModels_marker_line)
  then have "matchAllModels (pre @ modelMarker @ m) = [m]"
    using matchAllModels_prefix [OF assms(2), of "modelMarker @ m"] by simp
  then have "matchAllModels (older @ t # pre @ modelMarker @ m) = matchAllModels older @ [m]"
    using matchAllModels_lines [OF assms(1), of older "pre @ modelMarker @ m"] by simp
  then show ?thesis
    using assms(4) by (simp add: lastModel_append Let_def)
qed

lemma scan_no_bracket: "CHR ''['' \<notin> set content \<Longrightarrow> matchAllModels content = []"
  using matchAllModels_prefix [of content "[]"] by simp

lemma statLogFiles_world:
  "cachedModel (snd (statLogFiles rt fs es v)) = cachedModel v
   \<and> modelCacheTime (snd (statLogFiles rt fs es v)) = modelCacheTime v"
  by (induction es arbitrary: v)
     (simp_all add: Let_def logOp_def case_prod_beta split: option.split)

lemma statLogFiles_files:
  "fst (statLogFiles rt fs es v) = fst (statLogFiles rt fs es v')"
proof (induction es arbitrary: v v')
  case Nil
  then show ?case by simp
next
  case (Cons e es)
  have "fst (statLogFiles rt fs es (logOp op v)) = fst (statLogFiles rt fs es (logOp op v'))" for op
    by (rule Cons.IH)
  moreover have "fst (statLogFiles rt fs es v) = fst (statLogFiles rt fs es v')"
    by (rule Cons.IH)
  ultimately show ?case
    by (simp add: Let_def case_prod_beta split: option.split)
qed

lemma statLogFiles_set:
  "f \<in> set (fst (statLogFiles rt fs es v)) \<longleftrightarrow>
     (\<exists>e \<in> set es. \<exists>st. d_kind e = IsFile \<and> startsWith (d_name e) ''process-''
        \<and> endsWith (d_name e) ''.log''
        \<and> fs_stat fs (COPILOT_CLI_LOGS_PATH rt @ [d_name e]) = Some st
        \<and> f = \<lparr>lf_name = d_name e, lf_mtimeMs = st_mtimeMs st\<rparr>)"
proof (induction es arbitrary: v)
  case Nil
  then show ?case by simp
next
  case (Cons e es)
  show ?case
  proof (cases "d_kind e \<noteq> IsFile \<or> \<not> startsWith (d_name e) ''process-'' \<or> \<not> endsWith (d_name e) ''.log''")
    case True
    then show ?thesis using Cons by auto
  next
    case False
    show ?thesis
    proof (cases "fs_stat fs (COPILOT_CLI_LOGS_PATH rt @ [d_name e])")
      case None
      with False Cons show ?thesis by (auto simp add: Let_def)
    next
      case (Some st)
      with False Cons show ?thesis by (auto simp add: Let_def case_prod_beta)
    qed
  qed
qed

lemma sort_key_head:
  assumes "sort_key f xs = h # t"
  shows "h \<in> set xs \<and> (\<forall>y \<in> set xs. f h \<le> f y)"
proof -
  have "sorted (map f (h # t))" using assms sorted_sort_key [of f xs] by simp
  moreover have "set (h # t) = set xs" using assms set_sort [of f xs] by simp
  ultimately show ?thesis by auto
qed

lemma getDefaultModel_fresh:
  assumes "cachedModel w = Some c" and "c \<noteq> []" and "now - modelCacheTime w < 60000"
  shows "getDefaultModel rt fs now w = (c, w)"
  using assms by (simp add: getDefaultModel_def freshCachedModel_def MODEL_CACHE_TTL_MS_def)

lemma modelFallback_fallsBack:
  "cachedModel v = cachedModel w \<Longrightarrow> modelCacheTime v = modelCacheTime w \<Longrightarrow>
     fallsBack w (modelFallback v)"
  by (simp add: fallsBack_def modelFallback_def split: option.split)

lemma getDefaultModel_no_directory:
  assumes "freshCachedModel now w = None" and "fs_readdir fs (COPILOT_CLI_LOGS_PATH rt) = None"
  shows "fallsBack w (getDefaultModel rt fs now w)"
  using assms by (simp add: getDefaultModel_def Let_def modelFallback_fallsBack logOp_def)

lemma getDefaultModel_no_files:
  assumes "freshCachedModel now w = None"
      and "fs_readdir fs (COPILOT_CLI_LOGS_PATH rt) = Some entries"
      and "fst (statLogFiles rt fs entries w) = []"
  shows "fallsBack w (getDefaultModel rt fs now w)"
proof -
  let ?w1 = "logOp (Readdir (COPILOT_CLI_LOGS_PATH rt)) w"
  have files: "fst (statLogFiles rt fs entries ?w1) = []"
    using assms(3) statLogFiles_files [of rt fs entries ?w1 w] by simp
  have "fallsBack w (modelFallback (snd (statLogFiles rt fs entries ?w1)))"
    by (rule modelFallback_fallsBack) (simp_all add: statLogFiles_world logOp_def)
  then show ?thesis
    using assms(1,2) files by (simp add: getDefaultModel_def Let_def case_prod_beta)
qed

lemma getDefaultModel_latest:
  assumes "freshCachedModel now w = None"
      and "fs_readdir fs (COPILOT_CLI_LOGS_PATH rt) = Some entries"
      and "sort_key (\<lambda>f. - lf_mtimeMs f) (fst (statLogFiles rt fs entries w)) = latest # others"
  shows "case fs_content fs (COPILOT_CLI_LOGS_PATH rt @ [lf_name latest]) of
           None \<Rightarrow> fallsBack w (getDefaultModel rt fs now w)
         | Some bytes \<Rightarrow>
             (case lastModel (matchAllModels (utf8Decode rt bytes)) None of
                None \<Rightarrow> fallsBack w (getDefaultModel rt fs now w)
              | Some m \<Rightarrow> returnsAndCaches m now (getDefaultModel rt fs now w))"
proof -
  let ?w1 = "logOp (Readdir (COPILOT_CLI_LOGS_PATH rt)) w"
  let ?w2 = "snd (statLogFiles rt fs entries ?w1)"
  let ?p = "COPILOT_CLI_LOGS_PATH rt @ [lf_name latest]"
  have files: "sort_key (\<lambda>f. - lf_mtimeMs f) (fst (statLogFiles rt fs entries ?w1)) = latest # others"
    using assms(3) statLogFiles_files [of rt fs entries ?w1 w] by simp
  have w2: "cachedModel ?w2 = cachedModel w \<and> modelCacheTime ?w2 = modelCacheTime w"
    by (simp add: statLogFiles_world logOp_def)
  have fb: "fallsBack w (modelFallback (logOp (ReadFile ?p) ?w2))"
    by (rule modelFallback_fallsBack) (simp_all add: statLogFiles_world logOp_def)
  have run: "getDefaultModel rt fs now w =
      (case extractModelFromProcessLog rt fs ?p ?w2 of
         (model, w3) \<Rightarrow>
           (case model of
              None \<Rightarrow> modelFallback w3
            | Some m \<Rightarrow> if m \<noteq> [] then (m, w3\<lparr>cachedModel := Some m, modelCacheTime := now\<rparr>)
                        else modelFallback w3))"
    using assms(1,2) files by (simp add: getDefaultModel_def Let_def case_prod_beta)
  show ?thesis
  proof (cases "fs_content fs ?p")
    case None
    then show ?thesis using fb by (simp add: run extractModelFromProcessLog_def)
  next
    case (Some bytes)
    show ?thesis
    proof (cases "lastModel (matchAllModels (utf8Decode rt bytes)) None")
      case None
      with Some show ?thesis using fb by (simp add: run extractModelFromProcessLog_def)
    next
      case found: (Some m)
      then have "m \<noteq> []" using lastModel_not_empty [of None "matchAllModels (utf8Decode rt bytes)"] by auto
      with Some found show ?thesis
        by (simp add: run extractModelFromProcessLog_def returnsAndCaches_def)
    qed
  qed
qed

lemma lastModel_snoc:
  "lastModel (gs @ [g]) acc = (if trim g \<noteq> [] then Some (trim g) else lastModel gs acc)"
  by (simp add: lastModel_append Let_def)

text \<open>
  C8, as amended. The marker is \<^verbatim>\<open>[INFO] Using default model: \<close>. While a cached model is
  less than 60 seconds old the resolver returns it and touches nothing. Otherwise it lists
  the log directory and takes, among the regular files named \<^verbatim>\<open>process-*.log\<close> that \<^verbatim>\<open>stat\<close>
  accepts, one of the most recently modified; it returns, and caches with the time of the
  call, the text of the last match of the marker in that file whose text after the marker,
  up to the end of the line and trimmed, is not empty. When the directory cannot be listed,
  when no file qualifies, when the file cannot be read and when it has no such match, the
  resolver returns the previously cached value, or \<^verbatim>\<open>unknown\<close> when there is none, and
  leaves the cache as it was. A match never spans a line terminator, a line that has the
  marker after a prefix without an opening bracket gives the rest of the line after the
  marker, and a text without an opening bracket gives no match.
\<close>

theorem default_model_resolution:
  "(let logs = COPILOT_CLI_LOGS_PATH rt;
        r = getDefaultModel rt fs now w;
        logFiles = fst (statLogFiles rt fs entries w)
    in (cachedModel w = Some c \<and> c \<noteq> [] \<and> now - modelCacheTime w < 60000 \<longrightarrow> r = (c, w))
       \<and> (freshCachedModel now w = None \<longrightarrow>
            (fs_readdir fs logs = None \<longrightarrow> fallsBack w r)
            \<and> (fs_readdir fs logs = Some entries \<longrightarrow>
                 (\<forall>f. f \<in> set logFiles \<longleftrightarrow>
                        (\<exists>e \<in> set entries. \<exists>st.
                            d_kind e = IsFile \<and> startsWith (d_name e) ''process-''
                            \<and> endsWith (d_name e) ''.log''
                            \<and> fs_stat fs (logs @ [d_name e]) = Some st
                            \<and> f = \<lparr>lf_name = d_name e, lf_mtimeMs = st_mtimeMs st\<rparr>))
                 \<and> (logFiles = [] \<longrightarrow> fallsBack w r)
                 \<and> (logFiles \<noteq> [] \<longrightarrow>
                      (\<exists>latest \<in> set logFiles.
                          (\<forall>f \<in> set logFiles. lf_mtimeMs f \<le> lf_mtimeMs latest)
                          \<and> (case fs_content fs (logs @ [lf_name latest]) of
                                None \<Rightarrow> fallsBack w r
                              | Some bytes \<Rightarrow>
                                  (case lastModel (matchAllModels (utf8Decode rt bytes)) None of
                                     None \<Rightarrow> fallsBack w r
                                   | Some m \<Rightarrow> returnsAndCaches m now r)))))))
   \<and> modelMarker = ''[INFO] Using default model: ''
   \<and> (\<forall>t a b. isLineTerminator t \<longrightarrow> matchAllModels (a @ t # b) = matchAllModels a @ matchAllModels b)
   \<and> (\<forall>pre m. CHR ''['' \<notin> set pre \<and> m \<noteq> [] \<and> (\<forall>x \<in> set m. \<not> isLineTerminator x) \<longrightarrow>
          matchAllModels (pre @ modelMarker @ m) = [m])
   \<and> (\<forall>s. CHR ''['' \<notin> set s \<longrightarrow> matchAllModels s = [])
   \<and> (\<forall>gs g acc. lastModel (gs @ [g]) acc = (if trim g \<noteq> [] then Some (trim g) else lastModel gs acc))"
proof -
  have latest: "\<exists>latest \<in> set (fst (statLogFiles rt fs entries w)).
          (\<forall>f \<in> set (fst (statLogFiles rt fs entries w)). lf_mtimeMs f \<le> lf_mtimeMs latest)
          \<and> (case fs_content fs (COPILOT_CLI_LOGS_PATH rt @ [lf_name latest]) of
                None \<Rightarrow> fallsBack w (getDefaultModel rt fs now w)
              | Some bytes \<Rightarrow>
                  (case lastModel (matchAllModels (utf8Decode rt bytes)) None of
                     None \<Rightarrow> fallsBack w (getDefaultModel rt fs now w)
                   | Some m \<Rightarrow> returnsAndCaches m now (getDefaultModel rt fs now w)))"
    if fresh: "freshCachedModel now w = None"
      and dir: "fs_readdir fs (COPILOT_CLI_LOGS_PATH rt) = Some entries"
      and some: "fst (statLogFiles rt fs entries w) \<noteq> []"
  proof -
    from some have "sort_key (\<lambda>f. - lf_mtimeMs f) (fst (statLogFiles rt fs entries w)) \<noteq> []"
      by (metis length_0_conv length_sort)
    then obtain l ls where sorted:
      "sort_key (\<lambda>f. - lf_mtimeMs f) (fst (statLogFiles rt fs entries w)) = l # ls"
      by (cases "sort_key (\<lambda>f. - lf_mtimeMs f) (fst (statLogFiles rt fs entries w))") auto
    from sort_key_head [OF sorted]
    have "l \<in> set (fst (statLogFiles rt fs entries w))"
      and "\<forall>f \<in> set (fst (statLogFiles rt fs entries w)). lf_mtimeMs f \<le> lf_mtimeMs l"
      by auto
    with getDefaultModel_latest [OF fresh dir sorted] show ?thesis by blast
  qed
  have prefix: "matchAllModels (pre @ modelMarker @ m) = [m]"
    if "CHR ''['' \<notin> set pre" "m \<noteq> []" "\<forall>x \<in> set m. \<not> isLineTerminator x" for pre m
    using matchAllModels_prefix [OF that(1), of "modelMarker @ m"]
      matchAllModels_marker_line [OF that(2,3)] by simp
  show ?thesis
    unfolding Let_def
  proof (intro conjI impI allI; (elim conjE)?)
    show "modelMarker = ''[INFO] Using default model: ''" by (rule modelMarker_def)
  qed (simp_all add: getDefaultModel_fresh getDefaultModel_no_directory getDefaultModel_no_files
        statLogFiles_set latest matchAllModels_lines prefix scan_no_bracket lastModel_snoc
        del: matchAllModels.simps(2))
qed

lemma twoSelections_scan:
  "lastModel (matchAllModels twoSelections) None = Some ''claude-sonnet-4.6''"
  by (simp add: twoSelections_def modelMarker_def isLineTerminator_def trim_def isWhiteSpace_def)

lemma warnSelection_scan: "lastModel (matchAllModels warnSelection) None = None"
  by (simp add: warnSelection_def modelMarker_def isLineTerminator_def)

lemma processLogFs_files:
  "fst (statLogFiles demoRuntime (processLogFs content) logEntries v)
     = [\<lparr>lf_name = ''process-1.log'', lf_mtimeMs = 100\<rparr>,
        \<lparr>lf_name = ''process-2.log'', lf_mtimeMs = 200\<rparr>]"
  by (simp add: processLogFs_def logEntries_def watchableFs_def demoRuntime_def
      COPILOT_CLI_LOGS_PATH_def COPILOT_CLI_HOME_def startsWith_def endsWith_def Let_def
      case_prod_beta)

lemma processLogFs_latest:
  "fs_readdir (processLogFs content) (COPILOT_CLI_LOGS_PATH demoRuntime)
     = Some logEntries
   \<and> fs_content (processLogFs content) (COPILOT_CLI_LOGS_PATH demoRuntime @ [''process-2.log''])
     = Some content
   \<and> fs_content (processLogFs content) (COPILOT_CLI_LOGS_PATH demoRuntime @ [''process-1.log''])
     = Some ''[INFO] Using default model: stale-model''
   \<and> utf8Decode demoRuntime content = content"
  by (simp add: processLogFs_def watchableFs_def demoRuntime_def COPILOT_CLI_LOGS_PATH_def
      COPILOT_CLI_HOME_def)

lemma initialWorld_model: "freshCachedModel now initialWorld = None \<and> cachedModel initialWorld = None"
  by (simp add: freshCachedModel_def initialWorld_def)

text \<open>
  With two process logs, the more recent one selecting \<^verbatim>\<open>gpt-5.1\<close> and then
  \<^verbatim>\<open>claude-sonnet-4.6\<close>: the resolver returns and caches the latter; 59.999 seconds later
  it answers from the cache though the log directory is gone; 65 seconds later it scans,
  fails, and still answers with the cached value; with nothing cached and no log directory
  it answers \<^verbatim>\<open>unknown\<close>.
\<close>

theorem default_model_resolution_witness:
  "returnsAndCaches ''claude-sonnet-4.6'' 5000
     (getDefaultModel demoRuntime (processLogFs twoSelections) 5000 initialWorld)
   \<and> getDefaultModel demoRuntime watchableFs 64999
        (snd (getDefaultModel demoRuntime (processLogFs twoSelections) 5000 initialWorld))
       = (''claude-sonnet-4.6'',
          snd (getDefaultModel demoRuntime (processLogFs twoSelections) 5000 initialWorld))
   \<and> fst (getDefaultModel demoRuntime watchableFs 70000
             (snd (getDefaultModel demoRuntime (processLogFs twoSelections) 5000 initialWorld)))
       = ''claude-sonnet-4.6''
   \<and> fst (getDefaultModel demoRuntime watchableFs 5000 initialWorld) = ''unknown''"
proof -
  let ?r = "getDefaultModel demoRuntime (processLogFs twoSelections) 5000 initialWorld"
  note inst = default_model_resolution
                 [where rt = demoRuntime and fs = "processLogFs twoSelections" and now = 5000
                    and w = initialWorld and entries = logEntries,
                  unfolded Let_def, THEN conjunct1, THEN conjunct2]
  have fresh: "freshCachedModel 5000 initialWorld = None"
    by (simp add: initialWorld_model)
  have dir: "fs_readdir (processLogFs twoSelections) (COPILOT_CLI_LOGS_PATH demoRuntime) = Some logEntries"
    by (simp add: processLogFs_latest)
  have files: "fst (statLogFiles demoRuntime (processLogFs twoSelections) logEntries initialWorld)
                 = [\<lparr>lf_name = ''process-1.log'', lf_mtimeMs = 100\<rparr>,
                    \<lparr>lf_name = ''process-2.log'', lf_mtimeMs = 200\<rparr>]"
    by (rule processLogFs_files)
  then have some: "fst (statLogFiles demoRuntime (processLogFs twoSelections) logEntries initialWorld) \<noteq> []"
    by simp
  note found = inst [THEN mp, OF fresh, THEN conjunct2, THEN mp, OF dir, THEN conjunct2,
                     THEN conjunct2, THEN mp, OF some, unfolded files]
  have first: "returnsAndCaches ''claude-sonnet-4.6'' 5000 ?r"
    using found by (simp add: processLogFs_latest twoSelections_scan)
  then have cached: "cachedModel (snd ?r) = Some ''claude-sonnet-4.6''"
    and time: "modelCacheTime (snd ?r) = 5000"
    by (simp_all add: returnsAndCaches_def)
  have no_dir: "fs_readdir watchableFs (COPILOT_CLI_LOGS_PATH demoRuntime) = None"
    by (simp add: watchableFs_def)
  have second: "getDefaultModel demoRuntime watchableFs 64999 (snd ?r) = (''claude-sonnet-4.6'', snd ?r)"
    using default_model_resolution
            [where rt = demoRuntime and fs = watchableFs and now = 64999 and w = "snd ?r"
               and c = "''claude-sonnet-4.6''", unfolded Let_def, THEN conjunct1, THEN conjunct1]
    by (simp add: cached time)
  have stale: "freshCachedModel 70000 (snd ?r) = None"
    by (simp add: freshCachedModel_def cached time MODEL_CACHE_TTL_MS_def)
  have third: "fst (getDefaultModel demoRuntime watchableFs 70000 (snd ?r)) = ''claude-sonnet-4.6''"
    using default_model_resolution
            [where rt = demoRuntime and fs = watchableFs and now = 70000 and w = "snd ?r",
             unfolded Let_def, THEN conjunct1, THEN conjunct2]
    by (simp add: stale no_dir fallsBack_def cached)
  have fourth: "fst (getDefaultModel demoRuntime watchableFs 5000 initialWorld) = ''unknown''"
    using default_model_resolution
            [where rt = demoRuntime and fs = watchableFs and now = 5000 and w = initialWorld,
             unfolded Let_def, THEN conjunct1, THEN conjunct2]
    by (simp add: initialWorld_model no_dir fallsBack_def)
  from first second third fourth show ?thesis by simp
qed

text \<open>
  C8 as it is stated fails on a log whose only line with the words
  \<^verbatim>\<open>Using default model: \<close> is a warning: the line has the claim's marker and a model
  after it, and the resolver answers \<^verbatim>\<open>unknown\<close>.
\<close>

theorem marker_needs_info_counterexample:
  "fs_content (processLogFs warnSelection) (COPILOT_CLI_LOGS_PATH demoRuntime @ [''process-2.log''])
     = Some (''2026-02-27T20:58:52.000Z [WARN] '' @ ''Using default model: '' @ ''gpt-5.1'')
   \<and> fst (getDefaultModel demoRuntime (processLogFs warnSelection) 5000 initialWorld) = ''unknown''"
proof -
  have "sort_key (\<lambda>f. - lf_mtimeMs f)
          [\<lparr>lf_name = ''process-1.log'', lf_mtimeMs = 100\<rparr>,
           \<lparr>lf_name = ''process-2.log'', lf_mtimeMs = 200\<rparr>]
        = [\<lparr>lf_name = ''process-2.log'', lf_mtimeMs = 200\<rparr>,
           \<lparr>lf_name = ''process-1.log'', lf_mtimeMs = 100\<rparr>]"
    by simp
  then have "fst (getDefaultModel demoRuntime (processLogFs warnSelection) 5000 initialWorld) = ''unknown''"
    using processLogFs_files [of warnSelection] processLogFs_latest [of warnSelection]
    by (simp add: getDefaultModel_def initialWorld_model Let_def case_prod_beta
        extractModelFromProcessLog_def warnSelection_scan modelFallback_def logOp_def
        statLogFiles_world del: statLogFiles.simps)
  then show ?thesis
    using processLogFs_latest [of warnSelection] by (simp add: warnSelection_def)
qed

section \<open>The aggregate cache in a reconciliation pass\<close>

lemma readJsonlFile_world:
  "snd (readJsonlFile rt fs p w) = logOp (ReadFile p) w"
  by (simp add: readJsonlFile_def split: option.split)

lemma parseSessionDirRows_world:
  "snd (parseSessionDirRows rt fs dirPath mtimeMs defaultModel w) =
     w\<lparr>fsLog := fsLog w
          @ ReadFile (dirPath @ [''events.jsonl''])
            # (if fst (readJsonlFile rt fs (dirPath @ [''events.jsonl'']) w) = [] then []
               else [ReadFile (dirPath @ [''workspace.yaml''])])\<rparr>"
proof -
  obtain events w1 where r: "readJsonlFile rt fs (dirPath @ [''events.jsonl'']) w = (events, w1)"
    by (cases "readJsonlFile rt fs (dirPath @ [''events.jsonl'']) w")
  then have w1: "w1 = logOp (ReadFile (dirPath @ [''events.jsonl''])) w"
    using readJsonlFile_world [of rt fs "dirPath @ [''events.jsonl'']" w] by simp
  show ?thesis
    using r
    by (simp add: parseSessionDirRows_def Let_def readWorkspaceYaml_value w1 logOp_def
        split: sum.split)
qed

lemma parseSessionDirRows_rows_world:
  "fst (parseSessionDirRows rt fs dirPath mtimeMs defaultModel w)
     = fst (parseSessionDirRows rt fs dirPath mtimeMs defaultModel w')"
  by (simp add: parseSessionDirRows_of_events readJsonlFile_events readWorkspaceYaml_value Let_def)


lemma demoLog_row_count:
  "map_sum id length
     (fst (parseSessionDirRows jsonlRuntime (logFs (Some demoLog)) demoSessionDir mtimeMs
             defaultModel w)) = Inr 2"
  by (simp add: parseSessionDirRows_rows [OF demoLog_read demoLog_workspace] demoLog_quiet
      demoLog_guards)


section \<open>What the steps of a bulk query leave alone\<close>

lemma kept_refl: "queryStateKept w w"
  by (simp add: queryStateKept_def)

lemma kept_trans: "queryStateKept a b \<Longrightarrow> queryStateKept b c \<Longrightarrow> queryStateKept a c"
  by (auto simp add: queryStateKept_def)

lemma kept_logOp: "queryStateKept w (logOp op w)"
  by (simp add: queryStateKept_def logOp_def)

lemma kept_openWatch: "queryStateKept w (snd (openWatch fs p w))"
  by (simp add: queryStateKept_def openWatch_def logOp_def Let_def)

lemma kept_watchSessionDir: "queryStateKept w (watchSessionDir fs p w)"
proof (cases "openWatch fs p w")
  case (Pair h w1)
  with kept_openWatch [of w fs p] have "queryStateKept w w1" by simp
  with Pair show ?thesis
    by (cases h) (auto simp add: watchSessionDir_def kept_refl queryStateKept_def)
qed

lemma kept_statSessionDir:
  "queryStateKept w (fst (statSessionDir fs options dirPath eventsPath md w sessionDirs))"
  by (simp add: statSessionDir_def Let_def queryStateKept_def logOp_def split: option.split)

lemma kept_reconcileDir:
  "queryStateKept (fst acc) (fst (reconcileDir fs options full dirty dirPath acc))"
proof -
  obtain w sessionDirs seen where acc: "acc = (w, sessionDirs, seen)" by (cases acc)
  have a: "queryStateKept w (watchSessionDir fs dirPath w)" by (rule kept_watchSessionDir)
  have b: "queryStateKept (watchSessionDir fs dirPath w)
             (fst (statSessionDir fs options dirPath (dirPath @ [''events.jsonl'']) md
                     (watchSessionDir fs dirPath w) sessionDirs))" for md
    by (rule kept_statSessionDir)
  show ?thesis
    using a kept_trans [OF a b]
    by (simp add: acc reconcileDir_def Let_def case_prod_beta split: option.split)
qed

lemma kept_fold:
  assumes "\<And>x acc. queryStateKept (fst acc) (fst (f x acc))"
  shows "queryStateKept (fst acc) (fst (fold f xs acc))"
proof (induction xs arbitrary: acc)
  case Nil
  show ?case by (simp add: kept_refl)
next
  case (Cons x xs)
  have "queryStateKept (fst acc) (fst (f x acc))" by (rule assms)
  moreover have "queryStateKept (fst (f x acc)) (fst (fold f xs (f x acc)))" by (rule Cons.IH)
  ultimately show ?case using kept_trans by simp
qed

lemma kept_parseSessionDirRows:
  "queryStateKept w (snd (parseSessionDirRows rt fs dirPath mtimeMs defaultModel w))"
  by (simp add: parseSessionDirRows_world queryStateKept_def)

lemma kept_aggregateStep:
  "queryStateKept (fst acc) (fst (aggregateStep rt fs now defaultModel dir acc))"
proof -
  obtain w sessions where acc: "acc = (w, sessions)" by (cases acc)
  show ?thesis
    using kept_parseSessionDirRows [of w rt fs "psd_dirPath dir" "psd_mtimeMs dir" defaultModel]
    by (cases "parseSessionDirRows rt fs (psd_dirPath dir) (psd_mtimeMs dir) defaultModel w")
       (simp add: acc aggregateStep_def queryStateKept_def split: option.split sum.split)
qed

lemma kept_aggregateLoop:
  "queryStateKept (fst acc) (fst (aggregateLoop rt fs now defaultModel dirs acc))"
proof (induction dirs arbitrary: acc)
  case Nil
  show ?case by (simp add: kept_refl)
next
  case (Cons dir dirs)
  obtain w1 outcome where step: "aggregateStep rt fs now defaultModel dir acc = (w1, outcome)"
    by (cases "aggregateStep rt fs now defaultModel dir acc")
  with kept_aggregateStep [of acc rt fs now defaultModel dir]
  have first: "queryStateKept (fst acc) w1" by simp
  show ?case
  proof (cases outcome)
    case (Inl e)
    with step first show ?thesis by simp
  next
    case (Inr sessions)
    from Cons.IH [of "(w1, sessions)"] first
    have "queryStateKept (fst acc) (fst (aggregateLoop rt fs now defaultModel dirs (w1, sessions)))"
      using kept_trans by simp
    with step Inr show ?thesis by simp
  qed
qed

lemma kept_sessionDirEntries: "queryStateKept w (snd (sessionDirEntries rt fs es w))"
proof (induction es arbitrary: w)
  case Nil
  show ?case by (simp add: kept_refl)
next
  case (Cons e es)
  have step: "queryStateKept w (snd (sessionDirEntries rt fs es (logOp op w)))" for op
    using kept_trans [OF kept_logOp Cons.IH] .
  show ?case
    using Cons.IH [of w] step by (simp add: Let_def case_prod_beta)
qed

lemma getSessionDirs_log:
  "\<exists>ops. fsLog (snd (getSessionDirs rt fs w)) = fsLog w @ Readdir (COPILOT_CLI_SESSION_STATE_PATH rt) # ops"
proof -
  let ?w1 = "logOp (Readdir (COPILOT_CLI_SESSION_STATE_PATH rt)) w"
  have "queryStateKept ?w1 (snd (sessionDirEntries rt fs es ?w1))" for es
    by (rule kept_sessionDirEntries)
  then show ?thesis
    by (auto simp add: getSessionDirs_def sessionDirsOf_def Let_def queryStateKept_def logOp_def split: option.split)
qed

lemma kept_getSessionDirs: "queryStateKept w (snd (getSessionDirs rt fs w))"
proof -
  let ?w1 = "logOp (Readdir (COPILOT_CLI_SESSION_STATE_PATH rt)) w"
  have "queryStateKept w (snd (sessionDirEntries rt fs es ?w1))" for es
    using kept_trans [OF kept_logOp kept_sessionDirEntries] .
  then show ?thesis
    by (simp add: getSessionDirs_def sessionDirsOf_def Let_def kept_logOp split: option.split)
qed

lemma kept_statLogFiles: "queryStateKept w (snd (statLogFiles rt fs es w))"
proof (induction es arbitrary: w)
  case Nil
  show ?case by (simp add: kept_refl)
next
  case (Cons e es)
  have step: "queryStateKept w (snd (statLogFiles rt fs es (logOp op w)))" for op
    using kept_trans [OF kept_logOp Cons.IH] .
  show ?case
    using Cons.IH [of w] step by (simp add: Let_def case_prod_beta split: option.split)
qed

lemma kept_modelFallback: "queryStateKept w v \<Longrightarrow> queryStateKept w (snd (modelFallback v))"
  by (simp add: modelFallback_def split: option.split)

lemma kept_getDefaultModel: "queryStateKept w (snd (getDefaultModel rt fs now w))"
proof (cases "freshCachedModel now w")
  case (Some m)
  then show ?thesis by (simp add: getDefaultModel_def kept_refl)
next
  case None
  let ?w1 = "logOp (Readdir (COPILOT_CLI_LOGS_PATH rt)) w"
  have w1: "queryStateKept w ?w1" by (rule kept_logOp)
  have w2: "queryStateKept w (snd (statLogFiles rt fs es ?w1))" for es
    using kept_trans [OF w1 kept_statLogFiles] .
  have w3: "queryStateKept w (logOp op (snd (statLogFiles rt fs es ?w1)))" for es op
    using kept_trans [OF w2 kept_logOp] .
  have w3': "queryStateKept w (logOp op (snd (statLogFiles rt fs es ?w1))\<lparr>cachedModel := c, modelCacheTime := t\<rparr>)"
    for es op c t
    using w3 [of op es] by (simp add: queryStateKept_def)
  show ?thesis
    using None w1 w2 w3 w3'
    by (simp add: getDefaultModel_def Let_def case_prod_beta extractModelFromProcessLog_def
        kept_modelFallback split: option.split list.split)
qed

section \<open>The bulk query: its three outcomes\<close>

lemma otherSession_limit: "otherSession (options\<lparr>opt_limit := l\<rparr>) = otherSession options"
  by (simp add: fun_eq_iff otherSession_def sessionFilter_def)

lemma pushSession_limit: "pushSession (options\<lparr>opt_limit := l\<rparr>) = pushSession options"
  by (simp add: fun_eq_iff pushSession_def)

lemma statSessionDir_limit:
  "statSessionDir fs (options\<lparr>opt_limit := l\<rparr>) = statSessionDir fs options"
  unfolding fun_eq_iff statSessionDir_def otherSession_limit pushSession_limit by simp

lemma reconcileDir_limit:
  "reconcileDir fs (options\<lparr>opt_limit := l\<rparr>) = reconcileDir fs options"
  unfolding fun_eq_iff reconcileDir_def statSessionDir_limit otherSession_limit pushSession_limit
  by simp

lemma reconcile_limit_option:
  "reconcile rt cm fs clk (options\<lparr>opt_limit := l\<rparr>) limit w = reconcile rt cm fs clk options limit w"
  unfolding reconcile_def reconcileDir_limit sessionFilter_def
  by (simp add: case_prod_beta Let_def split: sum.split)

lemma reconcile_rows_limit:
  "fst (reconcile rt cm fs clk options limit w) = fst (reconcile rt cm fs clk options limit' w)"
  by (simp add: reconcile_def Let_def case_prod_beta split: sum.split)

lemma resultCacheValid_started:
  "resultCacheValid cm now options limit (startSessionWatcher rt fs (logOp op w))
     = resultCacheValid cm now options limit w"
  by (simp add: resultCacheValid_def startSessionWatcher_def launchDiscovery_def openWatch_def
      logOp_def Let_def case_prod_beta split: option.split)

lemma sessionCache_started:
  "sessionCache (startSessionWatcher rt fs (logOp op w)) = sessionCache w"
  by (simp add: startSessionWatcher_def launchDiscovery_def openWatch_def logOp_def Let_def
      case_prod_beta split: option.split)

lemma resultCacheValid_limit_option:
  "resultCacheValid cm now (options\<lparr>opt_limit := l\<rparr>) limit w = resultCacheValid cm now options limit w"
  by (simp add: resultCacheValid_def sessionFilter_def)

lemma parseSessionsFromDirs_cases:
  "parseSessionsFromDirs rt cm fs clk options w =
     (if \<not> fs_access fs (COPILOT_CLI_SESSION_STATE_PATH rt)
      then (Inr [], logOp (Access (COPILOT_CLI_SESSION_STATE_PATH rt)) w)
      else if resultCacheValid cm (c_now clk) options (case opt_limit options of None \<Rightarrow> 100 | Some l \<Rightarrow> l) w
      then (Inr (lastResult (sessionCache w)),
            startSessionWatcher rt fs (logOp (Access (COPILOT_CLI_SESSION_STATE_PATH rt)) w))
      else reconcile rt cm fs clk options (case opt_limit options of None \<Rightarrow> 100 | Some l \<Rightarrow> l)
             (startSessionWatcher rt fs (logOp (Access (COPILOT_CLI_SESSION_STATE_PATH rt)) w)))"
  by (simp add: parseSessionsFromDirs_def Let_def resultCacheValid_started sessionCache_started)

subsection \<open>The example home directory\<close>

lemma parseSessionDirRows_reads_content:
  "parseSessionDirRows rt (fs\<lparr>fs_access := a, fs_readdir := r, fs_stat := s\<rparr>)
     = parseSessionDirRows rt fs"
proof -
  have content: "fs_content (fs\<lparr>fs_access := a, fs_readdir := r, fs_stat := s\<rparr>) = fs_content fs"
    by simp
  show ?thesis
    unfolding fun_eq_iff parseSessionDirRows_def readJsonlFile_def readWorkspaceYaml_def content
    by simp
qed

lemma sessionFs_row_count:
  "map_sum id length
     (fst (parseSessionDirRows jsonlRuntime sessionFs demoSessionDir mtimeMs defaultModel w)) = Inr 2"
  by (simp add: sessionFs_def parseSessionDirRows_reads_content demoLog_row_count)

lemma sessionFs_paths:
  "COPILOT_CLI_SESSION_STATE_PATH jsonlRuntime = [''home'', ''u'', ''.copilot'', ''session-state'']"
  "COPILOT_CLI_LOGS_PATH jsonlRuntime = [''home'', ''u'', ''.copilot'', ''logs'']"
  by (simp_all add: COPILOT_CLI_SESSION_STATE_PATH_def COPILOT_CLI_LOGS_PATH_def COPILOT_CLI_HOME_def
      jsonlRuntime_def timedRuntime_def demoRuntime_def)

lemma sessionFs_fields:
  "fs_access sessionFs [''home'', ''u'', ''.copilot'', ''session-state'']"
  "fs_readdir sessionFs [''home'', ''u'', ''.copilot'', ''session-state'']
     = Some [\<lparr>d_name = ''s1'', d_kind = IsDirectory\<rparr>]"
  "fs_readdir sessionFs [''home'', ''u'', ''.copilot'', ''logs''] = None"
  "fs_access sessionFs (demoSessionDir @ [''events.jsonl''])"
  "fs_stat sessionFs (demoSessionDir @ [''events.jsonl''])
     = Some \<lparr>st_mtimeMs = 1772222600000, st_size = length demoLog\<rparr>"
  "fs_watch sessionFs p"
  "[''home'', ''u'', ''.copilot'', ''session-state'', ''s1''] = demoSessionDir"
  by (simp_all add: sessionFs_def logFs_def watchableFs_def demoSessionDir_def)

lemma sessionFs_discovery:
  "getSessionDirs jsonlRuntime sessionFs w
     = ([demoSessionDir],
        w\<lparr>fsLog := fsLog w @ [Readdir [''home'', ''u'', ''.copilot'', ''session-state''],
                                Access (demoSessionDir @ [''events.jsonl''])]\<rparr>)"
  by (simp add: getSessionDirs_def sessionDirsOf_def sessionFs_paths sessionFs_fields Let_def
      logOp_def)

lemma sessionFs_model:
  assumes "cachedModel w = None"
  shows "getDefaultModel jsonlRuntime sessionFs now w
           = (''unknown'', w\<lparr>fsLog := fsLog w @ [Readdir [''home'', ''u'', ''.copilot'', ''logs'']]\<rparr>)"
  using assms
  by (simp add: getDefaultModel_def freshCachedModel_def modelFallback_def sessionFs_paths
      sessionFs_fields Let_def logOp_def)

lemma sessionFs_selected:
  assumes "sessionMetadataIndex w (demoSessionDir @ [''events.jsonl'']) = None"
  shows "fst (snd (reconcileDir sessionFs (bulkQuery l) full dirty demoSessionDir (w, [], {})))
           = [\<lparr>psd_sessionId = ''s1'', psd_dirPath = demoSessionDir, psd_mtimeMs = 1772222600000\<rparr>]"
    and "sessionAggregateCache (fst (reconcileDir sessionFs (bulkQuery l) full dirty demoSessionDir (w, [], {})))
           = sessionAggregateCache w"
proof -
  have name: "basename demoSessionDir = ''s1''"
    by (simp add: basename_def demoSessionDir_def)
  have idx: "sessionMetadataIndex (watchSessionDir sessionFs demoSessionDir w) = sessionMetadataIndex w"
    "sessionAggregateCache (watchSessionDir sessionFs demoSessionDir w) = sessionAggregateCache w"
    by (simp_all add: watchSessionDir_def openWatch_def logOp_def Let_def sessionFs_fields)
  show "fst (snd (reconcileDir sessionFs (bulkQuery l) full dirty demoSessionDir (w, [], {})))
           = [\<lparr>psd_sessionId = ''s1'', psd_dirPath = demoSessionDir, psd_mtimeMs = 1772222600000\<rparr>]"
    using assms
    by (simp add: reconcileDir_def statSessionDir_def idx Let_def sessionFs_fields name
        otherSession_def sessionFilter_def pushSession_def sinceAdmits_def bulkQuery_def logOp_def)
  show "sessionAggregateCache (fst (reconcileDir sessionFs (bulkQuery l) full dirty demoSessionDir (w, [], {})))
           = sessionAggregateCache w"
    using assms
    by (simp add: reconcileDir_def statSessionDir_def idx Let_def sessionFs_fields name
        otherSession_def sessionFilter_def pushSession_def sinceAdmits_def bulkQuery_def logOp_def)
qed

lemma sessionFs_reconcile_rows:
  assumes "sessionMetadataIndex w = Map.empty" and "sessionAggregateCache w = Map.empty"
      and "cachedModel w = None"
  shows "map_sum id length (fst (reconcile jsonlRuntime cm sessionFs clk (bulkQuery l) limit w)) = Inr 2"
proof -
  let ?w6 = "(fst (reconcileDir sessionFs (bulkQuery l) (forceFullReconciliation w)
                     (sw_dirtyPaths (sessionWatcher w)) demoSessionDir
                     (snd (getDefaultModel jsonlRuntime sessionFs (c_modelNow clk)
                             (snd (getSessionDirs jsonlRuntime sessionFs
                                     (snd (consumeForceFullReconciliation
                                             (w\<lparr>sessionWatcher :=
                                                  (sessionWatcher w)\<lparr>sw_dirtyPaths := {}\<rparr>\<rparr>)))))),
                      [], {})))"
  obtain rows v where parsed:
    "parseSessionDirRows jsonlRuntime sessionFs demoSessionDir 1772222600000 ''unknown'' u
       = (Inr (rows u), v u)" and two: "length (rows u) = 2" for u
  proof -
    have "\<exists>r. fst (parseSessionDirRows jsonlRuntime sessionFs demoSessionDir 1772222600000
                      ''unknown'' u) = Inr r \<and> length r = 2" for u
      using sessionFs_row_count [of 1772222600000 "''unknown''" u]
      by (cases "fst (parseSessionDirRows jsonlRuntime sessionFs demoSessionDir 1772222600000
                        ''unknown'' u)") simp_all
    then obtain rows where
      r: "fst (parseSessionDirRows jsonlRuntime sessionFs demoSessionDir 1772222600000
                 ''unknown'' u) = Inr (rows u) \<and> length (rows u) = 2" for u
      by metis
    show thesis
    proof (rule that)
      fix u
      show "parseSessionDirRows jsonlRuntime sessionFs demoSessionDir 1772222600000 ''unknown'' u
              = (Inr (rows u),
                 snd (parseSessionDirRows jsonlRuntime sessionFs demoSessionDir 1772222600000
                        ''unknown'' u))"
        using r [of u] by (simp add: prod_eq_iff)
      show "length (rows u) = 2" using r [of u] by simp
    qed
  qed
  show ?thesis
    using assms
    by (simp add: reconcile_def consumeForceFullReconciliation_def sessionFs_discovery
        sessionFs_model sessionFs_selected Let_def case_prod_beta aggregateStep_def parsed two)
qed

lemma started_fields:
  "sessionMetadataIndex (startSessionWatcher rt fs (logOp op w)) = sessionMetadataIndex w"
  "sessionAggregateCache (startSessionWatcher rt fs (logOp op w)) = sessionAggregateCache w"
  "cachedModel (startSessionWatcher rt fs (logOp op w)) = cachedModel w"
  by (simp_all add: startSessionWatcher_def launchDiscovery_def openWatch_def logOp_def Let_def
      case_prod_beta split: option.split)

lemma bulkQuery_limit: "(bulkQuery a)\<lparr>opt_limit := l\<rparr> = bulkQuery l"
  by (simp add: bulkQuery_def)

lemma demo_validity:
  "\<not> resultCacheValid demoCache (c_now demoClock) (bulkQuery l) n initialWorld"
  "resultCacheValid demoCache (c_now demoClock) (bulkQuery l) n warmWorld = (n = 100)"
  by (auto simp add: resultCacheValid_def initialWorld_def warmWorld_def demoCache_def demoClock_def
      bulkQuery_def sessionFilter_def)

lemma demo_worlds:
  "sessionMetadataIndex initialWorld = Map.empty" "sessionAggregateCache initialWorld = Map.empty"
  "cachedModel initialWorld = None"
  "sessionMetadataIndex warmWorld = Map.empty" "sessionAggregateCache warmWorld = Map.empty"
  "cachedModel warmWorld = None" "lastResult (sessionCache warmWorld) = [staleRow]"
  by (simp_all add: initialWorld_def warmWorld_def)

section \<open>The limit option of a bulk query\<close>

text \<open>
  Claim C9. The \<^verbatim>\<open>limit\<close> option never truncates the rows of a bulk query. For a query with
  \<^verbatim>\<open>limit\<close> \<open>l\<close> (100 when absent): without the session-state directory the rows are empty;
  with it and a valid result cache they are the cached rows; otherwise they are the rows of the
  reconciliation, which are those of the same reconciliation run with no limit at all. So two
  queries from the same state, neither served from the result cache, return the same rows
  whatever their limits; the limit only enters the test of the result cache. An absent limit
  behaves in every respect as the limit 100.
\<close>

theorem limit_never_truncates:
  "(let root = COPILOT_CLI_SESSION_STATE_PATH rt;
        limitOf = (\<lambda>l. case l of None \<Rightarrow> 100 | Some v \<Rightarrow> v);
        query = (\<lambda>l. parseSessionsFromDirs rt cm fs clk (options\<lparr>opt_limit := l\<rparr>) w);
        valid = (\<lambda>l. resultCacheValid cm (c_now clk) (options\<lparr>opt_limit := l\<rparr>) (limitOf l) w);
        started = startSessionWatcher rt fs (logOp (Access root) w)
    in (\<not> fs_access fs root \<longrightarrow> fst (query l) = Inr [])
       \<and> (fs_access fs root \<and> valid l \<longrightarrow> fst (query l) = Inr (lastResult (sessionCache w)))
       \<and> (fs_access fs root \<and> \<not> valid l \<longrightarrow>
            fst (query l) = fst (reconcile rt cm fs clk (options\<lparr>opt_limit := None\<rparr>) 100 started))
       \<and> (\<not> valid l \<and> \<not> valid l' \<longrightarrow> fst (query l) = fst (query l'))
       \<and> query None = query (Some 100))"
proof -
  let ?root = "COPILOT_CLI_SESSION_STATE_PATH rt"
  let ?started = "startSessionWatcher rt fs (logOp (Access ?root) w)"
  let ?limitOf = "\<lambda>l. case l of None \<Rightarrow> (100 :: real) | Some v \<Rightarrow> v"
  let ?query = "\<lambda>l. parseSessionsFromDirs rt cm fs clk (options\<lparr>opt_limit := l\<rparr>) w"
  let ?valid = "\<lambda>l. resultCacheValid cm (c_now clk) (options\<lparr>opt_limit := l\<rparr>) (?limitOf l) w"
  have missing: "fst (?query a) = Inr []" if "\<not> fs_access fs ?root" for a
    using that by (simp add: parseSessionsFromDirs_cases)
  have fast: "fst (?query a) = Inr (lastResult (sessionCache w))" if "fs_access fs ?root" "?valid a" for a
    using that by (simp add: parseSessionsFromDirs_cases)
  have slow: "fst (?query a) = fst (reconcile rt cm fs clk (options\<lparr>opt_limit := None\<rparr>) 100 ?started)"
    if "fs_access fs ?root" "\<not> ?valid a" for a
    using that reconcile_rows_limit [of rt cm fs clk options "?limitOf a" ?started 100]
    by (simp add: parseSessionsFromDirs_cases reconcile_limit_option)
  have same: "fst (?query a) = fst (?query b)" if "\<not> ?valid a" "\<not> ?valid b" for a b
    using that missing [of a] missing [of b] slow [of a] slow [of b]
    by (cases "fs_access fs ?root") simp_all
  have default: "?query None = ?query (Some 100)"
    by (simp add: parseSessionsFromDirs_cases resultCacheValid_limit_option reconcile_limit_option)
  show ?thesis
    unfolding Let_def using missing fast slow same default by blast
qed

text \<open>
  In the example home directory the session \<^verbatim>\<open>s1\<close> has two rows. A first query with limit 1
  returns both, as does one with the default limit. After a query with the default limit was
  cached, the default limit is served from the cache and the limit 1 is reconciled: two rows.
\<close>

theorem limit_never_truncates_witness:
  "map_sum id length
     (fst (parseSessionsFromDirs jsonlRuntime demoCache sessionFs demoClock (bulkQuery (Some 1))
             initialWorld)) = Inr 2
   \<and> fst (parseSessionsFromDirs jsonlRuntime demoCache sessionFs demoClock (bulkQuery (Some 1))
             initialWorld)
       = fst (parseSessionsFromDirs jsonlRuntime demoCache sessionFs demoClock (bulkQuery None)
                initialWorld)
   \<and> fst (parseSessionsFromDirs jsonlRuntime demoCache sessionFs demoClock (bulkQuery None) warmWorld)
       = Inr [staleRow]
   \<and> map_sum id length
        (fst (parseSessionsFromDirs jsonlRuntime demoCache sessionFs demoClock
                (bulkQuery (Some 1)) warmWorld)) = Inr 2"
proof -
  have root: "fs_access sessionFs (COPILOT_CLI_SESSION_STATE_PATH jsonlRuntime)"
    by (simp add: sessionFs_paths sessionFs_fields)
  note cold = limit_never_truncates
                [where rt = jsonlRuntime and cm = demoCache and fs = sessionFs and clk = demoClock
                   and options = "bulkQuery None" and w = initialWorld and l = "Some 1"
                   and l' = None, unfolded Let_def bulkQuery_limit]
  note warm = limit_never_truncates
                [where rt = jsonlRuntime and cm = demoCache and fs = sessionFs and clk = demoClock
                   and options = "bulkQuery None" and w = warmWorld and l = "Some 1"
                   and l' = None, unfolded Let_def bulkQuery_limit]
  note again = limit_never_truncates
                [where rt = jsonlRuntime and cm = demoCache and fs = sessionFs and clk = demoClock
                   and options = "bulkQuery None" and w = warmWorld and l = None
                   and l' = None, unfolded Let_def bulkQuery_limit]
  from cold have first:
    "map_sum id length
       (fst (parseSessionsFromDirs jsonlRuntime demoCache sessionFs demoClock (bulkQuery (Some 1))
               initialWorld)) = Inr 2"
    by (simp add: root demo_validity sessionFs_reconcile_rows started_fields demo_worlds)
  from cold have second:
    "fst (parseSessionsFromDirs jsonlRuntime demoCache sessionFs demoClock (bulkQuery (Some 1))
            initialWorld)
       = fst (parseSessionsFromDirs jsonlRuntime demoCache sessionFs demoClock (bulkQuery None)
                initialWorld)"
    by (simp add: demo_validity)
  from again [THEN conjunct2, THEN conjunct1] have third:
    "fst (parseSessionsFromDirs jsonlRuntime demoCache sessionFs demoClock (bulkQuery None) warmWorld)
       = Inr [staleRow]"
    by (simp add: root demo_validity demo_worlds)
  from warm have fourth:
    "map_sum id length
        (fst (parseSessionsFromDirs jsonlRuntime demoCache sessionFs demoClock
                (bulkQuery (Some 1)) warmWorld)) = Inr 2"
    by (simp add: root demo_validity sessionFs_reconcile_rows started_fields demo_worlds)
  from first second third fourth show ?thesis by blast
qed

section \<open>The fast path of a bulk query\<close>

lemma reconcile_effects:
  "(\<exists>ops. fsLog (snd (reconcile rt cm fs clk options limit w))
            = fsLog w @ Readdir (COPILOT_CLI_SESSION_STATE_PATH rt) # ops)
   \<and> sw_dirtyPaths (sessionWatcher (snd (reconcile rt cm fs clk options limit w))) = {}
   \<and> forceFullReconciliation (snd (reconcile rt cm fs clk options limit w)) = False
   \<and> pending (snd (reconcile rt cm fs clk options limit w)) = pending w
   \<and> sessionCache (snd (reconcile rt cm fs clk options limit w))
       = (case fst (reconcile rt cm fs clk options limit w) of
            Inl e \<Rightarrow> sessionCache w
          | Inr rows \<Rightarrow>
              if sessionFilter options = None
              then (sessionCache w)\<lparr>lastCheck := c_endNow clk, lastResult := rows,
                                     lastLimit := limit, lastSince := opt_since options\<rparr>
              else sessionCache w)"
proof -
  define w2 where "w2 = w\<lparr>sessionWatcher := (sessionWatcher w)\<lparr>sw_dirtyPaths := {}\<rparr>,
                          forceFullReconciliation := False\<rparr>"
  define found where "found = getSessionDirs rt fs w2"
  define model where "model = getDefaultModel rt fs (c_modelNow clk) (snd found)"
  define stat where "stat = fold (reconcileDir fs options (forceFullReconciliation w)
                                    (sw_dirtyPaths (sessionWatcher w)))
                              (fst found) (snd model, [], {})"
  define w6 where "w6 = (fst stat)\<lparr>sessionMetadataIndex :=
                                    sessionMetadataIndex (fst stat) |` snd (snd stat)\<rparr>"
  define agg where "agg = aggregateLoop rt fs (c_now clk) (fst model)
                            (sort_key (\<lambda>d. - psd_mtimeMs d) (fst (snd stat))) (w6, [])"
  define w8 where "w8 = (fst agg)\<lparr>sessionAggregateCache :=
                                   evictSessionAggregateCache cm (sessionAggregateCache (fst agg))\<rparr>"
  have consume: "consumeForceFullReconciliation (w\<lparr>sessionWatcher := s\<rparr>)
                   = (forceFullReconciliation w,
                      w\<lparr>sessionWatcher := s, forceFullReconciliation := False\<rparr>)" for s
    by (simp add: consumeForceFullReconciliation_def Let_def)
  have result: "reconcile rt cm fs clk options limit w =
                  (case snd agg of
                     Inl e \<Rightarrow> (Inl e, fst agg)
                   | Inr rows \<Rightarrow>
                       (Inr rows,
                        if sessionFilter options = None
                        then w8\<lparr>sessionCache := (sessionCache w8)
                                  \<lparr>lastCheck := c_endNow clk, lastResult := rows,
                                   lastLimit := limit, lastSince := opt_since options\<rparr>\<rparr>
                        else w8))"
    unfolding w8_def agg_def w6_def stat_def model_def found_def w2_def
    by (simp add: reconcile_def consume Let_def case_prod_beta split: sum.split)
  obtain ops where found_log:
    "fsLog (snd found) = fsLog w2 @ Readdir (COPILOT_CLI_SESSION_STATE_PATH rt) # ops"
    unfolding found_def using getSessionDirs_log [of rt fs w2] by blast
  have a0: "queryStateKept w2 (snd found)"
    unfolding found_def by (rule kept_getSessionDirs)
  have a: "queryStateKept (snd found) (snd model)"
    unfolding model_def by (rule kept_getDefaultModel)
  have "queryStateKept (fst (snd model, [] :: parsed_session_dir list, {} :: path set))
          (fst (fold (reconcileDir fs options (forceFullReconciliation w)
                        (sw_dirtyPaths (sessionWatcher w))) (fst found) (snd model, [], {})))"
    by (rule kept_fold) (rule kept_reconcileDir)
  then have b: "queryStateKept (snd model) (fst stat)"
    by (simp add: stat_def)
  have c: "queryStateKept (fst stat) w6"
    by (simp add: w6_def queryStateKept_def)
  have "queryStateKept (fst (w6, [] :: usage_row list))
          (fst (aggregateLoop rt fs (c_now clk) (fst model)
                  (sort_key (\<lambda>d. - psd_mtimeMs d) (fst (snd stat))) (w6, [])))"
    by (rule kept_aggregateLoop)
  then have d: "queryStateKept w6 (fst agg)"
    by (simp add: agg_def)
  have e: "queryStateKept (fst agg) w8"
    by (simp add: w8_def queryStateKept_def)
  from a b c d have loop: "queryStateKept (snd found) (fst agg)"
    by (blast intro: kept_trans)
  with e have rest: "queryStateKept (snd found) w8"
    by (blast intro: kept_trans)
  from loop obtain more where loop_log: "fsLog (fst agg) = fsLog (snd found) @ more"
    by (auto simp add: queryStateKept_def)
  have log: "fsLog (fst agg) = fsLog w @ Readdir (COPILOT_CLI_SESSION_STATE_PATH rt) # (ops @ more)"
    "fsLog w8 = fsLog w @ Readdir (COPILOT_CLI_SESSION_STATE_PATH rt) # (ops @ more)"
    by (simp_all add: loop_log found_log w2_def w8_def)
  from kept_trans [OF a0 loop] have loop_fields:
    "sessionCache (fst agg) = sessionCache w" "sw_dirtyPaths (sessionWatcher (fst agg)) = {}"
    "forceFullReconciliation (fst agg) = False" "pending (fst agg) = pending w"
    by (simp_all add: queryStateKept_def w2_def)
  then have fields:
    "sessionCache w8 = sessionCache w" "sw_dirtyPaths (sessionWatcher w8) = {}"
    "forceFullReconciliation w8 = False" "pending w8 = pending w"
    by (simp_all add: w8_def)
  show ?thesis
    unfolding result using log fields loop_fields by (cases "snd agg") simp_all
qed

lemma started_log:
  "fsLog (startSessionWatcher rt fs (logOp (Access (COPILOT_CLI_SESSION_STATE_PATH rt)) w))
     = fsLog w @ Access (COPILOT_CLI_SESSION_STATE_PATH rt)
         # (if sw_started (sessionWatcher w) then []
            else [Watch (COPILOT_CLI_SESSION_STATE_PATH rt), Readdir (COPILOT_CLI_SESSION_STATE_PATH rt)])"
  by (simp add: startSessionWatcher_def launchDiscovery_def openWatch_def logOp_def Let_def
      case_prod_beta split: option.split)

lemma started_pending:
  "pending (startSessionWatcher rt fs (logOp op w))
     = pending w
       @ (if sw_started (sessionWatcher w) then []
          else [SessionDiscovery (fs_readdir fs (COPILOT_CLI_SESSION_STATE_PATH rt))])"
  by (simp add: startSessionWatcher_def launchDiscovery_def openWatch_def logOp_def Let_def
      case_prod_beta split: option.split)

lemma warmWorld_cache:
  "sessionFilter (bulkQuery l) = None" "opt_limit (bulkQuery l) = l" "opt_since (bulkQuery l) = None"
  "lastLimit (sessionCache warmWorld) = 100" "lastSince (sessionCache warmWorld) = None"
  "lastCheck (sessionCache warmWorld) = 900"
  "fsLog warmWorld = []" "\<not> sw_started (sessionWatcher warmWorld)" "pending warmWorld = []"
  by (simp_all add: bulkQuery_def sessionFilter_def warmWorld_def initialWorld_def)

lemma demo_times: "c_now demoClock = 1000" "CACHE_TTL_MS demoCache = 2000"
  by (simp_all add: demoClock_def demoCache_def)

lemma warmWorld_started_log:
  "fsLog (startSessionWatcher jsonlRuntime sessionFs
            (logOp (Access [''home'', ''u'', ''.copilot'', ''session-state'']) warmWorld))
     = [Access [''home'', ''u'', ''.copilot'', ''session-state''],
        Watch [''home'', ''u'', ''.copilot'', ''session-state''],
        Readdir [''home'', ''u'', ''.copilot'', ''session-state'']]"
  using started_log [of jsonlRuntime sessionFs warmWorld]
  by (simp add: sessionFs_paths warmWorld_cache)

lemma warmWorld_started_pending:
  "pending (startSessionWatcher jsonlRuntime sessionFs
              (logOp (Access [''home'', ''u'', ''.copilot'', ''session-state'']) warmWorld))
     = [SessionDiscovery (Some [\<lparr>d_name = ''s1'', d_kind = IsDirectory\<rparr>])]"
  using started_pending [of jsonlRuntime sessionFs _ warmWorld]
  by (simp add: sessionFs_paths sessionFs_fields warmWorld_cache)

lemma warmWorld_settled_log:
  "fsLog (runPending jsonlRuntime sessionFs
            (startSessionWatcher jsonlRuntime sessionFs
               (logOp (Access [''home'', ''u'', ''.copilot'', ''session-state'']) warmWorld)))
     = [Access [''home'', ''u'', ''.copilot'', ''session-state''],
        Watch [''home'', ''u'', ''.copilot'', ''session-state''],
        Readdir [''home'', ''u'', ''.copilot'', ''session-state''],
        Access (demoSessionDir @ [''events.jsonl'']),
        Watch demoSessionDir]"
  by (simp add: runPending_def runTask_def sessionDiscoverySettled_def sessionDirsOf_def
      startSessionWatcher_def launchDiscovery_def watchSessionDir_def openWatch_def logOp_def
      Let_def sessionFs_paths sessionFs_fields warmWorld_def initialWorld_def)

text \<open>
  Claim C5, as the code has it. A bulk query first checks that the session-state directory is
  accessible, and returns no rows when it is not, whatever the result cache holds. Otherwise it
  makes sure that the session watcher is started: the first time, that registers a watch on the
  directory and launches the discovery of the session directories, whose \<^verbatim>\<open>readdir\<close> of the
  directory is issued before \<^verbatim>\<open>startSessionWatcher\<close> returns and whose continuation (an access
  check and a watch for each session directory) is left pending. Then, if no \<^verbatim>\<open>sessionId\<close> is
  requested (an absent or empty one), \<^verbatim>\<open>limit\<close> and \<^verbatim>\<open>since\<close> equal those of the result cache,
  the cached rows are not empty and the cache is younger than the TTL, the cached rows are
  returned and the query does nothing more; in every other case the result is that of the
  reconciliation, which reads the session-state directory, clears the dirty paths and the
  full-reconciliation flag, and, unless it raises or a \<^verbatim>\<open>sessionId\<close> was requested, stores its rows
  in the result cache. So, the directory being accessible, the query issues no operation on the
  file system after the check and the start of the watcher exactly when the four conditions hold.
\<close>

theorem fast_path_after_access_check:
  "(let root = COPILOT_CLI_SESSION_STATE_PATH rt;
        limit = (case opt_limit options of None \<Rightarrow> 100 | Some l \<Rightarrow> l);
        started = startSessionWatcher rt fs (logOp (Access root) w);
        valid = (sessionFilter options = None
                 \<and> limit = lastLimit (sessionCache w)
                 \<and> opt_since options = lastSince (sessionCache w)
                 \<and> lastResult (sessionCache w) \<noteq> []
                 \<and> c_now clk - lastCheck (sessionCache w) < CACHE_TTL_MS cm);
        result = parseSessionsFromDirs rt cm fs clk options w
    in (\<not> fs_access fs root \<longrightarrow> result = (Inr [], logOp (Access root) w))
       \<and> (fs_access fs root \<and> valid \<longrightarrow> result = (Inr (lastResult (sessionCache w)), started))
       \<and> (fs_access fs root \<and> \<not> valid \<longrightarrow>
            result = reconcile rt cm fs clk options limit started
            \<and> (\<exists>ops. fsLog (snd result) = fsLog started @ Readdir root # ops)
            \<and> sw_dirtyPaths (sessionWatcher (snd result)) = {}
            \<and> forceFullReconciliation (snd result) = False
            \<and> sessionCache (snd result)
                = (case fst result of
                     Inl e \<Rightarrow> sessionCache w
                   | Inr rows \<Rightarrow>
                       if sessionFilter options = None
                       then (sessionCache w)\<lparr>lastCheck := c_endNow clk, lastResult := rows,
                                              lastLimit := limit, lastSince := opt_since options\<rparr>
                       else sessionCache w))
       \<and> (fs_access fs root \<longrightarrow> (fsLog (snd result) = fsLog started) = valid)
       \<and> fsLog started
           = fsLog w @ Access root
               # (if sw_started (sessionWatcher w) then [] else [Watch root, Readdir root])
       \<and> pending started
           = pending w
             @ (if sw_started (sessionWatcher w) then []
                else [SessionDiscovery (fs_readdir fs root)]))"
proof -
  let ?root = "COPILOT_CLI_SESSION_STATE_PATH rt"
  let ?limit = "case opt_limit options of None \<Rightarrow> (100 :: real) | Some l \<Rightarrow> l"
  let ?started = "startSessionWatcher rt fs (logOp (Access ?root) w)"
  let ?valid = "sessionFilter options = None
                 \<and> ?limit = lastLimit (sessionCache w)
                 \<and> opt_since options = lastSince (sessionCache w)
                 \<and> lastResult (sessionCache w) \<noteq> []
                 \<and> c_now clk - lastCheck (sessionCache w) < CACHE_TTL_MS cm"
  let ?result = "parseSessionsFromDirs rt cm fs clk options w"
  let ?cached = "resultCacheValid cm (c_now clk) options ?limit w"
  have valid: "?valid = ?cached"
    by (auto simp add: resultCacheValid_def)
  have missing: "?result = (Inr [], logOp (Access ?root) w)" if "\<not> fs_access fs ?root"
    using that by (simp add: parseSessionsFromDirs_cases)
  have fast: "?result = (Inr (lastResult (sessionCache w)), ?started)"
    if "fs_access fs ?root" "?cached"
    using that by (simp add: parseSessionsFromDirs_cases)
  have slow: "?result = reconcile rt cm fs clk options ?limit ?started"
    if "fs_access fs ?root" "\<not> ?cached"
    using that by (simp add: parseSessionsFromDirs_cases)
  note effects = reconcile_effects [of rt cm fs clk options ?limit ?started]
  have slow_effects:
    "(\<exists>ops. fsLog (snd ?result) = fsLog ?started @ Readdir ?root # ops)
     \<and> sw_dirtyPaths (sessionWatcher (snd ?result)) = {}
     \<and> forceFullReconciliation (snd ?result) = False
     \<and> sessionCache (snd ?result)
         = (case fst ?result of
              Inl e \<Rightarrow> sessionCache w
            | Inr rows \<Rightarrow>
                if sessionFilter options = None
                then (sessionCache w)\<lparr>lastCheck := c_endNow clk, lastResult := rows,
                                       lastLimit := ?limit, lastSince := opt_since options\<rparr>
                else sessionCache w)"
    if "fs_access fs ?root" "\<not> ?cached"
    using effects unfolding slow [OF that] sessionCache_started by blast
  have log_iff: "(fsLog (snd ?result) = fsLog ?started) = ?cached" if access: "fs_access fs ?root"
  proof (cases "?cached")
    case True
    with fast [OF access] show ?thesis by simp
  next
    case False
    from slow_effects [OF access False] obtain ops
      where "fsLog (snd ?result) = fsLog ?started @ Readdir ?root # ops" by blast
    with False show ?thesis by simp
  qed
  show ?thesis
    unfolding Let_def valid
    using missing fast slow slow_effects log_iff started_log [of rt fs w]
      started_pending [of rt fs "Access ?root" w]
    by (intro conjI impI; (elim conjE)?) blast+
qed

text \<open>
  With a result cache filled by a query with the default limit 100 ms before, and a watcher
  not yet started: without the session-state directory the query returns no rows after the one
  check; with it, the default limit gets the cached row after the check, the watch and the
  \<^verbatim>\<open>readdir\<close> of the discovery, whose continuation is pending and, once run, checks and watches
  the one session directory; the limit 1 is reconciled, reads more, and replaces the result
  cache.
\<close>

theorem fast_path_after_access_check_witness:
  "parseSessionsFromDirs jsonlRuntime demoCache watchableFs demoClock (bulkQuery None) warmWorld
     = (Inr [], logOp (Access [''home'', ''u'', ''.copilot'', ''session-state'']) warmWorld)
   \<and> fst (parseSessionsFromDirs jsonlRuntime demoCache sessionFs demoClock (bulkQuery None) warmWorld)
       = Inr [staleRow]
   \<and> fsLog (snd (parseSessionsFromDirs jsonlRuntime demoCache sessionFs demoClock (bulkQuery None)
                    warmWorld))
       = [Access [''home'', ''u'', ''.copilot'', ''session-state''],
          Watch [''home'', ''u'', ''.copilot'', ''session-state''],
          Readdir [''home'', ''u'', ''.copilot'', ''session-state'']]
   \<and> pending (snd (parseSessionsFromDirs jsonlRuntime demoCache sessionFs demoClock (bulkQuery None)
                      warmWorld))
       = [SessionDiscovery (Some [\<lparr>d_name = ''s1'', d_kind = IsDirectory\<rparr>])]
   \<and> fsLog (runPending jsonlRuntime sessionFs
               (snd (parseSessionsFromDirs jsonlRuntime demoCache sessionFs demoClock (bulkQuery None)
                       warmWorld)))
       = [Access [''home'', ''u'', ''.copilot'', ''session-state''],
          Watch [''home'', ''u'', ''.copilot'', ''session-state''],
          Readdir [''home'', ''u'', ''.copilot'', ''session-state''],
          Access (demoSessionDir @ [''events.jsonl'']),
          Watch demoSessionDir]
   \<and> fsLog (snd (parseSessionsFromDirs jsonlRuntime demoCache sessionFs demoClock
                    (bulkQuery (Some 1)) warmWorld))
       \<noteq> [Access [''home'', ''u'', ''.copilot'', ''session-state''],
           Watch [''home'', ''u'', ''.copilot'', ''session-state''],
           Readdir [''home'', ''u'', ''.copilot'', ''session-state'']]
   \<and> lastLimit (sessionCache (snd (parseSessionsFromDirs jsonlRuntime demoCache sessionFs demoClock
                                       (bulkQuery (Some 1)) warmWorld))) = 1
   \<and> map_sum id (\<lambda>rows. rows = lastResult (sessionCache (snd (parseSessionsFromDirs jsonlRuntime
                              demoCache sessionFs demoClock (bulkQuery (Some 1)) warmWorld))))
       (fst (parseSessionsFromDirs jsonlRuntime demoCache sessionFs demoClock (bulkQuery (Some 1))
               warmWorld))
       = Inr True"
proof -
  let ?rootPath = "[''home'', ''u'', ''.copilot'', ''session-state'']"
  let ?started = "startSessionWatcher jsonlRuntime sessionFs (logOp (Access ?rootPath) warmWorld)"
  have root: "fs_access sessionFs (COPILOT_CLI_SESSION_STATE_PATH jsonlRuntime)"
    "\<not> fs_access watchableFs (COPILOT_CLI_SESSION_STATE_PATH jsonlRuntime)"
    by (simp_all add: sessionFs_paths sessionFs_fields watchableFs_def)
  note absent = fast_path_after_access_check
                  [where rt = jsonlRuntime and cm = demoCache and fs = watchableFs and clk = demoClock
                     and options = "bulkQuery None" and w = warmWorld, unfolded Let_def,
                   THEN conjunct1, THEN mp, OF root(2)]
  note cached = fast_path_after_access_check
                  [where rt = jsonlRuntime and cm = demoCache and fs = sessionFs and clk = demoClock
                     and options = "bulkQuery None" and w = warmWorld, unfolded Let_def]
  note other = fast_path_after_access_check
                  [where rt = jsonlRuntime and cm = demoCache and fs = sessionFs and clk = demoClock
                     and options = "bulkQuery (Some 1)" and w = warmWorld, unfolded Let_def]
  from absent have first:
    "parseSessionsFromDirs jsonlRuntime demoCache watchableFs demoClock (bulkQuery None) warmWorld
       = (Inr [], logOp (Access ?rootPath) warmWorld)"
    by (simp add: sessionFs_paths)
  have quick: "fs_access sessionFs (COPILOT_CLI_SESSION_STATE_PATH jsonlRuntime)
              \<and> (sessionFilter (bulkQuery None) = None
                  \<and> (case opt_limit (bulkQuery None) of None \<Rightarrow> 100 | Some l \<Rightarrow> l)
                      = lastLimit (sessionCache warmWorld)
                  \<and> opt_since (bulkQuery None) = lastSince (sessionCache warmWorld)
                  \<and> lastResult (sessionCache warmWorld) \<noteq> []
                  \<and> c_now demoClock - lastCheck (sessionCache warmWorld) < CACHE_TTL_MS demoCache)"
    by (simp add: root warmWorld_cache demo_times demo_worlds)
  from cached [THEN conjunct2, THEN conjunct1, THEN mp, OF quick]
  have returned:
    "parseSessionsFromDirs jsonlRuntime demoCache sessionFs demoClock (bulkQuery None) warmWorld
       = (Inr (lastResult (sessionCache warmWorld)), ?started)"
    by (simp add: sessionFs_paths)
  have second:
    "fst (parseSessionsFromDirs jsonlRuntime demoCache sessionFs demoClock (bulkQuery None) warmWorld)
       = Inr [staleRow]
     \<and> fsLog (snd (parseSessionsFromDirs jsonlRuntime demoCache sessionFs demoClock (bulkQuery None)
                      warmWorld))
         = [Access ?rootPath, Watch ?rootPath, Readdir ?rootPath]
     \<and> pending (snd (parseSessionsFromDirs jsonlRuntime demoCache sessionFs demoClock
                        (bulkQuery None) warmWorld))
         = [SessionDiscovery (Some [\<lparr>d_name = ''s1'', d_kind = IsDirectory\<rparr>])]
     \<and> fsLog (runPending jsonlRuntime sessionFs
                 (snd (parseSessionsFromDirs jsonlRuntime demoCache sessionFs demoClock
                         (bulkQuery None) warmWorld)))
         = [Access ?rootPath, Watch ?rootPath, Readdir ?rootPath,
            Access (demoSessionDir @ [''events.jsonl'']), Watch demoSessionDir]"
    unfolding returned
    by (simp add: demo_worlds warmWorld_started_log warmWorld_started_pending warmWorld_settled_log)
  from other [THEN conjunct2, THEN conjunct2, THEN conjunct2, THEN conjunct1]
    other [THEN conjunct2, THEN conjunct2, THEN conjunct2, THEN conjunct2, THEN conjunct1]
  have third:
    "fsLog (snd (parseSessionsFromDirs jsonlRuntime demoCache sessionFs demoClock
                      (bulkQuery (Some 1)) warmWorld))
       \<noteq> [Access ?rootPath, Watch ?rootPath, Readdir ?rootPath]"
    by (simp add: sessionFs_fields warmWorld_cache demo_times demo_worlds sessionFs_paths)
  have slow: "fs_access sessionFs (COPILOT_CLI_SESSION_STATE_PATH jsonlRuntime)
              \<and> \<not> (sessionFilter (bulkQuery (Some 1)) = None
                     \<and> (case opt_limit (bulkQuery (Some 1)) of None \<Rightarrow> 100 | Some l \<Rightarrow> l)
                         = lastLimit (sessionCache warmWorld)
                     \<and> opt_since (bulkQuery (Some 1)) = lastSince (sessionCache warmWorld)
                     \<and> lastResult (sessionCache warmWorld) \<noteq> []
                     \<and> c_now demoClock - lastCheck (sessionCache warmWorld) < CACHE_TTL_MS demoCache)"
    by (simp add: root warmWorld_cache)
  note reconciled = other [THEN conjunct2, THEN conjunct2, THEN conjunct1, THEN mp, OF slow]
  from reconciled [THEN conjunct2, THEN conjunct2, THEN conjunct2, THEN conjunct2]
  have stored:
    "sessionCache (snd (parseSessionsFromDirs jsonlRuntime demoCache sessionFs demoClock
                          (bulkQuery (Some 1)) warmWorld))
       = (case fst (parseSessionsFromDirs jsonlRuntime demoCache sessionFs demoClock
                      (bulkQuery (Some 1)) warmWorld) of
            Inl e \<Rightarrow> sessionCache warmWorld
          | Inr rows \<Rightarrow> (sessionCache warmWorld)\<lparr>lastCheck := c_endNow demoClock, lastResult := rows,
                                                  lastLimit := 1, lastSince := None\<rparr>)"
    by (simp add: warmWorld_cache split: sum.split)
  from reconciled [THEN conjunct1]
  have "map_sum id length
          (fst (parseSessionsFromDirs jsonlRuntime demoCache sessionFs demoClock
                  (bulkQuery (Some 1)) warmWorld)) = Inr 2"
    by (simp add: warmWorld_cache sessionFs_paths sessionFs_reconcile_rows started_fields demo_worlds)
  then obtain rows where rows:
    "fst (parseSessionsFromDirs jsonlRuntime demoCache sessionFs demoClock
            (bulkQuery (Some 1)) warmWorld) = Inr rows"
    by (cases "fst (parseSessionsFromDirs jsonlRuntime demoCache sessionFs demoClock
                      (bulkQuery (Some 1)) warmWorld)") simp_all
  have fourth:
    "lastLimit (sessionCache (snd (parseSessionsFromDirs jsonlRuntime demoCache sessionFs demoClock
                                       (bulkQuery (Some 1)) warmWorld))) = 1
     \<and> map_sum id (\<lambda>rows. rows = lastResult (sessionCache (snd (parseSessionsFromDirs jsonlRuntime
                                demoCache sessionFs demoClock (bulkQuery (Some 1)) warmWorld))))
         (fst (parseSessionsFromDirs jsonlRuntime demoCache sessionFs demoClock (bulkQuery (Some 1))
                 warmWorld))
         = Inr True"
    unfolding stored rows by simp
  from first second third fourth show ?thesis by blast
qed

text \<open>
  The claim as the specification words it fails on the same state: the four conditions hold, yet
  without the session-state directory the cached row is not returned, and with it the cached row
  is returned only after three operations on the file system.
\<close>

theorem fast_path_skips_access_counterexample:
  "resultCacheValid demoCache (c_now demoClock) (bulkQuery None) 100 warmWorld
   \<and> lastResult (sessionCache warmWorld) = [staleRow]
   \<and> fst (parseSessionsFromDirs jsonlRuntime demoCache watchableFs demoClock (bulkQuery None) warmWorld)
       = Inr []
   \<and> fst (parseSessionsFromDirs jsonlRuntime demoCache sessionFs demoClock (bulkQuery None) warmWorld)
       = Inr [staleRow]
   \<and> fsLog warmWorld = []
   \<and> fsLog (snd (parseSessionsFromDirs jsonlRuntime demoCache sessionFs demoClock (bulkQuery None)
                    warmWorld))
       = [Access [''home'', ''u'', ''.copilot'', ''session-state''],
          Watch [''home'', ''u'', ''.copilot'', ''session-state''],
          Readdir [''home'', ''u'', ''.copilot'', ''session-state'']]"
  by (simp add: parseSessionsFromDirs_cases demo_validity demo_worlds warmWorld_cache
      warmWorld_started_log sessionFs_paths sessionFs_fields watchableFs_def)
end
